(* ===== verification/Prelude.thy ===== *)
theory Prelude imports Main begin

text \<open>
  What the components share: JavaScript exceptions as values, a traversal that stops at
  the first exception, search in a list by index, and the runs of a handler.

  A handler is the way every stateful class of the client is modelled: a function of the
  object's state and one incoming call (a method call, a callback of Rx, autobahn or the
  scheduler) that returns the new state and the list of calls the object makes on the
  outside while it handles it, in the order it makes them.
\<close>

named_theorems result_simps \<open>equations of the exception-passing combinators\<close>
named_theorems handler_simps \<open>the one-step equations of the handlers\<close>

section \<open>Exceptions as values\<close>

text \<open>\<open>Error\<close> is what the source throws, \<open>TypeError\<close> and \<open>RangeError\<close> what the language
  throws for it.\<close>

datatype js_error = Error string | TypeError string | RangeError string

type_synonym 'a result = "js_error + 'a"

definition bind_result :: "'a result \<Rightarrow> ('a \<Rightarrow> 'b result) \<Rightarrow> 'b result" where
  "bind_result r f = (case r of Inl e \<Rightarrow> Inl e | Inr a \<Rightarrow> f a)"

fun map_result :: "('a \<Rightarrow> 'b result) \<Rightarrow> 'a list \<Rightarrow> 'b list result" where
  "map_result f [] = Inr []"
| "map_result f (x # xs) =
     bind_result (f x) (\<lambda>y. bind_result (map_result f xs) (\<lambda>ys. Inr (y # ys)))"

lemma bind_result_Inl [simp, result_simps]: "bind_result (Inl e) f = Inl e"
  by (simp add: bind_result_def)

lemma bind_result_Inr [simp, result_simps]: "bind_result (Inr a) f = f a"
  by (simp add: bind_result_def)

lemma bind_result_eq_Inr [result_simps]:
  "bind_result r f = Inr b \<longleftrightarrow> (\<exists>a. r = Inr a \<and> f a = Inr b)"
  by (cases r) auto

lemma bind_result_eq_Inl [result_simps]:
  "bind_result r f = Inl e \<longleftrightarrow> r = Inl e \<or> (\<exists>a. r = Inr a \<and> f a = Inl e)"
  by (cases r) auto

lemma map_result_Inr_iff:
  "map_result f xs = Inr ys \<longleftrightarrow> list_all2 (\<lambda>x y. f x = Inr y) xs ys"
proof (induction xs arbitrary: ys)
  case Nil
  then show ?case by auto
next
  case (Cons x xs)
  then show ?case by (auto simp: bind_result_eq_Inr list_all2_Cons1)
qed

lemma map_result_total:
  "(\<And>x. x \<in> set xs \<Longrightarrow> f x = Inr (g x)) \<Longrightarrow> map_result f xs = Inr (map g xs)"
  by (induction xs) auto

lemma map_result_first_error:
  "map_result f (xs @ x # ys) = Inl e"
  if "\<And>y. y \<in> set xs \<Longrightarrow> \<exists>z. f y = Inr z" and "f x = Inl e"
  using that(1)
proof (induction xs)
  case Nil
  then show ?case using that(2) by simp
next
  case (Cons y xs)
  then show ?case by fastforce
qed

section \<open>Search by index\<close>

text \<open>The index of the first element a predicate holds of, \<open>None\<close> for the \<open>-1\<close> of
  \<open>findIndex\<close>.\<close>

fun find_index :: "('a \<Rightarrow> bool) \<Rightarrow> 'a list \<Rightarrow> nat option" where
  "find_index p [] = None"
| "find_index p (x # xs) = (if p x then Some 0 else map_option Suc (find_index p xs))"

lemma find_index_None_iff: "find_index p xs = None \<longleftrightarrow> (\<forall>x \<in> set xs. \<not> p x)"
  by (induction xs) auto

lemma find_index_Some:
  "find_index p xs = Some i \<Longrightarrow>
     i < length xs \<and> p (xs ! i) \<and> (\<forall>j < i. \<not> p (xs ! j))"
proof (induction xs arbitrary: i)
  case Nil
  then show ?case by simp
next
  case (Cons x xs)
  then show ?case by (cases i) (auto split: if_splits simp: All_less_Suc2)
qed

lemmas find_index_SomeD = find_index_Some [THEN conjunct1]
  find_index_Some [THEN conjunct2, THEN conjunct1]

section \<open>Runs of a handler\<close>

type_synonym ('s, 'i, 'o) handler = "'s \<Rightarrow> 'i \<Rightarrow> 's \<times> 'o list"

fun run :: "('s, 'i, 'o) handler \<Rightarrow> 's \<Rightarrow> 'i list \<Rightarrow> 's \<times> 'o list" where
  "run h s [] = (s, [])"
| "run h s (i # is) =
     (let (s', os) = h s i; (s'', os') = run h s' is in (s'', os @ os'))"

abbreviation final_state :: "('s, 'i, 'o) handler \<Rightarrow> 's \<Rightarrow> 'i list \<Rightarrow> 's" where
  "final_state h s is \<equiv> fst (run h s is)"

abbreviation outputs :: "('s, 'i, 'o) handler \<Rightarrow> 's \<Rightarrow> 'i list \<Rightarrow> 'o list" where
  "outputs h s is \<equiv> snd (run h s is)"

lemma run_Cons [simp]:
  "final_state h s (i # is) = final_state h (fst (h s i)) is"
  "outputs h s (i # is) = snd (h s i) @ outputs h (fst (h s i)) is"
  by (simp_all add: split_beta Let_def)

lemma run_append:
  "final_state h s (is @ js) = final_state h (final_state h s is) js"
  "outputs h s (is @ js) = outputs h s is @ outputs h (final_state h s is) js"
  by (induction "is" arbitrary: s) (simp_all del: run.simps(2))

declare run.simps(2) [simp del]

text \<open>The contract of a component with an invariant: every call keeps it, and every call
  the component makes from a state that satisfies it is an allowed one.\<close>

locale guarded_handler =
  fixes h :: "'s \<Rightarrow> 'i \<Rightarrow> 's \<times> 'o list"
    and inv :: "'s \<Rightarrow> bool"
    and allowed :: "'o \<Rightarrow> bool"
  assumes step_inv: "inv s \<Longrightarrow> inv (fst (h s i))"
    and step_allowed: "inv s \<Longrightarrow> out \<in> set (snd (h s i)) \<Longrightarrow> allowed out"
begin

lemma run_inv: "inv s \<Longrightarrow> inv (final_state h s is)"
  by (induction "is" arbitrary: s) (simp_all add: step_inv)

lemma run_allowed: "inv s \<Longrightarrow> out \<in> set (outputs h s is) \<Longrightarrow> allowed out"
proof (induction "is" arbitrary: s)
  case Nil
  then show ?case by simp
next
  case (Cons i "is")
  then show ?case using step_inv step_allowed by fastforce
qed

end

text \<open>Steps that may not return are partial, and so are their runs. The contract of a component whose steps all return
  from states that satisfy its invariant.\<close>

fun run_option :: "('s \<Rightarrow> 'i \<Rightarrow> 's option) \<Rightarrow> 's \<Rightarrow> 'i list \<Rightarrow> 's option" where
  "run_option h s [] = Some s"
| "run_option h s (i # is) = Option.bind (h s i) (\<lambda>s'. run_option h s' is)"

locale total_handler =
  fixes h :: "'s \<Rightarrow> 'i \<Rightarrow> 's option"
    and inv :: "'s \<Rightarrow> bool"
  assumes step_returns: "inv s \<Longrightarrow> \<exists>s'. h s i = Some s' \<and> inv s'"
begin

lemma run_returns: "inv s \<Longrightarrow> \<exists>s'. run_option h s is = Some s' \<and> inv s'"
proof (induction "is" arbitrary: s)
  case (Cons i "is")
  obtain s1 where "h s i = Some s1" and "inv s1" using step_returns [OF Cons.prems] by blast
  with Cons.IH show ?case by simp
qed simp

lemma run_inv: "inv s \<Longrightarrow> run_option h s is = Some s' \<Longrightarrow> inv s'"
  using run_returns [of s "is"] by auto

end

end
