(* ===== verification/Retry.thy ===== *)
theory Retry imports Prelude begin

text \<open>
  \<open>system/observableExtensions\<close>: the retry policies and \<open>retryWithPolicy\<close>. The operator is a
  handler for one subscriber: it sees what the source emits on each subscription to it, the
  return of each \<open>source.subscribe\<close>, the retry timers and the subscriber's \<open>dispose\<close>, and
  calls the source, the scheduler, the error callback and the subscriber.

  Rx's part is kept to its documented contract. A subscription emits nothing once it was
  disposed of or has ended (\<open>ry_live\<close> holds the others); a subscriber that was sent an error or
  the completion, or that has disposed, gets nothing more (\<open>ry_stopped\<close>) and its disposer runs
  as soon as there is one (\<open>ry_attached\<close>); a \<open>SerialDisposable\<close> disposes of what it held when it
  is given something else, and of what it is given once it is disposed of itself. A source that
  emits before its \<open>subscribe\<close> returns is covered: the emission comes before the matching
  \<open>SubscribeReturned\<close>, and \<open>ry_pending\<close> is the stack of the calls that have not returned.
\<close>

section \<open>Policies\<close>

record should_retry_result =
  sr_shouldRetry :: bool
  sr_retryAfterMilliseconds :: nat

type_synonym retry_policy = "js_error \<Rightarrow> nat \<Rightarrow> should_retry_result"

definition forever :: retry_policy where
  "forever error retryCount = \<lparr>sr_shouldRetry = True, sr_retryAfterMilliseconds = 0\<rparr>"

definition indefiniteEvery2Seconds :: retry_policy where
  "indefiniteEvery2Seconds error retryCount = \<lparr>sr_shouldRetry = True, sr_retryAfterMilliseconds = 2000\<rparr>"

definition backoffTo10SecondsMax :: retry_policy where
  "backoffTo10SecondsMax error retryCount =
     (let retryAfter = retryCount * 1000
      in \<lparr>sr_shouldRetry = True,
          sr_retryAfterMilliseconds = (if retryAfter < 10000 then retryAfter else 10000)\<rparr>)"

section \<open>retryWithPolicy\<close>

record retry_state =
  ry_retryCount :: nat
  ry_isDisposed :: bool
  ry_current :: "nat option"
  ry_live :: "nat list"
  ry_pending :: "nat list"
  ry_next :: nat
  ry_timers :: nat
  ry_attached :: bool
  ry_stopped :: bool

datatype 'v retry_event =
    SourceNext nat 'v
  | SourceError nat js_error
  | SourceCompleted nat
  | SubscribeReturned
  | RetryTimer
  | Unsubscribe

datatype 'v retry_call =
    SubscribeSource nat
  | DisposeSource nat
  | ErrorCallback js_error should_retry_result
  | ScheduleRetry nat
  | OnNext 'v
  | OnError js_error
  | OnCompleted

definition drop_live :: "nat \<Rightarrow> retry_state \<Rightarrow> retry_state" where
  "drop_live i s = s\<lparr>ry_live := filter ((\<noteq>) i) (ry_live s)\<rparr>"

definition retry_subscribe :: "retry_state \<Rightarrow> retry_state \<times> 'v retry_call list" where
  "retry_subscribe s =
     (s\<lparr>ry_live := ry_next s # ry_live s, ry_pending := ry_next s # ry_pending s, ry_next := Suc (ry_next s)\<rparr>,
      [SubscribeSource (ry_next s)])"

text \<open>\<open>currentSubscriptionDisposable.setDisposable\<close>\<close>

definition setDisposable :: "nat \<Rightarrow> retry_state \<Rightarrow> retry_state \<times> 'v retry_call list" where
  "setDisposable i s =
     (if ry_isDisposed s then (drop_live i s, [DisposeSource i])
      else case ry_current s of
        None \<Rightarrow> (s\<lparr>ry_current := Some i\<rparr>, [])
      | Some old \<Rightarrow> ((drop_live old s)\<lparr>ry_current := Some i\<rparr>, [DisposeSource old]))"

definition retry_disposer :: "retry_state \<Rightarrow> retry_state \<times> 'v retry_call list" where
  "retry_disposer s =
     (case ry_current s of
        None \<Rightarrow> (s\<lparr>ry_isDisposed := True\<rparr>, [])
      | Some i \<Rightarrow> ((drop_live i s)\<lparr>ry_isDisposed := True, ry_current := None\<rparr>, [DisposeSource i]))"

text \<open>The subscriber is done: its disposer runs now, or when the subscribing call returns.\<close>

definition retry_detach :: "retry_state \<Rightarrow> retry_state \<times> 'v retry_call list" where
  "retry_detach s =
     (if ry_attached s then retry_disposer (s\<lparr>ry_stopped := True\<rparr>) else (s\<lparr>ry_stopped := True\<rparr>, []))"

definition new_retry :: "retry_state \<times> 'v retry_call list" where
  "new_retry =
     retry_subscribe \<lparr>ry_retryCount = 0, ry_isDisposed = False, ry_current = None, ry_live = [], ry_pending = [],
       ry_next = 0, ry_timers = 0, ry_attached = False, ry_stopped = False\<rparr>"

fun retry_step :: "retry_policy \<Rightarrow> (retry_state, 'v retry_event, 'v retry_call) handler" where
  "retry_step retryPolicy s (SourceNext i v) =
     (if i \<in> set (ry_live s) \<and> \<not> ry_isDisposed s \<and> \<not> ry_stopped s then (s, [OnNext v]) else (s, []))"
| "retry_step retryPolicy s (SourceError i err) =
     (if i \<notin> set (ry_live s) then (s, [])
      else
        let s = (drop_live i s)\<lparr>ry_retryCount := Suc (ry_retryCount s)\<rparr>;
            shouldRetryResult = retryPolicy err (ry_retryCount s);
            (s', calls) =
              (if sr_shouldRetry shouldRetryResult
               then if sr_retryAfterMilliseconds shouldRetryResult = 0 then retry_subscribe s
                    else (s\<lparr>ry_timers := Suc (ry_timers s)\<rparr>,
                          [ScheduleRetry (sr_retryAfterMilliseconds shouldRetryResult)])
               else if ry_stopped s then (s, [])
               else (let (s', calls) = retry_detach s in (s', OnError err # calls)))
        in (s', ErrorCallback err shouldRetryResult # calls))"
| "retry_step retryPolicy s (SourceCompleted i) =
     (if i \<notin> set (ry_live s) then (s, [])
      else if ry_stopped s then (drop_live i s, [])
      else (let (s', calls) = retry_detach (drop_live i s) in (s', OnCompleted # calls)))"
| "retry_step retryPolicy s SubscribeReturned =
     (case ry_pending s of
        [] \<Rightarrow> (s, [])
      | i # rest \<Rightarrow>
          let (s', calls) = setDisposable i (s\<lparr>ry_pending := rest\<rparr>)
          in if \<not> ry_attached s' \<and> rest = []
             then let s' = s'\<lparr>ry_attached := True\<rparr>;
                      (s'', calls') = (if ry_stopped s' then retry_disposer s' else (s', []))
                  in (s'', calls @ calls')
             else (s', calls))"
| "retry_step retryPolicy s RetryTimer =
     (if ry_timers s = 0 then (s, []) else retry_subscribe (s\<lparr>ry_timers := ry_timers s - 1\<rparr>))"
| "retry_step retryPolicy s Unsubscribe = (if ry_stopped s then (s, []) else retry_detach s)"

text \<open>A source that never emits before \<open>subscribe\<close> returns, as the service operations over the
  socket are: every call of \<open>subscribe\<close> is followed by its return.\<close>

definition async_retry :: "retry_policy \<Rightarrow> (retry_state, 'v retry_event, 'v retry_call) handler" where
  "async_retry retryPolicy s ev =
     (let (s', calls) = retry_step retryPolicy s ev
      in if ry_pending s' = [] then (s', calls)
         else let (s'', calls') = retry_step retryPolicy s' SubscribeReturned in (s'', calls @ calls'))"

definition async_start :: retry_state where
  "async_start = fst (retry_step forever (fst (new_retry :: _ \<times> unit retry_call list)) (SubscribeReturned :: unit retry_event))"

section \<open>Lemmas\<close>

text \<open>The calls on the subscriber.\<close>

fun is_emission :: "'v retry_call \<Rightarrow> bool" where
  "is_emission (OnNext v) = True"
| "is_emission (OnError e) = True"
| "is_emission OnCompleted = True"
| "is_emission c = False"

lemmas retry_defs = retry_subscribe_def setDisposable_def retry_disposer_def retry_detach_def drop_live_def

lemma setDisposable_stopped [simp]: "ry_stopped (fst (setDisposable i s)) = ry_stopped s"
  by (auto simp: retry_defs split: option.split)

lemma retry_calls_silent [simp]:
  "out \<in> set (snd (retry_subscribe s)) \<Longrightarrow> \<not> is_emission out"
  "out \<in> set (snd (setDisposable i s)) \<Longrightarrow> \<not> is_emission out"
  "out \<in> set (snd (retry_disposer s)) \<Longrightarrow> \<not> is_emission out"
  "out \<in> set (snd (retry_detach s)) \<Longrightarrow> \<not> is_emission out"
  by (auto simp: retry_defs split: if_splits option.splits)

lemma retry_stops:
  "ry_stopped (fst (retry_detach s))" "ry_stopped (fst (retry_disposer s)) = ry_stopped s"
  "ry_stopped (fst (retry_subscribe s)) = ry_stopped s" "ry_stopped (drop_live i s) = ry_stopped s"
  by (auto simp: retry_defs split: option.split)

text \<open>A subscriber that is done stays done and is sent nothing.\<close>

lemma retry_step_stopped:
  assumes "ry_stopped s"
  shows "ry_stopped (fst (retry_step pol s ev)) \<and> (\<forall>out \<in> set (snd (retry_step pol s ev)). \<not> is_emission out)"
proof (cases ev)
  case (SourceNext i v)
  with assms show ?thesis by simp
next
  case (SourceError i e)
  with assms show ?thesis
    by (auto simp: Let_def split_beta retry_stops)
next
  case (SourceCompleted i)
  with assms show ?thesis by (simp add: retry_stops)
next
  case SubscribeReturned
  with assms show ?thesis
    by (auto simp: Let_def split_beta retry_stops split: list.split)
next
  case RetryTimer
  with assms show ?thesis by (auto simp: retry_stops)
next
  case Unsubscribe
  with assms show ?thesis by simp
qed

interpretation retry_stopped: guarded_handler "retry_step pol" ry_stopped "\<lambda>out. \<not> is_emission out"
  for pol
  by unfold_locales (use retry_step_stopped in blast)+

section \<open>Policies that never give up\<close>

text \<open>What the callers of \<open>retryWithPolicy\<close> rely on: the policy always retries, within a bound.\<close>

locale persistent_policy =
  fixes policy :: retry_policy and bound :: nat
  assumes always: "sr_shouldRetry (policy e n)"
    and bounded: "sr_retryAfterMilliseconds (policy e n) \<le> bound"
begin

lemma step_no_error: "OnError e \<notin> set (snd (retry_step policy s ev))"
proof -
  have "OnError e \<noteq> out" if "\<not> is_emission out" for out :: "'v retry_call" using that by auto
  then show ?thesis
    by (cases ev) (auto simp: always Let_def split_beta split: list.splits if_splits dest: retry_calls_silent)
qed

lemma never_errors: "OnError e \<notin> set (outputs (retry_step policy) s evs)"
  by (induction evs arbitrary: s) (simp_all add: step_no_error del: retry_step.simps)

lemma step_delay:
  "ScheduleRetry ms \<in> set (snd (retry_step policy s ev)) \<Longrightarrow>
     0 < ms \<and> ms \<le> bound \<and> (\<exists>i e. ev = SourceError i e \<and> ms = sr_retryAfterMilliseconds (policy e (Suc (ry_retryCount s))))"
  by (cases ev) (auto simp: always bounded Let_def split_beta retry_defs split: list.splits if_splits option.splits)

end

interpretation persistent_forever: persistent_policy forever 0
  by unfold_locales (simp_all add: forever_def)

interpretation persistent_2s: persistent_policy indefiniteEvery2Seconds 2000
  by unfold_locales (simp_all add: indefiniteEvery2Seconds_def)

interpretation persistent_backoff: persistent_policy backoffTo10SecondsMax 10000
  by unfold_locales (simp_all add: backoffTo10SecondsMax_def Let_def)

text \<open>While the subscriber is there, exactly one thing keeps the stream going: one live
  subscription, or one retry timer.\<close>

definition retry_alive :: "retry_state \<Rightarrow> bool" where
  "retry_alive s \<longleftrightarrow> ry_pending s = [] \<and> ry_attached s \<and> (ry_isDisposed s \<longleftrightarrow> ry_stopped s)
     \<and> (if ry_stopped s then ry_live s = [] \<and> ry_timers s \<le> 1
        else (\<exists>i. ry_current s = Some i \<and> i < ry_next s
          \<and> (ry_live s = [i] \<and> ry_timers s = 0 \<or> ry_live s = [] \<and> ry_timers s = 1)))"

lemma retry_alive_start: "retry_alive async_start"
  by (simp add: async_start_def new_retry_def retry_defs retry_alive_def)

context persistent_policy begin

lemma async_alive:
  assumes "retry_alive s"
  shows "retry_alive (fst (async_retry policy s ev))"
proof (cases ev)
  case (SourceNext i v)
  with assms show ?thesis by (auto simp: async_retry_def retry_alive_def split: if_splits)
next
  case (SourceError i e)
  with assms always show ?thesis
    by (auto simp: async_retry_def Let_def split_beta retry_alive_def retry_defs)
next
  case (SourceCompleted i)
  with assms show ?thesis
    by (auto simp: async_retry_def Let_def split_beta retry_alive_def retry_defs)
next
  case SubscribeReturned
  with assms show ?thesis by (auto simp: async_retry_def retry_alive_def split: if_splits)
next
  case RetryTimer
  with assms show ?thesis
    by (auto simp: async_retry_def Let_def split_beta retry_alive_def retry_defs)
next
  case Unsubscribe
  with assms show ?thesis
    by (auto simp: async_retry_def Let_def split_beta retry_alive_def retry_defs)
qed

end

sublocale persistent_policy \<subseteq> alive: guarded_handler "async_retry policy" retry_alive "\<lambda>_. True"
  by unfold_locales (simp_all add: async_alive)

section \<open>Properties\<close>

text \<open>No sequence of source failures, whichever of the three policies is used and whatever the
  timing, ever reaches the subscriber as an error; the timers the operator sets are those of the
  policy: every two seconds, or one second more with each failure up to ten, and none at all for
  the policy that retries right away.\<close>

theorem retry_never_gives_up:
  "pol \<in> {forever, indefiniteEvery2Seconds, backoffTo10SecondsMax} \<Longrightarrow>
     OnError e \<notin> set (outputs (retry_step pol) s evs)
     \<and> (ScheduleRetry ms \<in> set (snd (retry_step pol s ev)) \<longrightarrow>
          pol = indefiniteEvery2Seconds \<and> ms = 2000
          \<or> pol = backoffTo10SecondsMax \<and> ms = min (1000 * Suc (ry_retryCount s)) 10000)"
proof (elim insertE emptyE)
  assume pol: "pol = forever"
  show ?thesis
    using persistent_forever.never_errors [of e s evs] persistent_forever.step_delay [of ms s ev]
    by (auto simp: pol simp del: retry_step.simps)
next
  assume pol: "pol = indefiniteEvery2Seconds"
  show ?thesis
    using persistent_2s.never_errors [of e s evs] persistent_2s.step_delay [of ms s ev]
    unfolding pol by (auto simp: indefiniteEvery2Seconds_def simp del: retry_step.simps)
next
  assume pol: "pol = backoffTo10SecondsMax"
  show ?thesis
    using persistent_backoff.never_errors [of e s evs] persistent_backoff.step_delay [of ms s ev]
    unfolding pol
    by (auto simp: backoffTo10SecondsMax_def Let_def min_def simp del: retry_step.simps split: if_splits)
qed

lemma retry_never_gives_up_witness:
  "OnError (Error ''down'') \<notin> set (outputs (retry_step backoffTo10SecondsMax) async_start
     [SourceNext 0 (7::int), SourceError 0 (Error ''down''), RetryTimer, SubscribeReturned])
   \<and> ScheduleRetry 1000 \<in> set (snd (retry_step backoffTo10SecondsMax async_start (SourceError 0 (Error ''down'') :: int retry_event)))"
  using retry_never_gives_up [of backoffTo10SecondsMax "Error ''down''" async_start]
  by (simp add: async_start_def new_retry_def retry_defs backoffTo10SecondsMax_def)

text \<open>Once the subscriber has disposed or was sent the completion, it is sent nothing more, whatever
  the source and the timers still do.\<close>

theorem retry_silent_when_stopped:
  "ry_stopped s \<Longrightarrow> call \<in> set (outputs (retry_step pol) s evs) \<Longrightarrow> \<not> is_emission call"
  using retry_stopped.run_allowed by blast

lemma retry_silent_when_stopped_witness:
  "\<not> is_emission (SubscribeSource 1 :: int retry_call)"
  by (rule retry_silent_when_stopped [of "fst (retry_step forever
        (fst (retry_step indefiniteEvery2Seconds async_start (SourceError 0 (Error ''down'') :: int retry_event)))
        (Unsubscribe :: int retry_event))" _ forever "[RetryTimer]"])
    (simp_all add: async_start_def new_retry_def retry_defs indefiniteEvery2Seconds_def)

text \<open>C18: over a source that does not emit while it is being subscribed to, a stream that has neither
  completed nor been disposed of always has exactly one thing that keeps it going: one live
  subscription, or one pending retry timer. After that it holds no subscription.\<close>

theorem retry_keeps_going:
  assumes "pol \<in> {forever, indefiniteEvery2Seconds, backoffTo10SecondsMax}"
    and "s = final_state (async_retry pol) async_start evs"
  shows "if ry_stopped s then ry_live s = [] else length (ry_live s) + ry_timers s = 1"
proof -
  have "retry_alive s"
    using assms persistent_forever.alive.run_inv [OF retry_alive_start, of evs]
      persistent_2s.alive.run_inv [OF retry_alive_start, of evs]
      persistent_backoff.alive.run_inv [OF retry_alive_start, of evs] by blast
  then show ?thesis by (auto simp: retry_alive_def)
qed

lemma retry_keeps_going_witness:
  "length (ry_live (final_state (async_retry forever) async_start [SourceNext 0 (1::int), SourceError 0 (Error ''down'')])) = 1"
  using retry_keeps_going [of forever _ "[SourceNext 0 (1::int), SourceError 0 (Error ''down'')]", OF _ refl]
  by (simp add: async_retry_def async_start_def new_retry_def retry_defs forever_def)

text \<open>With the policy that retries right away, a source that fails while it is being subscribed to
  is lost. The inner call of \<open>subscribe\<close> stores the new subscription, and the return of the outer
  one replaces it in the serial disposable: the live retry is disposed of, no timer is pending, and
  the subscriber waits for ever.\<close>

theorem retry_loses_synchronous_failure:
  "let s = final_state (retry_step forever) (fst (new_retry :: _ \<times> int retry_call list))
        [SourceError 0 (Error ''down''), SubscribeReturned, SubscribeReturned :: int retry_event]
   in \<not> ry_stopped s \<and> ry_live s = [] \<and> ry_timers s = 0 \<and> ry_pending s = []"
  by (simp add: new_retry_def retry_defs forever_def Let_def)

end
