(* ===== verification/JsNumber.thy ===== *)
theory JsNumber imports Prelude Complex_Main "HOL-Library.Code_Target_Nat" begin

text \<open>
  The part of JavaScript's number type and number formatting the client uses. A finite
  double is the rational it denotes; \<open>fl\<close> rounds a rational to the nearest double (ties to
  even), so that \<open>fl (x + y)\<close> is the language's \<open>x + y\<close>. \<open>NaN\<close> is a value of its own. The
  infinities and the sign of zero are not modelled: no value the client computes with comes
  near 2 to the 1024, and it never divides by a zero or prints one with a sign.

  \<open>toFixed\<close> follows ECMA-262 for arguments below 10 to the 21 in absolute value: it works
  on the exact value of the double, picks the larger of two nearest decimals and prints it.
\<close>

section \<open>Rounding to a double\<close>

fun bit_length :: "nat \<Rightarrow> nat" where
  "bit_length n = (if n = 0 then 0 else Suc (bit_length (n div 2)))"

declare bit_length.simps [simp del]

definition exponent2 :: "rat \<Rightarrow> int" where
  "exponent2 x =
     (let (p, q) = quotient_of x;
          k = int (bit_length (nat p)) - int (bit_length (nat q))
      in if 2 powi k \<le> x then k else k - 1)"

definition round_half_even :: "rat \<Rightarrow> int" where
  "round_half_even x =
     (let f = \<lfloor>x\<rfloor>; d = x - of_int f
      in if d < 1 / 2 then f else if 1 / 2 < d then f + 1 else if even f then f else f + 1)"

definition fl :: "rat \<Rightarrow> rat" where
  "fl x =
     (if x = 0 then 0
      else let e = max (exponent2 \<bar>x\<bar> - 52) (- 1074)
           in of_int (round_half_even (x / 2 powi e)) * 2 powi e)"

section \<open>Decimal strings\<close>

definition digit_char :: "nat \<Rightarrow> char" where
  "digit_char d = char_of (48 + d)"

definition char_digit :: "char \<Rightarrow> nat" where
  "char_digit c = of_char c - 48"

definition is_digit :: "char \<Rightarrow> bool" where
  "is_digit c \<longleftrightarrow> 48 \<le> (of_char c :: nat) \<and> (of_char c :: nat) \<le> 57"

fun dec_digits :: "nat \<Rightarrow> string" where
  "dec_digits n =
     (if n < 10 then [digit_char n] else dec_digits (n div 10) @ [digit_char (n mod 10)])"

declare dec_digits.simps [simp del]

definition dec_value :: "string \<Rightarrow> nat" where
  "dec_value s = foldl (\<lambda>n c. 10 * n + char_digit c) 0 s"

text \<open>The digits of \<open>n / 10 ^ f\<close> with \<open>f\<close> of them after the point.\<close>

definition padded_digits :: "nat \<Rightarrow> nat \<Rightarrow> string" where
  "padded_digits n f = (let m = dec_digits n in replicate (f + 1 - length m) (CHR ''0'') @ m)"

definition fixed_string :: "nat \<Rightarrow> nat \<Rightarrow> string" where
  "fixed_string n f =
     (let s = padded_digits n f; k = length s - f
      in if f = 0 then s else take k s @ ''.'' @ drop k s)"

definition scaled :: "rat \<Rightarrow> nat \<Rightarrow> nat" where
  "scaled x f = nat \<lfloor>\<bar>x\<bar> * 10 ^ f + 1 / 2\<rfloor>"

definition toFixed :: "rat \<Rightarrow> int \<Rightarrow> string result" where
  "toFixed x f =
     (if f < 0 \<or> 20 < f then Inl (RangeError ''toFixed() digits argument must be between 0 and 20'')
      else Inr ((if x < 0 then ''-'' else '''') @ fixed_string (scaled x (nat f)) (nat f)))"

section \<open>Reading numbers\<close>

datatype jsnum = Num rat | NaN

text \<open>\<open>split\<close> at each point.\<close>

fun split_dot :: "string \<Rightarrow> string list" where
  "split_dot [] = [[]]"
| "split_dot (c # cs) =
     (if c = CHR ''.'' then [] # split_dot cs
      else case split_dot cs of p # ps \<Rightarrow> (c # p) # ps | [] \<Rightarrow> [[c]])"

text \<open>The exact value of an unsigned decimal literal without exponent: digits with at
  most one point among or around them, and at least one digit.\<close>

definition decimal :: "string \<Rightarrow> rat option" where
  "decimal s =
     (case split_dot s of
        [a] \<Rightarrow> if a \<noteq> [] \<and> list_all is_digit a then Some (of_nat (dec_value a)) else None
      | [a, b] \<Rightarrow>
          if a @ b \<noteq> [] \<and> list_all is_digit (a @ b)
          then Some (of_nat (dec_value (a @ b)) / 10 ^ length b) else None
      | _ \<Rightarrow> None)"

text \<open>\<open>Number(s)\<close> for the strings the client reads: empty, or an optionally signed decimal
  literal. Any other string (hexadecimal, exponents, \<open>Infinity\<close>, surrounding blanks) is
  outside the model and reads as \<open>NaN\<close>.\<close>

definition js_Number :: "string \<Rightarrow> jsnum" where
  "js_Number s =
     (if s = '''' then Num 0
      else if hd s = CHR ''-''
        then (case decimal (tl s) of Some x \<Rightarrow> Num (- fl x) | None \<Rightarrow> NaN)
      else (case decimal s of Some x \<Rightarrow> Num (fl x) | None \<Rightarrow> NaN))"

definition js_substring :: "string \<Rightarrow> int \<Rightarrow> int \<Rightarrow> string" where
  "js_substring s i j =
     (let a = min (nat (max i 0)) (length s); b = min (nat (max j 0)) (length s)
      in take (max a b - min a b) (drop (min a b) s))"

definition js_substr :: "string \<Rightarrow> nat \<Rightarrow> nat \<Rightarrow> string" where
  "js_substr s i n = take n (drop i s)"

section \<open>Lemmas: decimal strings\<close>

lemma of_digit_char: "d < 10 \<Longrightarrow> (of_char (digit_char d) :: nat) = 48 + d"
  by (simp add: digit_char_def)

lemma digit_char_simps [simp]:
  assumes "d < 10"
  shows "char_digit (digit_char d) = d"
    and "is_digit (digit_char d)"
    and "digit_char d \<noteq> CHR ''.''"
    and "digit_char d \<noteq> CHR ''-''"
  using assms of_digit_char [OF assms] by (auto simp: char_digit_def is_digit_def)

lemma is_digit_not_dot [simp]: "is_digit c \<Longrightarrow> c \<noteq> CHR ''.''"
  by (auto simp: is_digit_def)

lemma is_digit_zero [simp]: "is_digit (CHR ''0'')" "char_digit (CHR ''0'') = 0"
  by (simp_all add: is_digit_def char_digit_def)

lemma char_digit_le: "is_digit c \<Longrightarrow> char_digit c \<le> 9"
  unfolding is_digit_def char_digit_def by linarith

lemma dec_value_simps [simp]:
  "dec_value [] = 0"
  "dec_value (s @ [c]) = 10 * dec_value s + char_digit c"
  by (simp_all add: dec_value_def)

lemma dec_value_append: "dec_value (s @ t) = dec_value s * 10 ^ length t + dec_value t"
proof (induction t rule: rev_induct)
  case (snoc c t)
  then show ?case
    by (simp flip: append_assoc add: algebra_simps)
qed simp

lemma dec_value_bound: "list_all is_digit s \<Longrightarrow> dec_value s < 10 ^ length s"
proof (induction s rule: rev_induct)
  case (snoc c s)
  then have "dec_value s \<le> 10 ^ length s - 1" "char_digit c \<le> 9"
    by (auto simp: char_digit_le)
  then have "10 * dec_value s + char_digit c \<le> 10 * (10 ^ length s - 1) + 9" by linarith
  also have "\<dots> < 10 ^ length (s @ [c])" by (simp add: algebra_simps)
  finally show ?case by simp
qed simp

lemma dec_value_take_drop:
  assumes "list_all is_digit s"
  shows "dec_value (take k s) = dec_value s div 10 ^ (length s - k)"
    and "dec_value (drop k s) = dec_value s mod 10 ^ (length s - k)"
proof -
  have "dec_value s = dec_value (take k s) * 10 ^ (length s - k) + dec_value (drop k s)"
    using dec_value_append [of "take k s" "drop k s"] by simp
  moreover have "dec_value (drop k s) < 10 ^ (length s - k)"
    using dec_value_bound [of "drop k s"] assms by (simp add: list_all_iff) (metis in_set_dropD)
  ultimately show "dec_value (take k s) = dec_value s div 10 ^ (length s - k)"
    and "dec_value (drop k s) = dec_value s mod 10 ^ (length s - k)"
    by simp_all
qed

lemma dec_value_replicate [simp]: "dec_value (replicate k (CHR ''0'') @ s) = dec_value s"
proof -
  have "dec_value (replicate k (CHR ''0'')) = 0"
    by (induction k) (simp_all flip: replicate_append_same)
  then show ?thesis by (simp add: dec_value_append)
qed

lemma dec_digits_digit: "list_all is_digit (dec_digits n)"
proof (induction n rule: dec_digits.induct)
  case (1 n)
  then show ?case by (subst dec_digits.simps) simp
qed

lemma dec_digits_neq_Nil [simp]: "dec_digits n \<noteq> []"
  by (subst dec_digits.simps) simp

lemma dec_value_digits [simp]: "dec_value (dec_digits n) = n"
proof (induction n rule: dec_digits.induct)
  case (1 n)
  show ?case
  proof (cases "n < 10")
    case True
    then show ?thesis
      using dec_value_simps(2) [of "[]" "digit_char n"] by (subst dec_digits.simps) simp
  next
    case False
    with 1 show ?thesis by (subst dec_digits.simps) simp
  qed
qed

lemma padded_digits_simps [simp]:
  "list_all is_digit (padded_digits n f)"
  "dec_value (padded_digits n f) = n"
  "f < length (padded_digits n f)"
  "\<not> length (padded_digits n f) \<le> f"
  "padded_digits n f \<noteq> []"
  by (simp_all add: padded_digits_def Let_def dec_digits_digit list_all_iff [of _ "replicate _ _"])

lemma split_dot_digits [simp]: "list_all is_digit s \<Longrightarrow> split_dot s = [s]"
  by (induction s) auto

lemma split_dot_append [simp]:
  "list_all is_digit a \<Longrightarrow> split_dot (a @ CHR ''.'' # s) = a # split_dot s"
  by (induction a) auto

lemma list_all_take_drop [simp]:
  "list_all p s \<Longrightarrow> list_all p (take k s)" "list_all p s \<Longrightarrow> list_all p (drop k s)"
  by (auto simp: list_all_iff dest: in_set_takeD in_set_dropD)

text \<open>The text of a fixed-point number splits into its integer digits and its fraction.\<close>

lemma fixed_string_parts:
  assumes "0 < f"
  shows "split_dot (fixed_string n f) =
      [take (length (padded_digits n f) - f) (padded_digits n f),
       drop (length (padded_digits n f) - f) (padded_digits n f)]"
  using assms by (simp add: fixed_string_def Let_def)

lemma fixed_string_split:
  assumes "0 < f"
  obtains w fr where "split_dot (fixed_string n f) = [w, fr]" "length fr = f" "w \<noteq> []"
    "list_all is_digit w" "list_all is_digit fr" "dec_value (w @ fr) = n"
    "fixed_string n f = w @ CHR ''.'' # fr"
proof
  let ?s = "padded_digits n f" and ?k = "length (padded_digits n f) - f"
  have len: "f < length ?s" by simp
  have "length (drop ?k ?s) = length ?s - (length ?s - f)" by simp
  with len show "length (drop ?k ?s) = f" by linarith
  show "take ?k ?s \<noteq> []" by simp
  show "split_dot (fixed_string n f) = [take ?k ?s, drop ?k ?s]"
    using assms by (rule fixed_string_parts)
  show "fixed_string n f = take ?k ?s @ CHR ''.'' # drop ?k ?s"
    using assms by (simp add: fixed_string_def Let_def)
qed simp_all

text \<open>Reading back what \<open>toFixed\<close> printed gives the decimal it chose.\<close>

lemma decimal_fixed_string: "decimal (fixed_string n f) = Some (of_nat n / 10 ^ f)"
proof (cases "f = 0")
  case True
  then show ?thesis by (simp add: decimal_def fixed_string_def Let_def)
next
  case False
  then obtain w fr where "split_dot (fixed_string n f) = [w, fr]" "length fr = f" "w \<noteq> []"
    "list_all is_digit w" "list_all is_digit fr" "dec_value (w @ fr) = n"
    using fixed_string_split by (metis gr0I)
  then show ?thesis by (simp add: decimal_def)
qed

lemma scaled_error:
  "\<bar>of_nat (scaled x f) / 10 ^ f - \<bar>x\<bar>\<bar> \<le> 1 / (2 * 10 ^ f)"
proof -
  let ?y = "\<bar>x\<bar> * 10 ^ f"
  have "0 \<le> \<lfloor>?y + 1 / 2\<rfloor>" by simp
  then have "(of_nat (scaled x f) :: rat) = of_int \<lfloor>?y + 1 / 2\<rfloor>" by (simp add: scaled_def)
  then have "\<bar>of_nat (scaled x f) - ?y\<bar> \<le> 1 / 2" by linarith
  moreover have "of_nat (scaled x f) / 10 ^ f - \<bar>x\<bar> = (of_nat (scaled x f) - ?y) / 10 ^ f"
    by (simp add: field_simps)
  ultimately show ?thesis by (simp add: field_simps)
qed

lemma fixed_string_neq_Nil [simp]: "fixed_string n f \<noteq> []"
  by (simp add: fixed_string_def Let_def)

section \<open>Lemmas: rounding\<close>

lemma p2_less_iff: "(2::rat) powi a < 2 powi b \<longleftrightarrow> a < b"
  using power_int_strict_increasing [of a b "2::rat"] power_int_strict_increasing [of b a "2::rat"]
  by (cases a b rule: linorder_cases) auto

lemma bit_length_bounds:
  "0 < n \<Longrightarrow> 2 ^ (bit_length n - 1) \<le> n \<and> n < 2 ^ bit_length n \<and> 0 < bit_length n"
proof (induction n rule: bit_length.induct)
  case (1 n)
  show ?case
  proof (cases "n = 1")
    case True
    then show ?thesis by (simp add: bit_length.simps)
  next
    case False
    with "1.prems" have half: "0 < n div 2" by simp
    with 1 have ih: "2 ^ (bit_length (n div 2) - 1) \<le> n div 2" "n div 2 < 2 ^ bit_length (n div 2)"
        "0 < bit_length (n div 2)"
      by auto
    moreover have "bit_length n = Suc (bit_length (n div 2))"
      using "1.prems" by (subst bit_length.simps) simp
    moreover have "(2::nat) ^ bit_length (n div 2) = 2 * 2 ^ (bit_length (n div 2) - 1)"
      using ih(3) by (cases "bit_length (n div 2)") simp_all
    ultimately show ?thesis by simp linarith
  qed
qed

lemma exponent2_bounds:
  assumes "0 < x"
  shows "2 powi exponent2 x \<le> x" and "x < 2 powi (exponent2 x + 1)"
proof -
  obtain p q where pq: "quotient_of x = (p, q)" by fastforce
  have q: "0 < q" using pq by (rule quotient_of_denom_pos)
  have x: "x = of_int p / of_int q" using pq by (rule quotient_of_div)
  with assms q have p: "0 < p" by (simp add: zero_less_divide_iff)
  define a b where "a = bit_length (nat p)" and "b = bit_length (nat q)"
  have A: "2 ^ (a - 1) \<le> nat p" "nat p < 2 ^ a" "0 < a"
    and B: "2 ^ (b - 1) \<le> nat q" "nat q < 2 ^ b" "0 < b"
    using bit_length_bounds [of "nat p"] bit_length_bounds [of "nat q"] p q
    by (auto simp: a_def b_def)
  have to_rat: "(of_nat (nat i) :: rat) = of_int i" if "0 < i" for i
    using that by simp
  have lo: "(2::rat) ^ (a - 1) \<le> of_int p" "(of_int p :: rat) < 2 ^ a"
    using A p to_rat [of p] by (metis of_nat_le_iff of_nat_numeral of_nat_power, metis of_nat_less_iff of_nat_numeral of_nat_power)
  have hi: "(2::rat) ^ (b - 1) \<le> of_int q" "(of_int q :: rat) < 2 ^ b"
    using B q to_rat [of q] by (metis of_nat_le_iff of_nat_numeral of_nat_power, metis of_nat_less_iff of_nat_numeral of_nat_power)
  have q': "(0::rat) < of_int q" using q by simp
  define k where "k = int a - int b"
  have pw: "(2::rat) powi (k + 1) = 2 ^ a / 2 ^ (b - 1)" "(2::rat) powi (k - 1) = 2 ^ (a - 1) / 2 ^ b"
    using A(3) B(3) by (auto simp: k_def power_int_diff power_int_add power_diff)
  have up: "x < 2 powi (k + 1)"
    unfolding x pw(1) using lo(2) hi(1) q'
    by (intro frac_less) (use p in auto)
  have dn: "2 powi (k - 1) \<le> x"
    unfolding x pw(2) using lo(1) hi(2) q' by (intro frac_le) (use p in auto)
  have e: "exponent2 x = (if 2 powi k \<le> x then k else k - 1)"
    by (simp add: exponent2_def pq k_def a_def b_def)
  show "2 powi exponent2 x \<le> x" using dn by (simp add: e)
  show "x < 2 powi (exponent2 x + 1)" using up by (simp add: e)
qed

lemma exponent2_unique:
  assumes "2 powi e \<le> x" "x < 2 powi (e + 1)"
  shows "exponent2 x = e"
proof -
  have "0 < (2::rat) powi e" by simp
  with assms have x: "0 < x" by linarith
  have "(2::rat) powi e < 2 powi (exponent2 x + 1)"
    using assms(1) exponent2_bounds(2) [OF x] by linarith
  moreover have "(2::rat) powi exponent2 x < 2 powi (e + 1)"
    using assms(2) exponent2_bounds(1) [OF x] by linarith
  ultimately have "e < exponent2 x + 1" "exponent2 x < e + 1"
    by (auto simp: p2_less_iff)
  then show ?thesis by simp
qed

lemma round_half_even_of_int [simp]: "round_half_even (of_int m) = m"
  by (simp add: round_half_even_def)

lemma round_half_even_error: "\<bar>of_int (round_half_even x) - x\<bar> \<le> 1 / 2"
proof -
  have "of_int \<lfloor>x\<rfloor> \<le> x" "x < of_int \<lfloor>x\<rfloor> + 1" by linarith+
  then show ?thesis by (auto simp: round_half_even_def Let_def abs_le_iff)
qed

text \<open>Rounding leaves every 53-bit multiple of a representable power of two as it is.\<close>

lemma fl_representable:
  assumes "\<bar>m\<bar> < 2 ^ 53" "- 1074 \<le> e"
  shows "fl (of_int m * 2 powi e) = of_int m * 2 powi e"
proof (cases "m = 0")
  case True
  then show ?thesis by (simp add: fl_def)
next
  case False
  define x :: rat where "x = of_int m * 2 powi e"
  have pos: "0 < \<bar>x\<bar>" using False by (simp add: x_def)
  define e' where "e' = max (exponent2 \<bar>x\<bar> - 52) (- 1074)"
  have "\<bar>x\<bar> < 2 powi (e + 53)"
  proof -
    have "(of_int \<bar>m\<bar> :: rat) < 2 ^ 53" using assms(1) by (metis of_int_less_iff of_int_numeral of_int_power)
    then show ?thesis by (simp add: x_def abs_mult power_int_add)
  qed
  with exponent2_bounds(1) [OF pos] have "(2::rat) powi exponent2 \<bar>x\<bar> < 2 powi (e + 53)" by linarith
  then have "exponent2 \<bar>x\<bar> < e + 53" by (simp add: p2_less_iff)
  with assms(2) have "e' \<le> e" by (simp add: e'_def)
  then have "x / 2 powi e' = of_int (m * 2 ^ nat (e - e'))"
    by (simp add: x_def power_int_diff flip: power_int_of_nat)
  then have "of_int (round_half_even (x / 2 powi e')) * 2 powi e' = x / 2 powi e' * 2 powi e'"
    by (metis round_half_even_of_int)
  then show ?thesis using False by (simp add: fl_def Let_def e'_def [symmetric] x_def [symmetric])
qed

lemma fl_of_int [simp]: "\<bar>m\<bar> < 2 ^ 53 \<Longrightarrow> fl (of_int m) = of_int m"
  using fl_representable [of m 0] by simp

text \<open>The rounding error of a normal number is at most half a unit in its last place.\<close>

lemma fl_error:
  assumes "2 powi (- 1022) \<le> \<bar>x\<bar>"
  shows "\<bar>fl x - x\<bar> \<le> \<bar>x\<bar> / 2 ^ 53"
proof -
  have "0 < (2::rat) powi (- 1022)" by simp
  with assms have pos: "0 < \<bar>x\<bar>" by linarith
  define k where "k = exponent2 \<bar>x\<bar>"
  have "(2::rat) powi (- 1022) < 2 powi (k + 1)"
    using assms exponent2_bounds(2) [OF pos] by (simp add: k_def)
  then have k: "- 1022 \<le> k" unfolding p2_less_iff by simp
  define u :: rat where "u = 2 powi (k - 52)"
  have u: "0 < u" by (simp add: u_def)
  have "max (exponent2 \<bar>x\<bar> - 52) (- 1074) = k - 52"
    using k by (simp add: k_def)
  with pos have flx: "fl x = of_int (round_half_even (x / u)) * u"
    by (simp add: fl_def u_def Let_def)
  have "\<bar>fl x - x\<bar> = \<bar>of_int (round_half_even (x / u)) - x / u\<bar> * u"
    using u by (simp add: flx abs_mult_pos left_diff_distrib)
  also have "\<dots> \<le> 1 / 2 * u"
    using round_half_even_error u by (intro mult_right_mono) auto
  also have "\<dots> = 2 powi k / 2 ^ 53" by (simp add: u_def power_int_diff)
  also have "\<dots> \<le> \<bar>x\<bar> / 2 ^ 53"
    using exponent2_bounds(1) [OF pos] by (intro divide_right_mono) (auto simp: k_def)
  finally show ?thesis .
qed

text \<open>Rounding keeps the order of numbers that are not negative.\<close>

lemma round_half_even_mono: "x \<le> y \<Longrightarrow> round_half_even x \<le> round_half_even y"
proof -
  assume xy: "x \<le> y"
  have bounds: "\<lfloor>z\<rfloor> \<le> round_half_even z" "round_half_even z \<le> \<lfloor>z\<rfloor> + 1" for z
    by (simp_all add: round_half_even_def Let_def)
  from xy have "\<lfloor>x\<rfloor> \<le> \<lfloor>y\<rfloor>" by (rule floor_mono)
  then consider "\<lfloor>x\<rfloor> = \<lfloor>y\<rfloor>" | "\<lfloor>x\<rfloor> + 1 \<le> \<lfloor>y\<rfloor>" by linarith
  then show ?thesis
  proof cases
    case 1
    then show ?thesis using xy by (simp add: round_half_even_def Let_def)
  next
    case 2
    then show ?thesis using bounds(2) [of x] bounds(1) [of y] by linarith
  qed
qed

lemma fl_pos: "0 < x \<Longrightarrow> fl x = of_int (round_half_even (x / 2 powi e)) * 2 powi e"
  if "e = max (exponent2 x - 52) (- 1074)"
  using that by (simp add: fl_def Let_def)

lemma fl_mono:
  assumes "0 \<le> x" "x \<le> y"
  shows "fl x \<le> fl y" and "0 \<le> fl y"
proof -
  have nonneg: "0 \<le> fl z" if "0 < z" for z
  proof -
    have "0 \<le> round_half_even (z / 2 powi max (exponent2 z - 52) (- 1074))"
      using round_half_even_mono [of 0 "z / 2 powi max (exponent2 z - 52) (- 1074)"] round_half_even_of_int [of 0] that
      by simp
    then show ?thesis using fl_pos [OF refl that] by simp
  qed
  have zero: "fl 0 = 0" by (simp add: fl_def)
  show "0 \<le> fl y" using assms nonneg [of y] zero by (cases "y = 0") auto
  show "fl x \<le> fl y"
  proof (cases "x = 0")
    case True
    then show ?thesis using \<open>0 \<le> fl y\<close> zero by simp
  next
    case False
    with assms have x: "0 < x" and y: "0 < y" by simp_all
    define e1 e2 where "e1 = max (exponent2 x - 52) (- 1074)" and "e2 = max (exponent2 y - 52) (- 1074)"
    have "(2::rat) powi exponent2 x < 2 powi (exponent2 y + 1)"
      using exponent2_bounds(1) [OF x] exponent2_bounds(2) [OF y] assms(2) by linarith
    then have le: "exponent2 x \<le> exponent2 y" by (simp add: p2_less_iff)
    have flx: "fl x = of_int (round_half_even (x / 2 powi e1)) * 2 powi e1"
      and fly: "fl y = of_int (round_half_even (y / 2 powi e2)) * 2 powi e2"
      using fl_pos [OF e1_def x] fl_pos [OF e2_def y] by simp_all
    show ?thesis
    proof (cases "e1 = e2")
      case True
      have "x / 2 powi e1 \<le> y / 2 powi e1" using assms(2) by (simp add: divide_right_mono)
      then show ?thesis unfolding flx fly True using round_half_even_mono by simp
    next
      case False
      with le have k: "e2 = exponent2 y - 52" "exponent2 x + 1 \<le> exponent2 y" "e1 \<le> exponent2 y"
        by (auto simp: e1_def e2_def max_def split: if_splits)
      define m where "m = nat (exponent2 y - e1)"
      have split: "(2::rat) powi exponent2 y = of_int (2 ^ m) * 2 powi e1"
        using k(3) by (simp add: m_def power_int_add [symmetric] flip: power_int_of_nat)
      have "x \<le> 2 powi exponent2 y"
      proof -
        have "(2::rat) powi (exponent2 x + 1) \<le> 2 powi exponent2 y" using k(2) by (intro power_int_increasing) simp_all
        then show ?thesis using exponent2_bounds(2) [OF x] by linarith
      qed
      then have "x / 2 powi e1 \<le> of_int (2 ^ m)" unfolding split by (simp add: divide_le_eq)
      from round_half_even_mono [OF this] have "round_half_even (x / 2 powi e1) \<le> 2 ^ m"
        by (simp only: round_half_even_of_int)
      then have "(of_int (round_half_even (x / 2 powi e1)) :: rat) \<le> of_int (2 ^ m)" by (simp only: of_int_le_iff)
      then have "fl x \<le> 2 powi exponent2 y" unfolding flx split by (intro mult_right_mono) simp_all
      moreover have "2 powi exponent2 y \<le> fl y"
      proof -
        have top: "(2::rat) powi exponent2 y = of_int (2 ^ 52) * 2 powi e2" by (simp add: k(1) power_int_diff)
        have "of_int (2 ^ 52) \<le> y / 2 powi e2"
          using exponent2_bounds(1) [OF y] unfolding top by (simp add: le_divide_eq)
        from round_half_even_mono [OF this] have "2 ^ 52 \<le> round_half_even (y / 2 powi e2)"
          by (simp only: round_half_even_of_int)
        then have "(of_int (2 ^ 52) :: rat) \<le> of_int (round_half_even (y / 2 powi e2))" by (simp only: of_int_le_iff)
        then show ?thesis unfolding fly top by (intro mult_right_mono) simp_all
      qed
      ultimately show ?thesis by linarith
    qed
  qed
qed

lemma fl_between:
  assumes "0 \<le> x" "x \<le> of_int m" "\<bar>m\<bar> < 2 ^ 53"
  shows "0 \<le> fl x \<and> fl x \<le> of_int m"
  using fl_mono(1) [OF assms(1,2)] fl_mono(2) [of 0 x] assms(1,3) by simp

section \<open>The order sorting uses\<close>

text \<open>Ascending, with \<open>NaN\<close> last.\<close>

instantiation jsnum :: linorder begin

fun less_eq_jsnum :: "jsnum \<Rightarrow> jsnum \<Rightarrow> bool" where
  "less_eq_jsnum x NaN = True"
| "less_eq_jsnum NaN (Num b) = False"
| "less_eq_jsnum (Num a) (Num b) = (a \<le> b)"

definition less_jsnum :: "jsnum \<Rightarrow> jsnum \<Rightarrow> bool" where
  "less_jsnum x y \<longleftrightarrow> x \<le> y \<and> \<not> y \<le> x"

instance
proof
  fix x y z :: jsnum
  show "x < y \<longleftrightarrow> x \<le> y \<and> \<not> y \<le> x" by (simp add: less_jsnum_def)
  show "x \<le> x" by (cases x) simp_all
  show "x \<le> y \<Longrightarrow> y \<le> z \<Longrightarrow> x \<le> z" by (cases x; cases y; cases z) auto
  show "x \<le> y \<Longrightarrow> y \<le> x \<Longrightarrow> x = y" by (cases x; cases y) auto
  show "x \<le> y \<or> y \<le> x" by (cases x; cases y) auto
qed

end

end
