(* ===== verification/JsObject.thy ===== *)
theory JsObject imports Prelude "HOL-Library.AList" begin

text \<open>
  JavaScript objects used as dictionaries: association lists in insertion order, as
  \<open>Object.keys\<close> and \<open>for ... in\<close> enumerate them for keys that are not array indices (service
  types, service instance ids, currency pair symbols and model ids are none). The second
  half states the dictionary contract as a locale and proves once what a sequence of
  stores and deletes leaves behind.
\<close>

section \<open>Objects\<close>

type_synonym 'v object = "(string \<times> 'v) list"

abbreviation obj_get :: "'v object \<Rightarrow> string \<Rightarrow> 'v option" where
  "obj_get ob k \<equiv> map_of ob k"

definition obj_has :: "'v object \<Rightarrow> string \<Rightarrow> bool" where
  "obj_has ob k \<longleftrightarrow> map_of ob k \<noteq> None"

abbreviation obj_set :: "string \<Rightarrow> 'v \<Rightarrow> 'v object \<Rightarrow> 'v object" where
  "obj_set k v ob \<equiv> AList.update k v ob"

abbreviation obj_delete :: "string \<Rightarrow> 'v object \<Rightarrow> 'v object" where
  "obj_delete k ob \<equiv> AList.delete k ob"

definition obj_keys :: "'v object \<Rightarrow> string list" where
  "obj_keys ob = map fst ob"

definition obj_values :: "'v object \<Rightarrow> 'v list" where
  "obj_values ob = map snd ob"

definition obj_ok :: "'v object \<Rightarrow> bool" where
  "obj_ok ob \<longleftrightarrow> distinct (map fst ob)"

lemma obj_get_set: "obj_get (obj_set k v ob) k' = (if k' = k then Some v else obj_get ob k')"
  by (simp add: update_conv')

lemma obj_get_delete: "obj_get (obj_delete k ob) k' = (if k' = k then None else obj_get ob k')"
  by (simp add: delete_conv')

lemma obj_ok_Nil [simp, intro]: "obj_ok []"
  by (simp add: obj_ok_def)

lemma obj_ok_set [simp, intro]: "obj_ok ob \<Longrightarrow> obj_ok (obj_set k v ob)"
  by (simp add: obj_ok_def distinct_update)

lemma obj_ok_delete [simp, intro]: "obj_ok ob \<Longrightarrow> obj_ok (obj_delete k ob)"
  by (simp add: obj_ok_def distinct_delete)

lemma obj_has_set [simp]: "obj_has (obj_set k v ob) k' \<longleftrightarrow> k' = k \<or> obj_has ob k'"
  by (simp add: obj_has_def obj_get_set)

lemma obj_has_delete [simp]: "obj_has (obj_delete k ob) k' \<longleftrightarrow> k' \<noteq> k \<and> obj_has ob k'"
  by (simp add: obj_has_def obj_get_delete)

lemma obj_has_Nil [simp]: "\<not> obj_has [] k"
  by (simp add: obj_has_def)

lemma obj_keys_has: "set (obj_keys ob) = {k. obj_has ob k}"
  by (auto simp: obj_keys_def obj_has_def map_of_eq_None_iff)

lemma obj_values_iff: "obj_ok ob \<Longrightarrow> v \<in> set (obj_values ob) \<longleftrightarrow> (\<exists>k. obj_get ob k = Some v)"
  by (force simp: obj_values_def obj_ok_def)

section \<open>The dictionary contract\<close>

text \<open>One store or delete, as a value, so that a sequence of them is a list.\<close>

datatype ('k, 'v) dict_op = Store 'k 'v | Delete 'k

fun dict_op_key :: "('k, 'v) dict_op \<Rightarrow> 'k" where
  "dict_op_key (Store k v) = k"
| "dict_op_key (Delete k) = k"

fun dict_op_value :: "('k, 'v) dict_op \<Rightarrow> 'v option" where
  "dict_op_value (Store k v) = Some v"
| "dict_op_value (Delete k) = None"

locale dictionary =
  fixes lookup :: "'d \<Rightarrow> 'k \<Rightarrow> 'v option"
    and store :: "'k \<Rightarrow> 'v \<Rightarrow> 'd \<Rightarrow> 'd"
    and delete :: "'k \<Rightarrow> 'd \<Rightarrow> 'd"
    and invar :: "'d \<Rightarrow> bool"
  assumes lookup_store: "invar d \<Longrightarrow> lookup (store k v d) = (lookup d)(k := Some v)"
    and lookup_delete: "invar d \<Longrightarrow> lookup (delete k d) = (lookup d)(k := None)"
    and invar_store: "invar d \<Longrightarrow> invar (store k v d)"
    and invar_delete: "invar d \<Longrightarrow> invar (delete k d)"
begin

lemmas laws = lookup_store lookup_delete invar_store invar_delete

fun apply_op :: "('k, 'v) dict_op \<Rightarrow> 'd \<Rightarrow> 'd" where
  "apply_op (Store k v) d = store k v d"
| "apply_op (Delete k) d = delete k d"

lemma invar_ops: "invar d \<Longrightarrow> invar (fold apply_op ops d)"
proof (induction ops arbitrary: d)
  case (Cons x ops)
  then show ?case by (cases x) (simp_all add: laws)
qed simp

lemma lookup_op: "invar d \<Longrightarrow> lookup (apply_op x d) = (lookup d)(dict_op_key x := dict_op_value x)"
  by (cases x) (simp_all add: laws)

text \<open>The last operation on a key decides what a lookup returns.\<close>

lemma lookup_ops:
  "invar d \<Longrightarrow> lookup (fold apply_op ops d) k =
     (case find (\<lambda>x. dict_op_key x = k) (rev ops) of
        None \<Rightarrow> lookup d k | Some x \<Rightarrow> dict_op_value x)"
proof (induction ops rule: rev_induct)
  case (snoc x ops)
  then have "lookup (apply_op x (fold apply_op ops d)) k =
      ((lookup (fold apply_op ops d))(dict_op_key x := dict_op_value x)) k"
    by (simp add: lookup_op invar_ops)
  with snoc show ?case by simp
qed simp

lemma dom_ops:
  "invar d \<Longrightarrow> dom (lookup (fold apply_op ops d)) \<subseteq> dom (lookup d) \<union> dict_op_key ` set ops"
proof (induction ops arbitrary: d)
  case (Cons x ops)
  then have "dom (lookup (fold apply_op ops (apply_op x d)))
      \<subseteq> dom (lookup (apply_op x d)) \<union> dict_op_key ` set ops"
    using invar_ops [of d "[x]"] by simp
  with Cons.prems show ?case by (auto simp: lookup_op split: if_splits)
qed simp

end

interpretation obj: dictionary "map_of :: 'v object \<Rightarrow> string \<Rightarrow> 'v option"
    AList.update AList.delete obj_ok
  by unfold_locales (auto simp: update_conv' delete_conv' fun_eq_iff)

end
