(* ===== verification/Domain.thy ===== *)
theory Domain imports JsNumber JsObject begin

text \<open>
  The value classes of \<open>services/model\<close>: enumerations with their wire names, and one record per
  class with a field per getter. Class instances that the code only compares by identity with
  a static member (\<open>Direction.Buy\<close>, \<open>TradeStatus.Done\<close>, ...) are datatypes.

  Numbers that arrive as JSON are finite doubles and are rationals here; positions, precisions,
  ids and timestamps are integers. A \<open>Date\<close> is its time value in milliseconds, \<open>None\<close> for an invalid
  date; \<open>new Date\<close> on the backend's date strings is a parameter where it is used, because how a
  string that is not in the ISO format is read is up to the implementation.
\<close>

section \<open>Enumerations\<close>

datatype update_type = Added | Removed

fun update_type_name :: "update_type \<Rightarrow> string" where
  "update_type_name Added = ''Added''"
| "update_type_name Removed = ''Removed''"

datatype direction = Buy | Sell

fun direction_name :: "direction \<Rightarrow> string" where
  "direction_name Buy = ''Buy''"
| "direction_name Sell = ''Sell''"

datatype trade_status = Pending | Done | Rejected

fun trade_status_name :: "trade_status \<Rightarrow> string" where
  "trade_status_name Pending = ''Pending''"
| "trade_status_name Done = ''Done''"
| "trade_status_name Rejected = ''Rejected''"

datatype price_movement = NoMovement | Up | Down

fun price_movement_name :: "price_movement \<Rightarrow> string" where
  "price_movement_name NoMovement = ''None''"
| "price_movement_name Up = ''Up''"
| "price_movement_name Down = ''Down''"

datatype connection_type = ConnectionUnknown | WebSocket | LongPolling

fun connection_type_text :: "connection_type \<Rightarrow> string" where
  "connection_type_text ConnectionUnknown = ''''"
| "connection_type_text WebSocket = ''web socket''"
| "connection_type_text LongPolling = ''long polling''"

datatype application_status = AppUnknown | Healthy | Warning | AppDown

fun application_status_text :: "application_status \<Rightarrow> string" where
  "application_status_text AppUnknown = ''Unknown''"
| "application_status_text Healthy = ''Healthy''"
| "application_status_text Warning = ''Warning''"
| "application_status_text AppDown = ''Down''"

text \<open>The keys of the five backend services.\<close>

definition PricingServiceKey :: string where "PricingServiceKey = ''pricing''"
definition ReferenceServiceKey :: string where "ReferenceServiceKey = ''reference''"
definition BlotterServiceKey :: string where "BlotterServiceKey = ''blotter''"
definition ExecutionServiceKey :: string where "ExecutionServiceKey = ''execution''"
definition AnalyticsServiceKey :: string where "AnalyticsServiceKey = ''analytics''"

section \<open>Reference data\<close>

record currency_pair =
  cp_symbol :: string
  cp_ratePrecision :: int
  cp_pipsPosition :: int
  cp_base :: string
  cp_terms :: string
  cp_displayString :: string

definition new_currency_pair :: "string \<Rightarrow> int \<Rightarrow> int \<Rightarrow> currency_pair" where
  "new_currency_pair symbol ratePrecision pipsPosition =
     (let base = js_substr symbol 0 3; terms = js_substr symbol 3 3
      in \<lparr>cp_symbol = symbol, cp_ratePrecision = ratePrecision, cp_pipsPosition = pipsPosition,
          cp_base = base, cp_terms = terms, cp_displayString = base @ ''/'' @ terms\<rparr>)"

record currency_pair_update =
  cpu_updateType :: update_type
  cpu_currencyPair :: currency_pair

record currency_pair_updates =
  cpus_isStateOfTheWorld :: bool
  cpus_isStale :: bool
  cpus_currencyPairUpdates :: "currency_pair_update list"

section \<open>Prices\<close>

record rate =
  rt_rawRate :: rat
  rt_bigFigure :: jsnum
  rt_pips :: jsnum
  rt_pipFraction :: jsnum

text \<open>A rate whose text has no fraction (precision 0) makes the constructor read a property of
  \<open>undefined\<close>.\<close>

definition new_rate :: "rat \<Rightarrow> int \<Rightarrow> int \<Rightarrow> rate result" where
  "new_rate rawRate ratePrecision pipPrecision =
     bind_result (toFixed rawRate ratePrecision) (\<lambda>rateString.
       case split_dot rateString of
         wholeNumber # fractions # _ \<Rightarrow>
           Inr \<lparr>rt_rawRate = rawRate,
                rt_bigFigure = js_Number (wholeNumber @ ''.'' @ js_substring fractions 0 (pipPrecision - 2)),
                rt_pips = js_Number (js_substring fractions (pipPrecision - 2) pipPrecision),
                rt_pipFraction = js_Number (js_substring fractions pipPrecision (pipPrecision + 1))\<rparr>
       | _ \<Rightarrow> Inl (TypeError ''Cannot read property substring of undefined''))"

record spread =
  sp_value :: jsnum
  sp_formattedValue :: string

record spot_price =
  px_symbol :: string
  px_ratePrecision :: int
  px_bid :: rate
  px_ask :: rate
  px_mid :: rate
  px_valueDate :: string
  px_creationTimestamp :: int
  px_priceMovementType :: price_movement
  px_spread :: spread
  px_isTradable :: bool

section \<open>Trades\<close>

type_synonym js_date = "int option"

record trade =
  tr_tradeId :: int
  tr_traderName :: string
  tr_currencyPair :: currency_pair
  tr_notional :: rat
  tr_dealtCurrency :: string
  tr_direction :: direction
  tr_spotRate :: rat
  tr_tradeDate :: js_date
  tr_valueDate :: js_date
  tr_status :: trade_status

record trades_update =
  tu_isStateOfTheWorld :: bool
  tu_isStale :: bool
  tu_trades :: "trade list"

text \<open>\<open>isNew\<close> and \<open>isInFocus\<close> start undefined, which the view treats as false.\<close>

record trade_row =
  row_trade :: trade
  row_isNew :: bool
  row_isInFocus :: bool

definition new_trade_row :: "trade \<Rightarrow> trade_row" where
  "new_trade_row t = \<lparr>row_trade = t, row_isNew = False, row_isInFocus = False\<rparr>"

record execute_trade_request =
  rq_CurrencyPair :: string
  rq_SpotRate :: rat
  rq_Direction :: string
  rq_Notional :: rat
  rq_DealtCurrency :: string

record execute_trade_response =
  rs_trade :: "trade option"
  rs_error :: string
  rs_hasError :: bool

definition response_createForError :: "string \<Rightarrow> execute_trade_response" where
  "response_createForError e = \<lparr>rs_trade = None, rs_error = e, rs_hasError = True\<rparr>"

definition response_create :: "trade \<Rightarrow> execute_trade_response" where
  "response_create t = \<lparr>rs_trade = Some t, rs_error = '''', rs_hasError = False\<rparr>"

section \<open>Positions\<close>

record currency_pair_position =
  pos_symbol :: string
  pos_basePnl :: rat
  pos_baseTradedAmount :: rat
  pos_currencyPair :: currency_pair

record historic_position =
  hp_timestamp :: js_date
  hp_usdPnl :: "rat option"

record position_updates =
  pu_currentPositions :: "currency_pair_position list"
  pu_history :: "historic_position list"

section \<open>Lemmas\<close>

text \<open>The wire names tell the members of an enumeration apart.\<close>

lemma enum_names_inject [simp]:
  "update_type_name a = update_type_name b \<longleftrightarrow> a = b"
  "direction_name d = direction_name d' \<longleftrightarrow> d = d'"
  "trade_status_name s = trade_status_name s' \<longleftrightarrow> s = s'"
  by ((cases a; cases b; simp), (cases d; cases d'; simp), (cases s; cases s'; simp))

lemma new_currency_pair_simps [simp]:
  "cp_symbol (new_currency_pair s r p) = s"
  "cp_ratePrecision (new_currency_pair s r p) = r"
  "cp_pipsPosition (new_currency_pair s r p) = p"
  by (simp_all add: new_currency_pair_def Let_def)

lemma response_simps [simp]:
  "rs_hasError (response_createForError e)"
  "rs_error (response_createForError e) = e"
  "rs_trade (response_createForError e) = None"
  "\<not> rs_hasError (response_create t)"
  "rs_trade (response_create t) = Some t"
  by (simp_all add: response_createForError_def response_create_def)

subsection \<open>The digits of a rate\<close>

lemma js_substring_prefix: "0 \<le> j \<Longrightarrow> js_substring s 0 j = take (nat j) s"
  by (simp add: js_substring_def Let_def min_def)

lemma js_substring_slice:
  "0 \<le> i \<Longrightarrow> i \<le> j \<Longrightarrow> nat j \<le> length s \<Longrightarrow>
     js_substring s i j = take (nat j - nat i) (drop (nat i) s)"
  using nat_mono [of i j] by (simp add: js_substring_def Let_def)

text \<open>The number a string of digits denotes, and that of a string of digits with a point.\<close>

lemma js_Number_digits:
  assumes "s \<noteq> []" "list_all is_digit s"
  shows "js_Number s = Num (fl (of_nat (dec_value s)))"
proof -
  have "hd s \<noteq> CHR ''-''" using assms by (cases s) (auto simp: is_digit_def)
  with assms show ?thesis by (simp add: js_Number_def decimal_def)
qed

lemma js_Number_point:
  assumes "w \<noteq> []" "list_all is_digit w" "list_all is_digit fr"
  shows "js_Number (w @ CHR ''.'' # fr) = Num (fl (of_nat (dec_value (w @ fr)) / 10 ^ length fr))"
proof -
  have "hd w \<noteq> CHR ''-''" using assms by (cases w) (auto simp: is_digit_def)
  with assms show ?thesis by (simp add: js_Number_def decimal_def)
qed

lemma js_Number_small:
  assumes "s \<noteq> []" "list_all is_digit s" "dec_value s < 1000"
  shows "js_Number s = Num (of_nat (dec_value s))"
  using assms fl_of_int [of "int (dec_value s)"] by (simp add: js_Number_digits)

text \<open>Cutting the digits of a number: a prefix is a quotient, a slice of the fraction a quotient
  modulo its width.\<close>

lemma digits_prefix:
  assumes "list_all is_digit (w @ fr)" "k \<le> length fr"
  shows "dec_value (w @ take k fr) = dec_value (w @ fr) div 10 ^ (length fr - k)"
  using dec_value_take_drop(1) [of "w @ fr" "length w + k"] assms by simp

lemma digits_slice:
  assumes "list_all is_digit (w @ fr)" "k + j \<le> length fr"
  shows "dec_value (take j (drop k fr)) = dec_value (w @ fr) div 10 ^ (length fr - k - j) mod 10 ^ j"
proof -
  have "take j (drop k fr) = drop (length w + k) (take (length w + k + j) (w @ fr))"
    by (simp add: drop_take)
  also have "dec_value \<dots> = dec_value (take (length w + k + j) (w @ fr)) mod 10 ^ j"
    using assms by (subst dec_value_take_drop) auto
  finally show ?thesis using digits_prefix [of w fr "k + j"] assms by simp
qed

text \<open>The three parts of a price: for the digits \<open>n\<close> up to the pip fraction, everything above the
  pips, the two pip digits and the digit after them.\<close>

lemma price_digits:
  assumes "list_all is_digit (w @ fr)" "P + 2 < length fr"
  defines "n \<equiv> dec_value (w @ fr) div 10 ^ (length fr - P - 3)"
  shows "dec_value (w @ take P fr) = n div 1000"
    and "dec_value (take 2 (drop P fr)) = n div 10 mod 100"
    and "dec_value (take 1 (drop (P + 2) fr)) = n mod 10"
proof -
  define d where "d = length fr - P - 3"
  have d: "length fr = P + 3 + d" using assms(2) by (simp add: d_def)
  have n: "n = dec_value (w @ fr) div 10 ^ d" by (simp add: n_def d)
  have pow: "(10::nat) ^ (3 + d) = 10 ^ d * 1000" "(10::nat) ^ (1 + d) = 10 ^ d * 10"
    by (simp_all add: power_add)
  have "dec_value (w @ take P fr) = dec_value (w @ fr) div 10 ^ (3 + d)"
    using digits_prefix [OF assms(1), of P] d by simp
  then show "dec_value (w @ take P fr) = n div 1000"
    by (simp only: n pow div_mult2_eq)
  have "dec_value (take 2 (drop P fr)) = dec_value (w @ fr) div 10 ^ (1 + d) mod 10 ^ 2"
    using digits_slice [OF assms(1), of P 2] d by simp
  then show "dec_value (take 2 (drop P fr)) = n div 10 mod 100"
    by (simp only: n pow div_mult2_eq) simp
  show "dec_value (take 1 (drop (P + 2) fr)) = n mod 10"
    using digits_slice [OF assms(1), of "P + 2" 1] d by (simp add: n)
qed

lemma new_rate_digits:
  assumes "0 \<le> raw" "2 \<le> p" "p < r" "r \<le> 20"
    and n: "n = scaled raw (nat r) div 10 ^ nat (r - p - 1)"
  shows "new_rate raw r p = Inr
     \<lparr>rt_rawRate = raw,
      rt_bigFigure = Num (fl (of_nat (n div 1000) / 10 ^ nat (p - 2))),
      rt_pips = Num (of_nat (n div 10 mod 100)),
      rt_pipFraction = Num (of_nat (n mod 10))\<rparr>"
proof -
  define P where "P = nat (p - 2)"
  have p: "p = int P + 2" using assms(2) by (simp add: P_def)
  have "0 < nat r" using assms(2,3) by simp
  from fixed_string_split [OF this, of "scaled raw (nat r)"] obtain w fr where parts:
    "split_dot (fixed_string (scaled raw (nat r)) (nat r)) = [w, fr]"
    "length fr = nat r" "w \<noteq> []" "list_all is_digit w" "list_all is_digit fr"
    "dec_value (w @ fr) = scaled raw (nat r)"
    by blast
  have len: "P + 2 < length fr" using assms(3) p parts(2) by simp
  have dig: "list_all is_digit (w @ fr)" using parts by simp
  have "nat (r - p - 1) = length fr - P - 3" using p parts(2) by simp
  with n parts(6) have n': "n = dec_value (w @ fr) div 10 ^ (length fr - P - 3)" by simp
  note digits = price_digits [OF dig len, folded n']
  have sub: "js_substring fr 0 (p - 2) = take P fr" "js_substring fr (p - 2) p = take 2 (drop P fr)"
    "js_substring fr p (p + 1) = take 1 (drop (P + 2) fr)"
    using len by (simp_all add: p js_substring_prefix js_substring_slice nat_add_distrib)
  have "js_Number (w @ CHR ''.'' # take P fr) = Num (fl (of_nat (n div 1000) / 10 ^ P))"
    using js_Number_point [of w "take P fr"] parts len digits(1) by simp
  moreover have "js_Number (take 2 (drop P fr)) = Num (of_nat (n div 10 mod 100))"
    using js_Number_small [of "take 2 (drop P fr)"] parts(5) len digits(2) by simp
  moreover have "js_Number (take 1 (drop (P + 2) fr)) = Num (of_nat (n mod 10))"
    using js_Number_small [of "take 1 (drop (P + 2) fr)"] parts(5) len digits(3) by simp
  moreover have "toFixed raw r = Inr (fixed_string (scaled raw (nat r)) (nat r))"
    using assms(1-4) by (simp add: toFixed_def)
  ultimately show ?thesis using parts(1) by (simp add: new_rate_def sub P_def)
qed

end
