(* ===== verification/ReferenceData.thy ===== *)
theory ReferenceData imports Domain begin

text \<open>
  \<open>services/referenceDataService.js\<close> and \<open>services/mappers/referenceDataMapper.js\<close>: the cache of
  currency pairs that every other service reads synchronously. The code keeps the flag
  \<open>hasLoaded\<close> as a property of the same object that holds the pairs by symbol, so the object's
  values are of two kinds here, and a pair whose symbol is \<open>hasLoaded\<close> would overwrite the flag.
  (A pair named like a method of \<open>Object.prototype\<close> is not modelled.)

  The specification of the cache is a partial map from symbols to pairs and a loaded flag; the
  service is shown to implement it, and the contract \<open>pair_source\<close> collects what the mappers of
  the other services rely on.
\<close>

section \<open>The mapper\<close>

record currency_pair_dto =
  cpd_Symbol :: string
  cpd_RatePrecision :: int
  cpd_PipsPosition :: int

record currency_pair_update_dto =
  cpud_UpdateType :: string
  cpud_CurrencyPair :: currency_pair_dto

record currency_pair_updates_dto =
  cpusd_IsStateOfTheWorld :: bool
  cpusd_IsStale :: bool
  cpusd_Updates :: "currency_pair_update_dto list"

definition mapUpdateType :: "string \<Rightarrow> update_type result" where
  "mapUpdateType updateTypeString =
     (if updateTypeString = update_type_name Added then Inr Added
      else if updateTypeString = update_type_name Removed then Inr Removed
      else Inl (Error (''Unknown update type ['' @ updateTypeString @ '']'')))"

definition mapFromCurrencyPairFromDto :: "currency_pair_dto \<Rightarrow> currency_pair" where
  "mapFromCurrencyPairFromDto dto =
     new_currency_pair (cpd_Symbol dto) (cpd_RatePrecision dto) (cpd_PipsPosition dto)"

definition mapUpdatesFromDto :: "currency_pair_update_dto list \<Rightarrow> currency_pair_update list result" where
  "mapUpdatesFromDto dtos =
     map_result (\<lambda>dto. bind_result (mapUpdateType (cpud_UpdateType dto)) (\<lambda>updateType.
       Inr \<lparr>cpu_updateType = updateType,
            cpu_currencyPair = mapFromCurrencyPairFromDto (cpud_CurrencyPair dto)\<rparr>)) dtos"

definition mapCurrencyPairsFromDto :: "currency_pair_updates_dto \<Rightarrow> currency_pair_updates result" where
  "mapCurrencyPairsFromDto dto =
     bind_result (mapUpdatesFromDto (cpusd_Updates dto)) (\<lambda>updates.
       Inr \<lparr>cpus_isStateOfTheWorld = cpusd_IsStateOfTheWorld dto,
            cpus_isStale = cpusd_IsStale dto,
            cpus_currencyPairUpdates = updates\<rparr>)"

section \<open>The service\<close>

datatype cache_entry = Flag bool | Pair currency_pair

text \<open>\<open>rd_stopped\<close> is Rx's rule that an observer gets nothing after an error or a completion.\<close>

record reference_data =
  rd_cache :: "cache_entry object"
  rd_loadCalled :: bool
  rd_stopped :: bool

definition new_reference_data :: reference_data where
  "new_reference_data =
     \<lparr>rd_cache = [(''hasLoaded'', Flag False)], rd_loadCalled = False, rd_stopped = False\<rparr>"

fun entry_truthy :: "cache_entry option \<Rightarrow> bool" where
  "entry_truthy None = False"
| "entry_truthy (Some (Flag b)) = b"
| "entry_truthy (Some (Pair p)) = True"

definition cache_hasLoaded :: "cache_entry object \<Rightarrow> bool" where
  "cache_hasLoaded cache = entry_truthy (obj_get cache ''hasLoaded'')"

definition getCurrencyPair :: "reference_data \<Rightarrow> string \<Rightarrow> cache_entry result" where
  "getCurrencyPair st symbol =
     (if \<not> cache_hasLoaded (rd_cache st)
        then Inl (Error ''Reference data cache hasn't finished loading'')
      else if \<not> obj_has (rd_cache st) symbol
        then Inl (Error (''CurrencyPair with symbol ['' @ symbol @ ''] is not in the cache.''))
      else Inr (the (obj_get (rd_cache st) symbol)))"

fun apply_update :: "currency_pair_update \<Rightarrow> cache_entry object \<Rightarrow> cache_entry object" where
  "apply_update u cache =
     (case cpu_updateType u of
        Added \<Rightarrow> obj_set (cp_symbol (cpu_currencyPair u)) (Pair (cpu_currencyPair u)) cache
      | Removed \<Rightarrow> obj_delete (cp_symbol (cpu_currencyPair u)) cache)"

text \<open>The calls the service makes: on the subject behind \<open>hasLoadedStream\<close>, on the observer of the
  published stream, and the connection of that stream.\<close>

datatype rd_call =
    ConnectStream
  | HasLoadedNext bool
  | HasLoadedCompleted
  | UpdatesNext currency_pair_updates
  | UpdatesError js_error
  | UpdatesCompleted

definition updateCache :: "reference_data \<Rightarrow> currency_pair_updates \<Rightarrow> reference_data \<times> rd_call list" where
  "updateCache st update =
     (let cache = fold apply_update (cpus_currencyPairUpdates update) (rd_cache st)
      in if \<not> cache_hasLoaded cache \<and> cpus_currencyPairUpdates update \<noteq> []
         then (st\<lparr>rd_cache := obj_set ''hasLoaded'' (Flag True) cache\<rparr>,
               [HasLoadedNext True, HasLoadedCompleted])
         else (st\<lparr>rd_cache := cache\<rparr>, []))"

text \<open>What reaches the service: a call of \<open>load\<close>, and the data, the error or the completion of the
  retried stream operation. An exception of the mapper ends the stream with that error.\<close>

datatype rd_event =
    Load
  | Data currency_pair_updates_dto
  | DataError js_error
  | DataCompleted

fun reference_step :: "(reference_data, rd_event, rd_call) handler" where
  "reference_step st Load =
     (if rd_loadCalled st then (st, []) else (st\<lparr>rd_loadCalled := True\<rparr>, [ConnectStream]))"
| "reference_step st (Data dto) =
     (if rd_stopped st then (st, [])
      else case mapCurrencyPairsFromDto dto of
        Inl e \<Rightarrow> (st\<lparr>rd_stopped := True\<rparr>, [UpdatesError e])
      | Inr updates \<Rightarrow>
          (let (st', calls) = updateCache st updates in (st', calls @ [UpdatesNext updates])))"
| "reference_step st (DataError e) =
     (if rd_stopped st then (st, []) else (st\<lparr>rd_stopped := True\<rparr>, [UpdatesError e]))"
| "reference_step st DataCompleted =
     (if rd_stopped st then (st, []) else (st\<lparr>rd_stopped := True\<rparr>, [UpdatesCompleted]))"

text \<open>What a caller that uses the entry as a pair gets. For the entry \<open>hasLoaded\<close> the code hands the
  boolean itself back; reading a rate's digits with it is a \<open>TypeError\<close>.\<close>

definition pair_lookup :: "reference_data \<Rightarrow> string \<Rightarrow> currency_pair result" where
  "pair_lookup st symbol =
     bind_result (getCurrencyPair st symbol) (\<lambda>entry.
       case entry of Pair p \<Rightarrow> Inr p
       | Flag b \<Rightarrow> Inl (TypeError ''Cannot read property substring of undefined''))"

section \<open>Specification\<close>

definition spec_update :: "currency_pair_update \<Rightarrow> (string \<rightharpoonup> currency_pair) \<Rightarrow> (string \<rightharpoonup> currency_pair)" where
  "spec_update u m =
     (case cpu_updateType u of
        Added \<Rightarrow> m(cp_symbol (cpu_currencyPair u) \<mapsto> cpu_currencyPair u)
      | Removed \<Rightarrow> m(cp_symbol (cpu_currencyPair u) := None))"

definition abs_pairs :: "reference_data \<Rightarrow> string \<rightharpoonup> currency_pair" where
  "abs_pairs st s =
     (if s = ''hasLoaded'' then None
      else case obj_get (rd_cache st) s of Some (Pair p) \<Rightarrow> Some p | _ \<Rightarrow> None)"

definition spec_lookup :: "bool \<Rightarrow> (string \<rightharpoonup> currency_pair) \<Rightarrow> string \<Rightarrow> currency_pair result" where
  "spec_lookup loaded m s =
     (if \<not> loaded then Inl (Error ''Reference data cache hasn't finished loading'')
      else case m s of
        None \<Rightarrow> Inl (Error (''CurrencyPair with symbol ['' @ s @ ''] is not in the cache.''))
      | Some p \<Rightarrow> Inr p)"

text \<open>Updates that do not touch the reserved property, and the shape of the cache they keep.\<close>

definition plain_updates :: "currency_pair_updates \<Rightarrow> bool" where
  "plain_updates us \<longleftrightarrow>
     (\<forall>u \<in> set (cpus_currencyPairUpdates us). cp_symbol (cpu_currencyPair u) \<noteq> ''hasLoaded'')"

definition reference_ok :: "reference_data \<Rightarrow> bool" where
  "reference_ok st \<longleftrightarrow>
     obj_ok (rd_cache st)
     \<and> (\<exists>b. obj_get (rd_cache st) ''hasLoaded'' = Some (Flag b))
     \<and> (\<forall>s e. s \<noteq> ''hasLoaded'' \<longrightarrow> obj_get (rd_cache st) s = Some e \<longrightarrow>
           (\<exists>p. e = Pair p \<and> cp_symbol p = s))"

section \<open>The service implements the specification\<close>

lemma reference_ok_new [simp]: "reference_ok new_reference_data"
  by (auto simp: reference_ok_def new_reference_data_def obj_ok_def)

lemma cache_hasLoaded_update:
  "cp_symbol (cpu_currencyPair u) \<noteq> ''hasLoaded'' \<Longrightarrow>
     cache_hasLoaded (apply_update u cache) = cache_hasLoaded cache"
  by (auto simp: cache_hasLoaded_def obj_get_set obj_get_delete split: update_type.split)

lemma cache_hasLoaded_updates:
  "\<forall>u \<in> set us. cp_symbol (cpu_currencyPair u) \<noteq> ''hasLoaded'' \<Longrightarrow>
     cache_hasLoaded (fold apply_update us cache) = cache_hasLoaded cache"
  by (induction us arbitrary: cache) (simp_all add: cache_hasLoaded_update del: apply_update.simps)

lemma reference_ok_apply_update:
  assumes "reference_ok st" "cp_symbol (cpu_currencyPair u) \<noteq> ''hasLoaded''"
  shows "reference_ok (st\<lparr>rd_cache := apply_update u (rd_cache st)\<rparr>)"
  using assms by (auto simp: reference_ok_def obj_get_set obj_get_delete split: update_type.split if_splits)

lemma reference_ok_fold:
  assumes "reference_ok st" "\<forall>u \<in> set us. cp_symbol (cpu_currencyPair u) \<noteq> ''hasLoaded''"
  shows "reference_ok (st\<lparr>rd_cache := fold apply_update us (rd_cache st)\<rparr>)"
  using assms
proof (induction us arbitrary: st)
  case (Cons u us)
  from Cons.prems have "reference_ok (st\<lparr>rd_cache := apply_update u (rd_cache st)\<rparr>)"
    using reference_ok_apply_update by simp
  from Cons.IH [OF this] Cons.prems(2) show ?case by simp
qed simp

lemma abs_pairs_apply_update:
  "cp_symbol (cpu_currencyPair u) \<noteq> ''hasLoaded'' \<Longrightarrow>
     abs_pairs (st\<lparr>rd_cache := apply_update u (rd_cache st)\<rparr>) = spec_update u (abs_pairs st)"
  by (auto simp: abs_pairs_def spec_update_def obj_get_set obj_get_delete fun_eq_iff
      split: update_type.split)

lemma abs_pairs_fold:
  assumes "\<forall>u \<in> set us. cp_symbol (cpu_currencyPair u) \<noteq> ''hasLoaded''"
  shows "abs_pairs (st\<lparr>rd_cache := fold apply_update us (rd_cache st)\<rparr>) = fold spec_update us (abs_pairs st)"
  using assms
proof (induction us arbitrary: st)
  case (Cons u us)
  from Cons.IH [of "st\<lparr>rd_cache := apply_update u (rd_cache st)\<rparr>"] Cons.prems show ?case
    by (simp add: abs_pairs_apply_update del: apply_update.simps)
qed simp

abbreviation has_loaded :: "reference_data \<Rightarrow> bool" where
  "has_loaded st \<equiv> cache_hasLoaded (rd_cache st)"

lemma reference_ok_flag:
  "reference_ok st \<Longrightarrow> reference_ok (st\<lparr>rd_cache := obj_set ''hasLoaded'' (Flag b) (rd_cache st)\<rparr>)"
  by (auto simp: reference_ok_def obj_get_set)

lemma abs_pairs_flag [simp]:
  "abs_pairs (st\<lparr>rd_cache := obj_set ''hasLoaded'' v (rd_cache st)\<rparr>) = abs_pairs st"
  by (simp add: abs_pairs_def obj_get_set fun_eq_iff)

text \<open>One batch of updates: the pairs change as the specification's do, and the flag goes up with
  the first batch that is not empty.\<close>

lemma updateCache_refines:
  assumes "reference_ok st" "plain_updates us"
  shows "reference_ok (fst (updateCache st us))"
    and "abs_pairs (fst (updateCache st us)) = fold spec_update (cpus_currencyPairUpdates us) (abs_pairs st)"
    and "has_loaded (fst (updateCache st us)) \<longleftrightarrow> has_loaded st \<or> cpus_currencyPairUpdates us \<noteq> []"
    and "snd (updateCache st us) =
      (if \<not> has_loaded st \<and> cpus_currencyPairUpdates us \<noteq> []
       then [HasLoadedNext True, HasLoadedCompleted] else [])"
proof -
  let ?us = "cpus_currencyPairUpdates us"
  let ?st = "st\<lparr>rd_cache := fold apply_update ?us (rd_cache st)\<rparr>"
  have plain: "\<forall>u \<in> set ?us. cp_symbol (cpu_currencyPair u) \<noteq> ''hasLoaded''"
    using assms(2) by (simp add: plain_updates_def)
  have loaded: "cache_hasLoaded (fold apply_update ?us (rd_cache st)) = has_loaded st"
    using plain by (rule cache_hasLoaded_updates)
  have ok: "reference_ok ?st" using assms(1) plain by (rule reference_ok_fold)
  have abs: "abs_pairs ?st = fold spec_update ?us (abs_pairs st)" using plain by (rule abs_pairs_fold)
  show "reference_ok (fst (updateCache st us))"
    using ok reference_ok_flag [OF ok] by (simp add: updateCache_def Let_def)
  show "abs_pairs (fst (updateCache st us)) = fold spec_update ?us (abs_pairs st)"
    using abs abs_pairs_flag [of _ ?st] by (simp add: updateCache_def Let_def)
  show "has_loaded (fst (updateCache st us)) \<longleftrightarrow> has_loaded st \<or> ?us \<noteq> []"
    by (auto simp: updateCache_def Let_def loaded) (simp_all add: cache_hasLoaded_def obj_get_set)
  show "snd (updateCache st us) =
      (if \<not> has_loaded st \<and> ?us \<noteq> [] then [HasLoadedNext True, HasLoadedCompleted] else [])"
    by (simp add: updateCache_def Let_def loaded)
qed

lemma getCurrencyPair_spec:
  assumes "reference_ok st" "s \<noteq> ''hasLoaded''"
  shows "getCurrencyPair st s = map_sum id Pair (spec_lookup (has_loaded st) (abs_pairs st) s)"
  using assms by (fastforce simp: getCurrencyPair_def spec_lookup_def abs_pairs_def obj_has_def reference_ok_def
      split: option.split cache_entry.split)

lemma pair_lookup_spec:
  assumes "reference_ok st" "s \<noteq> ''hasLoaded''"
  shows "pair_lookup st s = spec_lookup (has_loaded st) (abs_pairs st) s"
  using getCurrencyPair_spec [OF assms]
  by (cases "spec_lookup (has_loaded st) (abs_pairs st) s") (simp_all add: pair_lookup_def)

lemma pair_lookup_reserved:
  "reference_ok st \<Longrightarrow> \<exists>e. pair_lookup st ''hasLoaded'' = Inl e"
  by (auto simp: pair_lookup_def getCurrencyPair_def obj_has_def reference_ok_def)

section \<open>The contract the other services rely on\<close>

text \<open>A source of pairs: what a lookup returns carries the symbol asked for, updates keep the source
  in order, and an update decides the lookups of its own symbol only.\<close>

locale pair_source =
  fixes lookup :: "'s \<Rightarrow> string \<Rightarrow> currency_pair result"
    and update :: "'s \<Rightarrow> currency_pair_updates \<Rightarrow> 's"
    and ok :: "'s \<Rightarrow> bool"
    and fits :: "currency_pair_updates \<Rightarrow> bool"
  assumes lookup_symbol: "ok s \<Longrightarrow> lookup s k = Inr p \<Longrightarrow> cp_symbol p = k"
    and update_ok: "ok s \<Longrightarrow> fits us \<Longrightarrow> ok (update s us)"
    and lookup_added: "ok s \<Longrightarrow> fits us \<Longrightarrow>
      cpus_currencyPairUpdates us = xs @ u # ys \<Longrightarrow> cpu_updateType u = Added \<Longrightarrow>
      cp_symbol (cpu_currencyPair u) = k \<Longrightarrow>
      \<forall>v \<in> set ys. cp_symbol (cpu_currencyPair v) \<noteq> k \<Longrightarrow>
      lookup (update s us) k = Inr (cpu_currencyPair u)"
    and lookup_untouched: "ok s \<Longrightarrow> fits us \<Longrightarrow> lookup s k = Inr p \<Longrightarrow>
      \<forall>v \<in> set (cpus_currencyPairUpdates us). cp_symbol (cpu_currencyPair v) \<noteq> k \<Longrightarrow>
      lookup (update s us) k = Inr p"
begin

text \<open>A pair that was added stays readable while later batches leave its symbol alone.\<close>

lemma updates_ok: "ok s \<Longrightarrow> \<forall>us \<in> set uss. fits us \<Longrightarrow> ok (foldl update s uss)"
  by (induction uss arbitrary: s) (simp_all add: update_ok)

lemma lookup_kept:
  "ok s \<Longrightarrow> \<forall>us \<in> set uss. fits us \<and> (\<forall>v \<in> set (cpus_currencyPairUpdates us). cp_symbol (cpu_currencyPair v) \<noteq> k) \<Longrightarrow>
     lookup s k = Inr p \<Longrightarrow> lookup (foldl update s uss) k = Inr p"
  by (induction uss arbitrary: s) (simp_all add: update_ok lookup_untouched)

end

lemma fold_spec_update_other:
  "\<forall>v \<in> set us. cp_symbol (cpu_currencyPair v) \<noteq> k \<Longrightarrow> fold spec_update us m k = m k"
  by (induction us arbitrary: m) (auto simp: spec_update_def split: update_type.split)

lemma abs_pairs_symbol: "reference_ok st \<Longrightarrow> abs_pairs st k = Some p \<Longrightarrow> cp_symbol p = k"
  by (auto simp: abs_pairs_def reference_ok_def split: if_splits option.splits cache_entry.splits)

lemma pair_lookup_Inr_iff:
  assumes "reference_ok st"
  shows "pair_lookup st k = Inr p \<longleftrightarrow> has_loaded st \<and> abs_pairs st k = Some p"
proof (cases "k = ''hasLoaded''")
  case True
  with pair_lookup_reserved [OF assms] show ?thesis by (auto simp: abs_pairs_def)
next
  case False
  then show ?thesis by (auto simp: pair_lookup_spec [OF assms] spec_lookup_def split: option.splits)
qed

interpretation refdata: pair_source pair_lookup "\<lambda>st us. fst (updateCache st us)" reference_ok plain_updates
proof (unfold_locales, goal_cases)
  case (1 s k p)
  then show ?case using abs_pairs_symbol by (auto simp: pair_lookup_Inr_iff)
next
  case (2 s us)
  then show ?case by (rule updateCache_refines(1))
next
  case (3 s us xs u ys k)
  then have "fold spec_update (cpus_currencyPairUpdates us) (abs_pairs s) k = Some (cpu_currencyPair u)"
    by (simp add: fold_spec_update_other) (simp add: spec_update_def)
  with 3 show ?case using updateCache_refines [OF 3(1,2)] by (simp add: pair_lookup_Inr_iff)
next
  case (4 s us k p)
  then show ?case using updateCache_refines [OF 4(1,2)]
    by (simp add: pair_lookup_Inr_iff fold_spec_update_other)
qed

section \<open>Whole runs\<close>

text \<open>The batches that reach the cache: those before the first error, completion or batch the mapper
  rejects.\<close>

fun delivered_updates :: "rd_event list \<Rightarrow> currency_pair_updates list" where
  "delivered_updates [] = []"
| "delivered_updates (Load # evs) = delivered_updates evs"
| "delivered_updates (Data dto # evs) =
     (case mapCurrencyPairsFromDto dto of
        Inl e \<Rightarrow> [] | Inr us \<Rightarrow> us # delivered_updates evs)"
| "delivered_updates (DataError e # evs) = []"
| "delivered_updates (DataCompleted # evs) = []"

fun is_load_signal :: "rd_call \<Rightarrow> bool" where
  "is_load_signal (HasLoadedNext b) = True"
| "is_load_signal HasLoadedCompleted = True"
| "is_load_signal c = False"

lemma reference_stopped:
  "rd_stopped st \<Longrightarrow> rd_cache (final_state reference_step st evs) = rd_cache st
     \<and> filter is_load_signal (outputs reference_step st evs) = []"
proof (induction evs arbitrary: st)
  case (Cons ev evs)
  have "rd_stopped (fst (reference_step st ev)) \<and> rd_cache (fst (reference_step st ev)) = rd_cache st
      \<and> filter is_load_signal (snd (reference_step st ev)) = []"
    using Cons.prems by (cases ev) simp_all
  with Cons.IH show ?case by auto
qed simp

lemma updateCache_stopped [simp]: "rd_stopped (fst (updateCache st us)) = rd_stopped st"
  by (simp add: updateCache_def Let_def)

lemma reference_run:
  assumes "reference_ok st" "\<not> rd_stopped st"
    and "\<forall>us \<in> set (delivered_updates evs). plain_updates us"
  shows "reference_ok (final_state reference_step st evs)
    \<and> abs_pairs (final_state reference_step st evs) =
        fold spec_update (concat (map cpus_currencyPairUpdates (delivered_updates evs))) (abs_pairs st)
    \<and> (has_loaded (final_state reference_step st evs) \<longleftrightarrow>
        has_loaded st \<or> (\<exists>us \<in> set (delivered_updates evs). cpus_currencyPairUpdates us \<noteq> []))
    \<and> filter is_load_signal (outputs reference_step st evs) =
        (if \<not> has_loaded st \<and> (\<exists>us \<in> set (delivered_updates evs). cpus_currencyPairUpdates us \<noteq> [])
         then [HasLoadedNext True, HasLoadedCompleted] else [])"
    (is "?P st evs")
  using assms
proof (induction evs arbitrary: st)
  case Nil
  then show ?case by simp
next
  case (Cons ev evs)
  have same: ?case if "fst (reference_step st ev) = st\<lparr>rd_loadCalled := b\<rparr>"
    "filter is_load_signal (snd (reference_step st ev)) = []"
    "delivered_updates (ev # evs) = delivered_updates evs" for b
  proof -
    have "reference_ok (st\<lparr>rd_loadCalled := b\<rparr>)" "abs_pairs (st\<lparr>rd_loadCalled := b\<rparr>) = abs_pairs st"
      using Cons.prems(1) by (simp_all add: reference_ok_def abs_pairs_def fun_eq_iff)
    with Cons.IH [of "st\<lparr>rd_loadCalled := b\<rparr>"] Cons.prems that show ?thesis by simp
  qed
  have stop: ?case if "fst (reference_step st ev) = st\<lparr>rd_stopped := True\<rparr>"
    "filter is_load_signal (snd (reference_step st ev)) = []" "delivered_updates (ev # evs) = []"
  proof -
    have "rd_cache (final_state reference_step (st\<lparr>rd_stopped := True\<rparr>) evs) = rd_cache st"
      "filter is_load_signal (outputs reference_step (st\<lparr>rd_stopped := True\<rparr>) evs) = []"
      using reference_stopped [of "st\<lparr>rd_stopped := True\<rparr>" evs] by simp_all
    with that Cons.prems(1) show ?thesis by (simp add: reference_ok_def abs_pairs_def fun_eq_iff)
  qed
  show ?case
  proof (cases ev)
    case Load
    show ?thesis
      by (rule same [of True]) (simp_all add: Load)
  next
    case (Data dto)
    show ?thesis
    proof (cases "mapCurrencyPairsFromDto dto")
      case (Inl e)
      show ?thesis by (rule stop) (use Cons.prems Inl Data in simp_all)
    next
      case (Inr us)
      have "plain_updates us" using Cons.prems(3) Data Inr by simp
      note step = updateCache_refines [OF Cons.prems(1) this]
      have next_state: "fst (reference_step st ev) = fst (updateCache st us)"
        "snd (reference_step st ev) = snd (updateCache st us) @ [UpdatesNext us]"
        using Cons.prems(2) Data Inr by (simp_all add: split_beta Let_def)
      have "?P (fst (updateCache st us)) evs"
        by (rule Cons.IH) (use Cons.prems step Data Inr in simp_all)
      with step next_state Data Inr show ?thesis by auto
    qed
  next
    case (DataError e)
    show ?thesis by (rule stop) (use Cons.prems DataError in simp_all)
  next
    case DataCompleted
    show ?thesis by (rule stop) (use Cons.prems DataCompleted in simp_all)
  qed
qed

lemma new_reference_simps [simp]:
  "\<not> rd_stopped new_reference_data" "\<not> has_loaded new_reference_data" "\<not> rd_loadCalled new_reference_data"
  "abs_pairs new_reference_data = Map.empty"
  by (simp_all add: new_reference_data_def cache_hasLoaded_def abs_pairs_def fun_eq_iff)

lemma load_called_once:
  "length (filter ((=) ConnectStream) (outputs reference_step st evs)) =
     (if \<not> rd_loadCalled st \<and> Load \<in> set evs then 1 else 0)"
proof (induction evs arbitrary: st)
  case (Cons ev evs)
  have "ConnectStream \<notin> set (snd (reference_step st ev))" if "ev \<noteq> Load \<or> rd_loadCalled st"
    using that by (cases ev) (auto simp: updateCache_def Let_def split: sum.splits if_splits)
  moreover have "rd_loadCalled (fst (reference_step st ev)) \<longleftrightarrow> rd_loadCalled st \<or> ev = Load"
    by (cases ev) (auto simp: updateCache_def Let_def split: sum.splits if_splits)
  moreover have "filter ((=) ConnectStream) (snd (reference_step st ev)) =
      (if ev = Load \<and> \<not> rd_loadCalled st then [ConnectStream] else [])"
    using calculation(1) by (cases "ev = Load \<and> \<not> rd_loadCalled st") (auto simp: filter_empty_conv)
  ultimately show ?case using Cons.IH by auto
qed simp

section \<open>Properties\<close>

text \<open>C6: after any sequence of calls and batches, a lookup answers as the specification does: an
  error before the first batch with an update in it, then the pair last added and not removed
  since, or an error that names the symbol. Batches after an error count for nothing.\<close>

theorem reference_data_refines:
  assumes "\<forall>us \<in> set (delivered_updates evs). plain_updates us" "symbol \<noteq> ''hasLoaded''"
  shows "getCurrencyPair (final_state reference_step new_reference_data evs) symbol =
    map_sum id Pair (spec_lookup (\<exists>us \<in> set (delivered_updates evs). cpus_currencyPairUpdates us \<noteq> [])
      (fold spec_update (concat (map cpus_currencyPairUpdates (delivered_updates evs))) Map.empty) symbol)"
  using reference_run [OF reference_ok_new _ assms(1)] getCurrencyPair_spec [OF _ assms(2)] by simp

definition example_updates :: "(string \<times> string) list \<Rightarrow> rd_event" where
  "example_updates us = Data \<lparr>cpusd_IsStateOfTheWorld = False, cpusd_IsStale = False,
     cpusd_Updates = map (\<lambda>(ty, sym). \<lparr>cpud_UpdateType = ty,
       cpud_CurrencyPair = \<lparr>cpd_Symbol = sym, cpd_RatePrecision = 5, cpd_PipsPosition = 4\<rparr>\<rparr>) us\<rparr>"

lemma reference_data_refines_witness:
  "getCurrencyPair (final_state reference_step new_reference_data
       [Load, example_updates [(''Added'', ''EURUSD''), (''Added'', ''GBPUSD'')], example_updates [(''Removed'', ''GBPUSD'')]])
     ''EURUSD'' = Inr (Pair (new_currency_pair ''EURUSD'' 5 4))"
  by (subst reference_data_refines)
    (auto simp: example_updates_def mapCurrencyPairsFromDto_def mapUpdatesFromDto_def mapUpdateType_def
      mapFromCurrencyPairFromDto_def plain_updates_def spec_lookup_def spec_update_def)

text \<open>The stream behind \<open>hasLoadedStream\<close> yields once and completes, exactly when a batch with an
  update in it has arrived, and any number of calls of \<open>load\<close> connects the published stream once.\<close>

theorem reference_data_loads_once:
  assumes "\<forall>us \<in> set (delivered_updates evs). plain_updates us"
  shows "filter is_load_signal (outputs reference_step new_reference_data evs) =
      (if \<exists>us \<in> set (delivered_updates evs). cpus_currencyPairUpdates us \<noteq> []
       then [HasLoadedNext True, HasLoadedCompleted] else [])
    \<and> length (filter ((=) ConnectStream) (outputs reference_step new_reference_data evs)) =
      (if Load \<in> set evs then 1 else 0)"
  using reference_run [OF reference_ok_new _ assms] load_called_once [of new_reference_data evs] by simp

lemma reference_data_loads_once_witness:
  "filter is_load_signal (outputs reference_step new_reference_data
       [Load, example_updates [], example_updates [(''Added'', ''EURUSD'')], Load]) =
     [HasLoadedNext True, HasLoadedCompleted]"
  by (subst reference_data_loads_once [THEN conjunct1])
    (auto simp: example_updates_def mapCurrencyPairsFromDto_def mapUpdatesFromDto_def mapUpdateType_def
      mapFromCurrencyPairFromDto_def plain_updates_def)

end
