(* ===== verification/Mappers.thy ===== *)
theory Mappers imports ReferenceData begin

text \<open>
  \<open>services/mappers\<close>: from the backend's data transfer objects to the classes of
  \<open>services/model\<close>. A mapper's \<open>_referenceDataService.getCurrencyPair\<close> is the argument \<open>lookup\<close> of
  its definitions (\<open>pair_lookup st\<close> for the cache of \<open>ReferenceData\<close>), and \<open>new Date\<close> on the backend's
  date strings the argument \<open>parse_date\<close>. Statements run in the order of the source, so that the
  first exception is the one the caller sees.
\<close>

type_synonym pair_lookup = "string \<Rightarrow> currency_pair result"

section \<open>Prices\<close>

record spot_price_dto =
  pxd_Symbol :: string
  pxd_Bid :: rat
  pxd_Ask :: rat
  pxd_Mid :: rat
  pxd_ValueDate :: string
  pxd_CreationTimestamp :: int

definition getPriceMovementType :: "spot_price_dto option \<Rightarrow> spot_price_dto \<Rightarrow> price_movement" where
  "getPriceMovementType lastPriceDto nextPriceDto =
     (case lastPriceDto of
        None \<Rightarrow> NoMovement
      | Some last_dto \<Rightarrow>
          if pxd_Mid last_dto < pxd_Mid nextPriceDto then Up
          else if pxd_Mid last_dto > pxd_Mid nextPriceDto then Down
          else NoMovement)"

text \<open>\<open>Math.pow\<close> returns the double nearest to the power.\<close>

definition getSpread :: "rat \<Rightarrow> rat \<Rightarrow> currency_pair \<Rightarrow> spread result" where
  "getSpread bid ask currencyPair =
     (let spread = fl (fl (ask - bid) * fl (10 powi cp_pipsPosition currencyPair))
      in bind_result (toFixed spread (cp_ratePrecision currencyPair - cp_pipsPosition currencyPair))
           (\<lambda>toFixedPrecision.
              Inr \<lparr>sp_value = js_Number toFixedPrecision, sp_formattedValue = toFixedPrecision\<rparr>))"

definition mapFromSpotPriceDto ::
    "pair_lookup \<Rightarrow> spot_price_dto option \<Rightarrow> spot_price_dto \<Rightarrow> spot_price result" where
  "mapFromSpotPriceDto lookup lastPriceDto nextPriceDto =
     bind_result (lookup (pxd_Symbol nextPriceDto)) (\<lambda>currencyPair.
     bind_result (new_rate (pxd_Bid nextPriceDto) (cp_ratePrecision currencyPair) (cp_pipsPosition currencyPair)) (\<lambda>bid.
     bind_result (new_rate (pxd_Ask nextPriceDto) (cp_ratePrecision currencyPair) (cp_pipsPosition currencyPair)) (\<lambda>ask.
     bind_result (new_rate (pxd_Mid nextPriceDto) (cp_ratePrecision currencyPair) (cp_pipsPosition currencyPair)) (\<lambda>mid.
     bind_result (getSpread (pxd_Bid nextPriceDto) (pxd_Ask nextPriceDto) currencyPair) (\<lambda>spread.
       Inr \<lparr>px_symbol = pxd_Symbol nextPriceDto,
            px_ratePrecision = cp_ratePrecision currencyPair,
            px_bid = bid, px_ask = ask, px_mid = mid,
            px_valueDate = pxd_ValueDate nextPriceDto,
            px_creationTimestamp = pxd_CreationTimestamp nextPriceDto,
            px_priceMovementType = getPriceMovementType lastPriceDto nextPriceDto,
            px_spread = spread,
            px_isTradable = True\<rparr>)))))"

text \<open>The price as it is sent to the analytics of the OpenFin container.\<close>

record spot_price_message =
  pxm_bid :: rat
  pxm_ask :: rat
  pxm_symbol :: string
  pxm_ratePrecision :: int

definition mapToSpotPriceDto :: "spot_price \<Rightarrow> spot_price_message" where
  "mapToSpotPriceDto spotPrice =
     \<lparr>pxm_bid = rt_rawRate (px_bid spotPrice), pxm_ask = rt_rawRate (px_ask spotPrice),
      pxm_symbol = px_symbol spotPrice, pxm_ratePrecision = px_ratePrecision spotPrice\<rparr>"

section \<open>Trades\<close>

record trade_dto =
  trd_TradeId :: int
  trd_TraderName :: string
  trd_CurrencyPair :: string
  trd_Notional :: rat
  trd_DealtCurrency :: string
  trd_Direction :: string
  trd_SpotRate :: rat
  trd_TradeDate :: string
  trd_ValueDate :: string
  trd_Status :: string

record trades_dto =
  trsd_IsStateOfTheWorld :: bool
  trsd_IsStale :: bool
  trsd_Trades :: "trade_dto list"

definition mapDirectionFromDto :: "string \<Rightarrow> direction result" where
  "mapDirectionFromDto directionDto =
     (if directionDto = direction_name Buy then Inr Buy
      else if directionDto = direction_name Sell then Inr Sell
      else Inl (Error (''Unknown direction '' @ directionDto)))"

definition mapTradeStatusFromDto :: "string \<Rightarrow> trade_status result" where
  "mapTradeStatusFromDto statusDto =
     (if statusDto = trade_status_name Pending then Inr Pending
      else if statusDto = trade_status_name Done then Inr Done
      else if statusDto = trade_status_name Rejected then Inr Rejected
      else Inl (Error (''Unknown trade status '' @ statusDto)))"

definition mapFromTradeDto ::
    "pair_lookup \<Rightarrow> (string \<Rightarrow> js_date) \<Rightarrow> trade_dto \<Rightarrow> trade result" where
  "mapFromTradeDto lookup parse_date tradeDto =
     bind_result (mapDirectionFromDto (trd_Direction tradeDto)) (\<lambda>direction.
     bind_result (mapTradeStatusFromDto (trd_Status tradeDto)) (\<lambda>status.
     bind_result (lookup (trd_CurrencyPair tradeDto)) (\<lambda>currencyPair.
       Inr \<lparr>tr_tradeId = trd_TradeId tradeDto,
            tr_traderName = trd_TraderName tradeDto,
            tr_currencyPair = currencyPair,
            tr_notional = trd_Notional tradeDto,
            tr_dealtCurrency = trd_DealtCurrency tradeDto,
            tr_direction = direction,
            tr_spotRate = trd_SpotRate tradeDto,
            tr_tradeDate = parse_date (trd_TradeDate tradeDto),
            tr_valueDate = parse_date (trd_ValueDate tradeDto),
            tr_status = status\<rparr>)))"

definition mapTradesFromDto ::
    "pair_lookup \<Rightarrow> (string \<Rightarrow> js_date) \<Rightarrow> trades_dto \<Rightarrow> trades_update result" where
  "mapTradesFromDto lookup parse_date dto =
     bind_result (map_result (mapFromTradeDto lookup parse_date) (trsd_Trades dto)) (\<lambda>trades.
       Inr \<lparr>tu_isStateOfTheWorld = trsd_IsStateOfTheWorld dto, tu_isStale = trsd_IsStale dto,
            tu_trades = trades\<rparr>)"

section \<open>Positions\<close>

record position_dto =
  posd_Symbol :: string
  posd_BasePnl :: rat
  posd_BaseTradedAmount :: rat

record historic_position_dto =
  hpd_Timestamp :: string
  hpd_UsdPnl :: "rat option"

record positions_dto =
  pud_CurrentPositions :: "position_dto list"
  pud_History :: "historic_position_dto list"

definition mapPositionsFromDto :: "pair_lookup \<Rightarrow> position_dto list \<Rightarrow> currency_pair_position list result" where
  "mapPositionsFromDto lookup dtos =
     map_result (\<lambda>dto. bind_result (lookup (posd_Symbol dto)) (\<lambda>currencyPair.
       Inr \<lparr>pos_symbol = posd_Symbol dto, pos_basePnl = posd_BasePnl dto,
            pos_baseTradedAmount = posd_BaseTradedAmount dto, pos_currencyPair = currencyPair\<rparr>)) dtos"

definition mapHistoricPositionFromDto ::
    "(string \<Rightarrow> js_date) \<Rightarrow> historic_position_dto list \<Rightarrow> historic_position list" where
  "mapHistoricPositionFromDto parse_date dtos =
     map (\<lambda>dto. \<lparr>hp_timestamp = parse_date (hpd_Timestamp dto), hp_usdPnl = hpd_UsdPnl dto\<rparr>) dtos"

definition mapPositionUpdatesFromDto ::
    "pair_lookup \<Rightarrow> (string \<Rightarrow> js_date) \<Rightarrow> positions_dto \<Rightarrow> position_updates result" where
  "mapPositionUpdatesFromDto lookup parse_date dto =
     bind_result (mapPositionsFromDto lookup (pud_CurrentPositions dto)) (\<lambda>positions.
       Inr \<lparr>pu_currentPositions = positions,
            pu_history = mapHistoricPositionFromDto parse_date (pud_History dto)\<rparr>)"

definition mapPositionToDto :: "currency_pair_position \<Rightarrow> position_dto" where
  "mapPositionToDto ccyPairPosition =
     \<lparr>posd_Symbol = pos_symbol ccyPairPosition, posd_BasePnl = pos_basePnl ccyPairPosition,
      posd_BaseTradedAmount = pos_baseTradedAmount ccyPairPosition\<rparr>"

section \<open>Connection types\<close>

definition connectionTypeMapper_map :: "string \<Rightarrow> connection_type option" where
  "connectionTypeMapper_map type =
     obj_get [(''websocket'', WebSocket), (''longpoll'', LongPolling)] type"

section \<open>Lemmas\<close>

lemma mapDirectionFromDto_iff: "mapDirectionFromDto s = Inr d \<longleftrightarrow> s = direction_name d"
  by (cases d) (auto simp: mapDirectionFromDto_def)

lemma mapTradeStatusFromDto_iff: "mapTradeStatusFromDto s = Inr t \<longleftrightarrow> s = trade_status_name t"
  by (cases t) (auto simp: mapTradeStatusFromDto_def)

lemma mapUpdateType_iff: "mapUpdateType s = Inr u \<longleftrightarrow> s = update_type_name u"
  by (cases u) (auto simp: mapUpdateType_def)

text \<open>A trade that is mapped carries its DTO's fields, the enumerations' names read back.\<close>

lemma mapFromTradeDto_fields:
  assumes "mapFromTradeDto lookup parse_date dto = Inr t"
  shows "direction_name (tr_direction t) = trd_Direction dto"
    "trade_status_name (tr_status t) = trd_Status dto"
    "lookup (trd_CurrencyPair dto) = Inr (tr_currencyPair t)"
    "tr_tradeId t = trd_TradeId dto" "tr_notional t = trd_Notional dto" "tr_spotRate t = trd_SpotRate dto"
    "tr_dealtCurrency t = trd_DealtCurrency dto"
  using assms
  by (auto simp: mapFromTradeDto_def bind_result_eq_Inr mapDirectionFromDto_iff mapTradeStatusFromDto_iff)

text \<open>A batch of trades is mapped as a whole, in order, or not at all.\<close>

lemma mapTradesFromDto_iff:
  "mapTradesFromDto lookup parse_date dto = Inr u \<longleftrightarrow>
     tu_isStateOfTheWorld u = trsd_IsStateOfTheWorld dto \<and> tu_isStale u = trsd_IsStale dto
     \<and> list_all2 (\<lambda>d t. mapFromTradeDto lookup parse_date d = Inr t) (trsd_Trades dto) (tu_trades u)"
  by (cases u) (auto simp: mapTradesFromDto_def bind_result_eq_Inr map_result_Inr_iff)

text \<open>Positions go out as they came in.\<close>

lemma mapPositions_roundtrip:
  "mapPositionsFromDto lookup dtos = Inr ps \<Longrightarrow> map mapPositionToDto ps = dtos"
proof (induction dtos arbitrary: ps)
  case (Cons d dtos)
  then show ?case
    by (auto simp: mapPositionsFromDto_def mapPositionToDto_def bind_result_eq_Inr)
qed (simp add: mapPositionsFromDto_def)

section \<open>The spread\<close>

text \<open>Scaled by a power of ten up to the magnitudes of quoted prices, the rounding error of one
  operation stays below a thousandth of the last digit.\<close>

lemma tiny: "2 powi (- 1022) \<le> (1 / 10 ^ 30 :: rat)"
proof -
  have "(2::rat) powi (- 1022) \<le> 2 powi (- 100)"
    by (rule order_less_imp_le, subst p2_less_iff) simp
  also have "\<dots> = inverse (2 powi 100)" by (rule power_int_minus)
  also have "\<dots> \<le> 1 / 10 ^ 30" by simp
  finally show ?thesis .
qed

lemma fl_scaled:
  assumes "x = 0 \<or> 1 / 10 ^ 30 \<le> \<bar>x\<bar>" "\<bar>x\<bar> * c \<le> 2 * 10 ^ 12" "0 \<le> c"
  shows "\<bar>fl x * c - x * c\<bar> \<le> 1 / 1000"
proof (cases "x = 0")
  case True
  then show ?thesis by (simp add: fl_def)
next
  case False
  then have "2 powi (- 1022) \<le> \<bar>x\<bar>" using assms(1) tiny by linarith
  from fl_error [OF this] have "\<bar>fl x - x\<bar> * c \<le> \<bar>x\<bar> / 2 ^ 53 * c"
    using assms(3) by (rule mult_right_mono)
  also have "\<dots> = \<bar>x\<bar> * c / 2 ^ 53" by simp
  also have "\<dots> \<le> 2 * 10 ^ 12 / 2 ^ 53" using assms(2) by (rule divide_right_mono) simp
  also have "\<dots> \<le> 1 / 1000" by simp
  finally show ?thesis using assms(3) by (simp add: abs_mult flip: left_diff_distrib)
qed

lemma scaled_lower:
  assumes "1 / 2 \<le> x * (R::rat)" "0 < R" "R \<le> 10 ^ 20"
  shows "0 < x" and "1 / 10 ^ 30 \<le> \<bar>x\<bar>"
proof -
  have "0 < x * R" using assms(1) by linarith
  then show x: "0 < x" using assms(2) by (simp add: zero_less_mult_iff)
  have "x * R \<le> x * 10 ^ 20" using x assms(3) by (intro mult_left_mono) simp_all
  with assms(1) have "1 / 2 \<le> x * 10 ^ 20" by linarith
  then have "1 / 10 ^ 30 \<le> x" using x by simp
  with x show "1 / 10 ^ 30 \<le> \<bar>x\<bar>" by simp
qed

text \<open>For a bid and an ask on the grid of the pair's precision the spread in pips has the exact
  difference as its digits, whatever the three roundings of the computation did.\<close>

lemma spread_value_close:
  assumes "b \<le> a" "a \<le> 10 ^ 12" "p \<le> r" "r \<le> 20"
  defines "X \<equiv> fl (fl (fl (of_nat a / 10 ^ r) - fl (of_nat b / 10 ^ r)) * 10 ^ p)"
  shows "\<bar>X * 10 ^ (r - p) - of_nat (a - b)\<bar> \<le> 1 / 200" and "0 \<le> X"
proof -
  let ?R = "10 ^ r :: rat"
  define A where "A = fl (of_nat a / ?R)"
  define B where "B = fl (of_nat b / ?R)"
  define D where "D = A - B"
  define M where "M = fl D"
  have X: "X = fl (M * 10 ^ p)" unfolding X_def A_def B_def D_def M_def by simp
  have R: "0 < ?R" "?R \<le> 10 ^ 20" using power_increasing [OF assms(4), of "10::rat"] by simp_all
  have grid: "(of_nat n :: rat) / ?R = 0 \<or> 1 / 10 ^ 30 \<le> \<bar>(of_nat n :: rat) / ?R\<bar>" for n
  proof (cases "n = 0")
    case False
    then have "1 \<le> (of_nat n :: rat)" by simp
    with R show ?thesis by (auto simp: field_simps)
  qed simp
  have ab: "(of_nat a :: rat) \<le> 10 ^ 12" "(of_nat b :: rat) \<le> 10 ^ 12"
    using assms(1,2) of_nat_mono [of a "10 ^ 12", where 'a = rat] of_nat_mono [of b "10 ^ 12", where 'a = rat]
    by simp_all
  have A: "\<bar>A * ?R - of_nat a\<bar> \<le> 1 / 1000"
    using fl_scaled [OF grid [of a], of ?R] ab R by (simp add: A_def)
  have B: "\<bar>B * ?R - of_nat b\<bar> \<le> 1 / 1000"
    using fl_scaled [OF grid [of b], of ?R] ab R by (simp add: B_def)
  have diff: "(of_nat (a - b) :: rat) = of_nat a - of_nat b" using assms(1) by simp
  have D: "\<bar>D * ?R - of_nat (a - b)\<bar> \<le> 2 / 1000"
    using A B unfolding D_def diff left_diff_distrib by linarith
  show "\<bar>X * 10 ^ (r - p) - of_nat (a - b)\<bar> \<le> 1 / 200" and "0 \<le> X"
  proof -
    consider "a = b" | "1 \<le> (of_nat (a - b) :: rat)" using assms(1) by (cases "a = b") auto
    then have "\<bar>X * 10 ^ (r - p) - of_nat (a - b)\<bar> \<le> 1 / 200 \<and> 0 \<le> X"
    proof cases
      case 1
      then have "A = B" by (simp add: A_def B_def)
      then have "X = 0" by (simp add: X M_def D_def fl_def)
      with 1 show ?thesis by simp
    next
      case 2
      have small: "(of_nat (a - b) :: rat) \<le> 10 ^ 12" "1 \<le> (10 ^ 12 :: rat)" using ab diff by simp_all
      have "1 / 2 \<le> D * ?R" using 2 D by linarith
      from scaled_lower [OF this R] have D0: "0 < D" "1 / 10 ^ 30 \<le> \<bar>D\<bar>" by simp_all
      have "D * ?R \<le> 2 * 10 ^ 12" using D small by linarith
      then have "\<bar>D\<bar> * ?R \<le> 2 * 10 ^ 12" using D0 by simp
      from fl_scaled [OF disjI2 [OF D0(2)] this] have M: "\<bar>M * ?R - D * ?R\<bar> \<le> 1 / 1000"
        using R by (simp add: M_def)
      have "1 / 2 \<le> M * ?R" using M D 2 by linarith
      from scaled_lower [OF this R] have M1: "0 < M" "1 / 10 ^ 30 \<le> \<bar>M\<bar>" by simp_all
      have "\<bar>M\<bar> * 1 \<le> \<bar>M\<bar> * 10 ^ p" by (intro mult_left_mono) simp_all
      also have "\<dots> = \<bar>M * 10 ^ p\<bar>" by (simp add: abs_mult)
      finally have M0: "0 < M" "1 / 10 ^ 30 \<le> \<bar>M * 10 ^ p\<bar>" using M1 by linarith+
      have pow: "10 ^ p * 10 ^ (r - p) = ?R" using assms(3) by (simp flip: power_add)
      have scale: "M * 10 ^ p * 10 ^ (r - p) = M * ?R" by (simp add: pow mult.assoc)
      have "M * ?R \<le> 2 * 10 ^ 12" using M D small by linarith
      then have "\<bar>M * 10 ^ p\<bar> * 10 ^ (r - p) \<le> 2 * 10 ^ 12"
        using M0(1) by (simp add: abs_mult scale)
      from fl_scaled [OF disjI2 [OF M0(2)] this] have "\<bar>X * 10 ^ (r - p) - M * ?R\<bar> \<le> 1 / 1000"
        by (simp add: X scale)
      then have "\<bar>X * 10 ^ (r - p) - of_nat (a - b)\<bar> \<le> 1 / 200" using M D by linarith
      moreover from this 2 have "0 \<le> X * 10 ^ (r - p)" by linarith
      then have "0 \<le> X" using mult_neg_pos [of X "10 ^ (r - p)"] by fastforce
      ultimately show ?thesis by simp
    qed
    then show "\<bar>X * 10 ^ (r - p) - of_nat (a - b)\<bar> \<le> 1 / 200" and "0 \<le> X" by simp_all
  qed
qed

lemma toFixed_nonneg:
  "0 \<le> x \<Longrightarrow> 0 \<le> f \<Longrightarrow> f \<le> 20 \<Longrightarrow> toFixed x f = Inr (fixed_string (scaled x (nat f)) (nat f))"
  by (simp add: toFixed_def)

lemma js_Number_fixed_string: "js_Number (fixed_string n f) = Num (fl (of_nat n / 10 ^ f))"
proof -
  have "hd (fixed_string n f) \<noteq> CHR ''-''"
  proof (cases "f = 0")
    case True
    then show ?thesis using dec_digits_digit [of n] dec_digits_neq_Nil [of n]
      by (cases "dec_digits n") (auto simp: fixed_string_def padded_digits_def Let_def is_digit_def)
  next
    case False
    then obtain w fr where "w \<noteq> []" "list_all is_digit w" "fixed_string n f = w @ CHR ''.'' # fr"
      using fixed_string_split [of f n] by blast
    then show ?thesis by (cases w) (auto simp: is_digit_def)
  qed
  then show ?thesis by (simp add: js_Number_def decimal_fixed_string)
qed

lemma getSpread_on_grid:
  assumes pair: "cp_pipsPosition c = int p" "cp_ratePrecision c = int r"
    and bounds: "p \<le> 15" "p \<le> r" "r \<le> 20" "b \<le> a" "a \<le> 10 ^ 12"
  shows "getSpread (fl (of_nat b / 10 ^ r)) (fl (of_nat a / 10 ^ r)) c = Inr
    \<lparr>sp_value = Num (fl (of_nat (a - b) / 10 ^ (r - p))),
     sp_formattedValue = fixed_string (a - b) (r - p)\<rparr>"
proof -
  define X where "X = fl (fl (fl (of_nat a / 10 ^ r) - fl (of_nat b / 10 ^ r)) * 10 ^ p)"
  have "(10::int) ^ p < 2 ^ 53"
    using power_increasing [OF bounds(1), of "10::int"] by simp
  then have pow: "fl (10 powi int p) = 10 ^ p" using fl_of_int [of "10 ^ p"] by (simp add: power_int_def)
  have X: "\<bar>X * 10 ^ (r - p) - of_nat (a - b)\<bar> \<le> 1 / 200" "0 \<le> X"
    using spread_value_close [OF bounds(4,5,2,3)] by (simp_all add: X_def)
  have "\<lfloor>\<bar>X\<bar> * 10 ^ (r - p) + 1 / 2\<rfloor> = int (a - b)"
    unfolding abs_of_nonneg [OF X(2)] by (rule floor_unique; use X(1) in \<open>simp only: of_int_of_nat_eq\<close>; linarith)
  then have digits: "scaled X (r - p) = a - b" unfolding scaled_def by simp
  have prec: "cp_ratePrecision c - cp_pipsPosition c = int (r - p)" using pair bounds(2) by simp
  have "toFixed X (int (r - p)) = Inr (fixed_string (a - b) (r - p))"
    using toFixed_nonneg [OF X(2), of "int (r - p)"] bounds(3) digits by simp
  then show ?thesis
    unfolding getSpread_def Let_def prec unfolding pair(1) pow
    by (fold X_def) (simp add: js_Number_fixed_string)
qed

section \<open>Prices and the reference data\<close>

text \<open>Precisions for which the three parts of a rate are where the constructor cuts them.\<close>

definition displayable :: "currency_pair \<Rightarrow> bool" where
  "displayable c \<longleftrightarrow> 2 \<le> cp_pipsPosition c \<and> cp_pipsPosition c < cp_ratePrecision c \<and> cp_ratePrecision c \<le> 20"

lemma getSpread_total: "displayable c \<Longrightarrow> \<exists>s. getSpread bid ask c = Inr s"
  by (simp add: getSpread_def Let_def toFixed_def displayable_def)

lemma new_rate_total:
  assumes "displayable c" "0 \<le> raw"
  shows "\<exists>rt. new_rate raw (cp_ratePrecision c) (cp_pipsPosition c) = Inr rt"
  using assms new_rate_digits [OF assms(2), of "cp_pipsPosition c" "cp_ratePrecision c"]
  by (simp add: displayable_def)

lemma new_rate_raw:
  assumes "new_rate raw r p = Inr rt"
  shows "rt_rawRate rt = raw"
proof -
  from assms obtain s where s: "toFixed raw r = Inr s" by (auto simp: new_rate_def bind_result_eq_Inr)
  show ?thesis
  proof (cases "split_dot s")
    case Nil
    with assms s show ?thesis by (simp add: new_rate_def)
  next
    case (Cons w ps)
    with assms s show ?thesis by (cases ps) (auto simp: new_rate_def)
  qed
qed

lemma mapFromSpotPriceDto_total:
  assumes "lookup (pxd_Symbol dto) = Inr c" "displayable c" "0 \<le> pxd_Bid dto" "0 \<le> pxd_Ask dto" "0 \<le> pxd_Mid dto"
  shows "\<exists>price. mapFromSpotPriceDto lookup last_dto dto = Inr price"
proof -
  obtain bid ask mid where
    "new_rate (pxd_Bid dto) (cp_ratePrecision c) (cp_pipsPosition c) = Inr bid"
    "new_rate (pxd_Ask dto) (cp_ratePrecision c) (cp_pipsPosition c) = Inr ask"
    "new_rate (pxd_Mid dto) (cp_ratePrecision c) (cp_pipsPosition c) = Inr mid"
    using new_rate_total [OF assms(2)] assms(3-5) by meson
  moreover obtain sp where "getSpread (pxd_Bid dto) (pxd_Ask dto) c = Inr sp"
    using getSpread_total [OF assms(2)] by blast
  ultimately show ?thesis using assms(1) by (simp add: mapFromSpotPriceDto_def)
qed

lemma mapFromSpotPriceDto_fields:
  assumes "mapFromSpotPriceDto lookup last_dto dto = Inr price"
  shows "px_symbol price = pxd_Symbol dto" "px_isTradable price"
    "px_priceMovementType price = getPriceMovementType last_dto dto"
    "rt_rawRate (px_bid price) = pxd_Bid dto" "rt_rawRate (px_ask price) = pxd_Ask dto"
    "rt_rawRate (px_mid price) = pxd_Mid dto"
    "\<exists>c. lookup (pxd_Symbol dto) = Inr c \<and> px_ratePrecision price = cp_ratePrecision c
      \<and> new_rate (pxd_Bid dto) (cp_ratePrecision c) (cp_pipsPosition c) = Inr (px_bid price)
      \<and> new_rate (pxd_Ask dto) (cp_ratePrecision c) (cp_pipsPosition c) = Inr (px_ask price)
      \<and> new_rate (pxd_Mid dto) (cp_ratePrecision c) (cp_pipsPosition c) = Inr (px_mid price)
      \<and> getSpread (pxd_Bid dto) (pxd_Ask dto) c = Inr (px_spread price)"
  using assms by (auto simp: mapFromSpotPriceDto_def bind_result_eq_Inr new_rate_raw)

context pair_source begin

text \<open>From the batch that adds a pair on, and while no batch touches its symbol, every price of that
  pair is mapped with the precisions of the pair that was added.\<close>

lemma added_pair_prices:
  assumes "ok s" "fits us" "cpus_currencyPairUpdates us = xs @ u # ys" "cpu_updateType u = Added"
    and "\<forall>v \<in> set ys. cp_symbol (cpu_currencyPair v) \<noteq> cp_symbol (cpu_currencyPair u)"
    and "\<forall>vs \<in> set uss. fits vs \<and> (\<forall>v \<in> set (cpus_currencyPairUpdates vs).
      cp_symbol (cpu_currencyPair v) \<noteq> cp_symbol (cpu_currencyPair u))"
    and "displayable (cpu_currencyPair u)" "pxd_Symbol dto = cp_symbol (cpu_currencyPair u)"
    and "0 \<le> pxd_Bid dto" "0 \<le> pxd_Ask dto" "0 \<le> pxd_Mid dto"
  shows "\<exists>price. mapFromSpotPriceDto (lookup (foldl update s (us # uss))) last_dto dto = Inr price
    \<and> px_ratePrecision price = cp_ratePrecision (cpu_currencyPair u)"
proof -
  have "lookup (update s us) (pxd_Symbol dto) = Inr (cpu_currencyPair u)"
    using lookup_added [OF assms(1-4) refl assms(5)] assms(8) by simp
  then have known: "lookup (foldl update s (us # uss)) (pxd_Symbol dto) = Inr (cpu_currencyPair u)"
    using lookup_kept [OF update_ok [OF assms(1,2)]] assms(6,8) by simp
  from mapFromSpotPriceDto_total [where lookup = "lookup (foldl update s (us # uss))", OF this assms(7,9-11)] obtain price
    where price: "mapFromSpotPriceDto (lookup (foldl update s (us # uss))) last_dto dto = Inr price"
    by blast
  with mapFromSpotPriceDto_fields(7) [OF price] known show ?thesis by fastforce
qed

end

section \<open>Properties\<close>

lemma scaled_on_grid:
  assumes "k \<le> 10 ^ 12" "r \<le> 20"
  shows "scaled (fl (of_nat k / 10 ^ r)) r = k" and "0 \<le> fl (of_nat k / 10 ^ r)"
proof -
  let ?x = "of_nat k / 10 ^ r :: rat"
  have R: "0 < (10::rat) ^ r" "(10::rat) ^ r \<le> 10 ^ 20"
    using power_increasing [OF assms(2), of "10::rat"] by simp_all
  have k: "(of_nat k :: rat) \<le> 10 ^ 12"
    using of_nat_mono [OF assms(1), where 'a = rat] by simp
  have "?x = 0 \<or> 1 / 10 ^ 30 \<le> \<bar>?x\<bar>"
  proof (cases "k = 0")
    case False
    then have "1 \<le> (of_nat k :: rat)" by simp
    with R show ?thesis by (auto simp: field_simps)
  qed simp
  from fl_scaled [OF this, of "10 ^ r"] k have close: "\<bar>fl ?x * 10 ^ r - of_nat k\<bar> \<le> 1 / 1000" by simp
  show pos: "0 \<le> fl ?x"
  proof (cases "k = 0")
    case True
    then show ?thesis by (simp add: fl_def)
  next
    case False
    then have "1 \<le> (of_nat k :: rat)" by simp
    with close have "0 \<le> fl ?x * 10 ^ r" by linarith
    then show ?thesis using mult_neg_pos [of "fl ?x" "10 ^ r"] R(1) by fastforce
  qed
  have "\<lfloor>\<bar>fl ?x\<bar> * 10 ^ r + 1 / 2\<rfloor> = int k"
    unfolding abs_of_nonneg [OF pos] by (rule floor_unique; use close in \<open>simp only: of_int_of_nat_eq\<close>; linarith)
  then show "scaled (fl ?x) r = k" unfolding scaled_def by simp
qed

lemma rate_of_quote:
  assumes "k \<le> 10 ^ 12" "2 \<le> p" "p < r" "r \<le> 20"
  shows "new_rate (fl (of_nat k / 10 ^ r)) (int r) (int p) = Inr
    \<lparr>rt_rawRate = fl (of_nat k / 10 ^ r),
     rt_bigFigure = Num (fl (of_nat (k div 10 ^ (r - p + 2)) / 10 ^ (p - 2))),
     rt_pips = Num (of_nat (k div 10 ^ (r - p) mod 100)),
     rt_pipFraction = Num (of_nat (k div 10 ^ (r - p - 1) mod 10))\<rparr>"
proof -
  have grid: "scaled (fl (of_nat k / 10 ^ r)) (nat (int r)) = k" "0 \<le> fl (of_nat k / 10 ^ r)"
    using scaled_on_grid [OF assms(1,4)] by simp_all
  have nats: "nat (int r - int p - 1) = r - p - 1" "nat (int p - 2) = p - 2" by simp_all
  define d where "d = r - p - 1"
  have d: "r - p + 2 = d + 3" "r - p = d + 1" using assms(3) by (simp_all add: d_def)
  have digits: "k div 10 ^ (r - p + 2) = k div 10 ^ (r - p - 1) div 1000"
    "k div 10 ^ (r - p) = k div 10 ^ (r - p - 1) div 10"
    unfolding d d_def [symmetric] power_add div_mult2_eq by simp_all
  show ?thesis
    unfolding digits
    using new_rate_digits [OF grid(2), of "int p" "int r" "k div 10 ^ (r - p - 1)"] assms(2-4) grid(1)
    by (simp add: nats)
qed

text \<open>C24: a quoted rate is shown digit for digit. For the double nearest to \<open>k / 10 ^ r\<close> the three parts
  are the digits of \<open>k\<close>: all above the pips as the big figure, the two pip digits, and the digit after
  them, whatever rounding the double carries.\<close>

theorem rate_shows_quote:
  assumes "k \<le> 10 ^ 12" "2 \<le> p" "p < r" "r \<le> 20"
  shows "new_rate (fl (of_nat k / 10 ^ r)) (int r) (int p) = Inr
    \<lparr>rt_rawRate = fl (of_nat k / 10 ^ r),
     rt_bigFigure = Num (fl (of_nat (k div 10 ^ (r - p + 2)) / 10 ^ (p - 2))),
     rt_pips = Num (of_nat (k div 10 ^ (r - p) mod 100)),
     rt_pipFraction = Num (of_nat (k div 10 ^ (r - p - 1) mod 10))\<rparr>"
  using assms by (rule rate_of_quote)

lemma rate_shows_quote_witness:
  "new_rate (fl (108643 / 10 ^ 5)) 5 4 = Inr
    \<lparr>rt_rawRate = fl (108643 / 10 ^ 5), rt_bigFigure = Num (fl (108 / 100)),
     rt_pips = Num 64, rt_pipFraction = Num 3\<rparr>"
  using rate_shows_quote [of 108643 4 5] by simp

text \<open>C26: the spread of a quote on the pair's grid is shown exactly, in pips with the remaining digits as
  fractions, although the subtraction and the scaling each round.\<close>

theorem spread_shows_difference:
  assumes "cp_pipsPosition c = int p" "cp_ratePrecision c = int r" "p \<le> 15" "p \<le> r" "r \<le> 20"
    and "b \<le> a" "a \<le> 10 ^ 12"
  shows "getSpread (fl (of_nat b / 10 ^ r)) (fl (of_nat a / 10 ^ r)) c = Inr
    \<lparr>sp_value = Num (fl (of_nat (a - b) / 10 ^ (r - p))),
     sp_formattedValue = fixed_string (a - b) (r - p)\<rparr>"
  using assms by (rule getSpread_on_grid)

lemma spread_shows_difference_witness:
  "getSpread (fl (108643 / 10 ^ 5)) (fl (108659 / 10 ^ 5)) (new_currency_pair ''EURUSD'' 5 4) = Inr
     \<lparr>sp_value = Num (fl (16 / 10)), sp_formattedValue = fixed_string 16 1\<rparr>"
  using spread_shows_difference [of "new_currency_pair ''EURUSD'' 5 4" 4 5 108643 108659] by simp

text \<open>C35: from the batch of reference data that adds a pair on, and until a batch touches its symbol again,
  every price of that pair is mapped, with the precision the reference data gave.\<close>

theorem known_pair_is_priced:
  assumes "reference_ok st" "plain_updates us" "cpus_currencyPairUpdates us = xs @ u # ys" "cpu_updateType u = Added"
    and "\<forall>v \<in> set ys. cp_symbol (cpu_currencyPair v) \<noteq> cp_symbol (cpu_currencyPair u)"
    and "\<forall>vs \<in> set uss. plain_updates vs \<and> (\<forall>v \<in> set (cpus_currencyPairUpdates vs).
      cp_symbol (cpu_currencyPair v) \<noteq> cp_symbol (cpu_currencyPair u))"
    and "displayable (cpu_currencyPair u)" "pxd_Symbol dto = cp_symbol (cpu_currencyPair u)"
    and "0 \<le> pxd_Bid dto" "0 \<le> pxd_Ask dto" "0 \<le> pxd_Mid dto"
  shows "\<exists>price. mapFromSpotPriceDto (pair_lookup (foldl (\<lambda>st us. fst (updateCache st us)) st (us # uss))) last_dto dto = Inr price
    \<and> px_ratePrecision price = cp_ratePrecision (cpu_currencyPair u)"
  using assms by (rule refdata.added_pair_prices)

definition example_batch :: "string \<Rightarrow> currency_pair_updates" where
  "example_batch symbol = \<lparr>cpus_isStateOfTheWorld = False, cpus_isStale = False,
     cpus_currencyPairUpdates = [\<lparr>cpu_updateType = Added, cpu_currencyPair = new_currency_pair symbol 5 4\<rparr>]\<rparr>"

definition example_price :: "string \<Rightarrow> nat \<Rightarrow> spot_price_dto" where
  "example_price symbol mid = \<lparr>pxd_Symbol = symbol, pxd_Bid = fl (of_nat (mid - 1) / 10 ^ 5),
     pxd_Ask = fl (of_nat (mid + 1) / 10 ^ 5), pxd_Mid = fl (of_nat mid / 10 ^ 5),
     pxd_ValueDate = ''2016-05-03'', pxd_CreationTimestamp = 0\<rparr>"

lemma known_pair_is_priced_witness:
  "\<exists>price. mapFromSpotPriceDto (pair_lookup (foldl (\<lambda>st us. fst (updateCache st us)) new_reference_data
       [example_batch ''EURUSD'', example_batch ''GBPUSD''])) None (example_price ''EURUSD'' 108643) = Inr price
    \<and> px_ratePrecision price = 5"
  using known_pair_is_priced [OF reference_ok_new, of "example_batch ''EURUSD''" "[]"
      "\<lparr>cpu_updateType = Added, cpu_currencyPair = new_currency_pair ''EURUSD'' 5 4\<rparr>" "[]"
      "[example_batch ''GBPUSD'']" "example_price ''EURUSD'' 108643" None]
    scaled_on_grid(2) [of 108642 5] scaled_on_grid(2) [of 108644 5] scaled_on_grid(2) [of 108643 5]
  by (simp add: example_batch_def example_price_def plain_updates_def displayable_def)

end
