(* ===== verification/ServiceStreams.thy ===== *)
theory ServiceStreams imports Retry Mappers begin

text \<open>
  The streams of \<open>services/pricingService.js\<close>, \<open>services/blotterService.js\<close> and
  \<open>services/analyticsService.js\<close>: a stream operation of the service client, retried with a policy,
  mapped to the model's classes. One definition gives the shape the three share (retry, an
  accumulator, a mapper that may throw, a reaction to errors that will be retried); the services
  are instances of it.

  Each event comes with the \<open>getCurrencyPair\<close> of the moment, since the reference data changes
  under the streams. A mapper that throws ends the stream with its exception and, by Rx's rule for
  operators, disposes of the source.
\<close>

section \<open>Retry and map\<close>

record 'a pipe_state =
  pipe_retry :: retry_state
  pipe_acc :: 'a
  pipe_stopped :: bool

text \<open>What the observer behind \<open>retryWithPolicy\<close> does with one call of the operator: \<open>f\<close> is the part
  that scans and maps, \<open>cb\<close> the error callback.\<close>

fun pipe_call ::
    "retry_policy \<Rightarrow> ('a \<Rightarrow> 'd \<Rightarrow> ('a \<times> 'b) result) \<Rightarrow> ('a \<Rightarrow> 'b list) \<Rightarrow> ('a pipe_state, 'd retry_call, 'b retry_call) handler" where
  "pipe_call pol f cb s (OnNext d) =
     (if pipe_stopped s then (s, [])
      else case f (pipe_acc s) d of
        Inl e \<Rightarrow>
          (s\<lparr>pipe_retry := fst (retry_detach (pipe_retry s) :: _ \<times> 'b retry_call list), pipe_stopped := True\<rparr>,
           OnError e # snd (retry_detach (pipe_retry s)))
      | Inr (acc, b) \<Rightarrow> (s\<lparr>pipe_acc := acc\<rparr>, [OnNext b]))"
| "pipe_call pol f cb s (OnError e) =
     (if pipe_stopped s then (s, []) else (s\<lparr>pipe_stopped := True\<rparr>, [OnError e]))"
| "pipe_call pol f cb s OnCompleted =
     (if pipe_stopped s then (s, []) else (s\<lparr>pipe_stopped := True\<rparr>, [OnCompleted]))"
| "pipe_call pol f cb s (ErrorCallback e r) =
     (s, if pipe_stopped s then [] else map OnNext (cb (pipe_acc s)))"
| "pipe_call pol f cb s (SubscribeSource i) = (s, [SubscribeSource i])"
| "pipe_call pol f cb s (DisposeSource i) = (s, [DisposeSource i])"
| "pipe_call pol f cb s (ScheduleRetry ms) = (s, [ScheduleRetry ms])"

definition is_unsubscribe :: "'v retry_event \<Rightarrow> bool" where
  "is_unsubscribe ev = (case ev of Unsubscribe \<Rightarrow> True | _ \<Rightarrow> False)"

definition pipe_step ::
    "retry_policy \<Rightarrow> ('a \<Rightarrow> 'd \<Rightarrow> ('a \<times> 'b) result) \<Rightarrow> ('a \<Rightarrow> 'b list) \<Rightarrow> ('a pipe_state, 'd retry_event, 'b retry_call) handler" where
  "pipe_step pol f cb s ev =
     (let (r, calls) = retry_step pol (pipe_retry s) ev
      in run (pipe_call pol f cb) (s\<lparr>pipe_retry := r, pipe_stopped := pipe_stopped s \<or> is_unsubscribe ev\<rparr>) calls)"

definition new_pipe :: "'a \<Rightarrow> 'a pipe_state" where
  "new_pipe acc = \<lparr>pipe_retry = fst (new_retry :: _ \<times> unit retry_call list), pipe_acc = acc, pipe_stopped = False\<rparr>"

section \<open>The price stream\<close>

text \<open>The accumulator of \<open>scan\<close> (the last DTO, across retries) and \<open>lastPrice\<close>.\<close>

type_synonym price_memory = "spot_price_dto option \<times> spot_price option"

definition price_scan ::
    "pair_lookup \<Rightarrow> price_memory \<Rightarrow> spot_price_dto \<Rightarrow> (price_memory \<times> spot_price) result" where
  "price_scan lookup mem nextPriceDto =
     bind_result (mapFromSpotPriceDto lookup (fst mem) nextPriceDto) (\<lambda>price.
       Inr ((Some nextPriceDto, Some price), price))"

text \<open>\<open>willRetry\<close> is the result object of the policy, which is always truthy.\<close>

definition stale_price :: "price_memory \<Rightarrow> spot_price list" where
  "stale_price mem = (case snd mem of None \<Rightarrow> [] | Some lastPrice \<Rightarrow> [lastPrice\<lparr>px_isTradable := False\<rparr>])"

definition getSpotPriceStream ::
    "(price_memory pipe_state, pair_lookup \<times> spot_price_dto retry_event, spot_price retry_call) handler" where
  "getSpotPriceStream s inp =
     pipe_step indefiniteEvery2Seconds (price_scan (fst inp)) stale_price s (snd inp)"

definition new_price_stream :: "price_memory pipe_state" where
  "new_price_stream = new_pipe (None, None)"

section \<open>The trade and position streams\<close>

definition getTradesStream ::
    "(string \<Rightarrow> js_date) \<Rightarrow> (unit pipe_state, pair_lookup \<times> trades_dto retry_event, trades_update retry_call) handler" where
  "getTradesStream parse_date s inp =
     pipe_step backoffTo10SecondsMax
       (\<lambda>u dto. bind_result (mapTradesFromDto (fst inp) parse_date dto) (\<lambda>update. Inr ((), update)))
       (\<lambda>u. []) s (snd inp)"

text \<open>\<open>Guard.isDefined(analyticsRequest, ...)\<close> throws before there is a stream; the request is \<open>None\<close>
  when it is undefined.\<close>

definition getAnalyticsStream ::
    "'r option \<Rightarrow> (string \<Rightarrow> js_date) \<Rightarrow>
     (unit pipe_state, pair_lookup \<times> positions_dto retry_event, position_updates retry_call) handler result" where
  "getAnalyticsStream analyticsRequest parse_date =
     (case analyticsRequest of
        None \<Rightarrow> Inl (Error ''analyticsRequest required'')
      | Some r \<Rightarrow> Inr (\<lambda>s inp.
          pipe_step backoffTo10SecondsMax
            (\<lambda>u dto. bind_result (mapPositionUpdatesFromDto (fst inp) parse_date dto) (\<lambda>update. Inr ((), update)))
            (\<lambda>u. []) s (snd inp)))"

section \<open>Lemmas\<close>

text \<open>The values sent to the subscriber.\<close>

fun emitted :: "'v retry_call list \<Rightarrow> 'v list" where
  "emitted [] = []"
| "emitted (OnNext v # calls) = v # emitted calls"
| "emitted (c # calls) = emitted calls"

lemma emitted_append [simp]: "emitted (xs @ ys) = emitted xs @ emitted ys"
  by (induction xs rule: emitted.induct) simp_all

lemma emitted_map_OnNext [simp]: "emitted (map OnNext vs) = vs"
  by (induction vs) simp_all

lemma emitted_Nil_iff: "emitted calls = [] \<longleftrightarrow> (\<forall>v. OnNext v \<notin> set calls)"
proof (induction calls)
  case (Cons c calls)
  then show ?case by (cases c) auto
qed simp

lemma emitted_silent [simp]:
  "\<forall>out \<in> set calls. \<not> is_emission out \<Longrightarrow> emitted calls = []"
  by (auto simp: emitted_Nil_iff)

text \<open>In the order of the operator's calls, an error is reported to the callback first, and a value is
  alone.\<close>

lemma retry_step_calls:
  "(\<exists>v. snd (retry_step pol s ev) = [OnNext v] \<and> fst (retry_step pol s ev) = s)
   \<or> (\<exists>e r calls. snd (retry_step pol s ev) = ErrorCallback e r # calls
        \<and> (\<forall>v. OnNext v \<notin> set calls) \<and> (\<forall>e r. ErrorCallback e r \<notin> set calls))
   \<or> (\<forall>v. OnNext v \<notin> set (snd (retry_step pol s ev))) \<and> (\<forall>e r. ErrorCallback e r \<notin> set (snd (retry_step pol s ev)))"
proof (cases ev)
  case (SourceNext i v)
  then show ?thesis by simp
next
  case (SourceError i e)
  then show ?thesis by (auto simp: Let_def split_beta retry_defs split: if_splits option.split)
next
  case (SourceCompleted i)
  then show ?thesis by (auto simp: Let_def split_beta retry_defs split: if_splits option.split)
next
  case SubscribeReturned
  then show ?thesis by (auto simp: Let_def split_beta retry_defs split: if_splits option.split list.split)
next
  case RetryTimer
  then show ?thesis by (auto simp: retry_defs)
next
  case Unsubscribe
  then show ?thesis by (auto simp: retry_defs split: option.split)
qed

text \<open>Calls without a value or an error report pass through.\<close>

lemma pipe_call_plain:
  assumes "\<forall>v. c \<noteq> OnNext v" "\<forall>e r. c \<noteq> ErrorCallback e r"
  shows "pipe_acc (fst (pipe_call pol f cb s c)) = pipe_acc s" "emitted (snd (pipe_call pol f cb s c)) = []"
  using assms by (cases c; simp)+

lemma pipe_run_plain:
  assumes "\<forall>v. OnNext v \<notin> set calls" "\<forall>e r. ErrorCallback e r \<notin> set calls"
  shows "pipe_acc (final_state (pipe_call pol f cb) s calls) = pipe_acc s
    \<and> emitted (outputs (pipe_call pol f cb) s calls) = []"
  using assms
proof (induction calls arbitrary: s)
  case (Cons c calls)
  then have "\<forall>v. c \<noteq> OnNext v" "\<forall>e r. c \<noteq> ErrorCallback e r" by auto
  with Cons pipe_call_plain [of c pol f cb s] show ?case by simp
qed simp

text \<open>One event of a stream sends nothing, one mapped value, or what the error callback says.\<close>

lemma pipe_step_cases:
  obtains (Silent) "emitted (snd (pipe_step pol f cb s ev)) = []"
      "pipe_acc (fst (pipe_step pol f cb s ev)) = pipe_acc s"
    | (Mapped) d acc b where "f (pipe_acc s) d = Inr (acc, b)" "emitted (snd (pipe_step pol f cb s ev)) = [b]"
      "pipe_acc (fst (pipe_step pol f cb s ev)) = acc"
    | (Reported) "emitted (snd (pipe_step pol f cb s ev)) = cb (pipe_acc s)"
      "pipe_acc (fst (pipe_step pol f cb s ev)) = pipe_acc s"
proof -
  define r calls where rc: "r = fst (retry_step pol (pipe_retry s) ev)" "calls = snd (retry_step pol (pipe_retry s) ev)"
  define s1 where "s1 = s\<lparr>pipe_retry := r, pipe_stopped := pipe_stopped s \<or> is_unsubscribe ev\<rparr>"
  have s1: "pipe_acc s1 = pipe_acc s" by (simp add: s1_def)
  have step: "pipe_step pol f cb s ev = run (pipe_call pol f cb) s1 calls"
    by (simp add: pipe_step_def rc s1_def split_beta Let_def)
  consider (single) v where "calls = [OnNext v]"
    | (report) e r' cs where "calls = ErrorCallback e r' # cs" "\<forall>v. OnNext v \<notin> set cs" "\<forall>e r. ErrorCallback e r \<notin> set cs"
    | (plain) "\<forall>v. OnNext v \<notin> set calls" "\<forall>e r. ErrorCallback e r \<notin> set calls"
    using retry_step_calls [of pol "pipe_retry s" ev, folded rc] by blast
  then show thesis
  proof cases
    case single
    show ?thesis
    proof (cases "pipe_stopped s1")
      case True
      with single step s1 show ?thesis by (intro Silent) simp_all
    next
      case False
      show ?thesis
      proof (cases "f (pipe_acc s) v")
        case (Inl e)
        have "emitted (snd (retry_detach (pipe_retry s1))) = []"
          by (rule emitted_silent) simp
        with False Inl single step s1 show ?thesis by (intro Silent) simp_all
      next
        case (Inr p)
        with False Inr single step s1 show ?thesis by (cases p) (intro Mapped, simp_all)
      qed
    qed
  next
    case report
    show ?thesis
    proof (cases "pipe_stopped s1")
      case True
      with report step s1 pipe_run_plain [OF report(2,3), of pol f cb s1] show ?thesis
        by (intro Silent) simp_all
    next
      case False
      with report step s1 pipe_run_plain [OF report(2,3), of pol f cb s1] show ?thesis
        by (intro Reported) simp_all
    qed
  next
    case plain
    with pipe_run_plain [OF plain, of pol f cb s1] step s1 show ?thesis by (intro Silent) simp_all
  qed
qed

subsection \<open>Prices over time\<close>

definition movement_between :: "spot_price \<Rightarrow> spot_price \<Rightarrow> price_movement" where
  "movement_between p q =
     (if rt_rawRate (px_mid p) < rt_rawRate (px_mid q) then Up
      else if rt_rawRate (px_mid p) > rt_rawRate (px_mid q) then Down
      else NoMovement)"

text \<open>Every price carries the movement from the one before; the first carries none.\<close>

definition follows :: "spot_price list \<Rightarrow> bool" where
  "follows ts \<longleftrightarrow> (ts \<noteq> [] \<longrightarrow> px_priceMovementType (hd ts) = NoMovement)
     \<and> (\<forall>i. Suc i < length ts \<longrightarrow> px_priceMovementType (ts ! Suc i) = movement_between (ts ! i) (ts ! Suc i))"

lemma follows_snoc:
  assumes "follows ts" "px_priceMovementType p = (if ts = [] then NoMovement else movement_between (last ts) p)"
  shows "follows (ts @ [p])"
proof -
  have "px_priceMovementType ((ts @ [p]) ! Suc i) = movement_between ((ts @ [p]) ! i) ((ts @ [p]) ! Suc i)"
    if "Suc i < length (ts @ [p])" for i
  proof (cases "Suc i = length ts")
    case True
    then have "ts \<noteq> []" "(ts @ [p]) ! i = last ts" by (cases ts rule: rev_cases; auto simp: nth_append)+
    with True assms(2) show ?thesis by (simp add: nth_append)
  next
    case False
    with that assms(1) show ?thesis by (simp add: follows_def nth_append)
  qed
  then show ?thesis using assms by (auto simp: follows_def hd_append)
qed

definition tradable :: "spot_price list \<Rightarrow> spot_price list" where
  "tradable ps = filter px_isTradable ps"

text \<open>A price that is not tradable repeats the last tradable one.\<close>

definition stale_ok :: "spot_price list \<Rightarrow> bool" where
  "stale_ok ps \<longleftrightarrow> (\<forall>i < length ps. \<not> px_isTradable (ps ! i) \<longrightarrow>
     tradable (take i ps) \<noteq> [] \<and> ps ! i = (last (tradable (take i ps)))\<lparr>px_isTradable := False\<rparr>)"

lemma stale_ok_snoc:
  "stale_ok (ps @ [p]) \<longleftrightarrow> stale_ok ps \<and> (\<not> px_isTradable p \<longrightarrow>
     tradable ps \<noteq> [] \<and> p = (last (tradable ps))\<lparr>px_isTradable := False\<rparr>)"
  by (auto simp: stale_ok_def nth_append less_Suc_eq)

definition price_inv :: "price_memory \<Rightarrow> spot_price list \<Rightarrow> bool" where
  "price_inv mem ps \<longleftrightarrow> follows (tradable ps) \<and> stale_ok ps
     \<and> (if tradable ps = [] then mem = (None, None)
        else \<exists>d. mem = (Some d, Some (last (tradable ps))) \<and> rt_rawRate (px_mid (last (tradable ps))) = pxd_Mid d)"

lemma price_inv_mapped:
  assumes inv: "price_inv mem ps" and scan: "price_scan lk mem d = Inr (mem', p)"
  shows "price_inv mem' (ps @ [p])"
proof -
  from scan have m: "mapFromSpotPriceDto lk (fst mem) d = Inr p" "mem' = (Some d, Some p)"
    by (auto simp: price_scan_def bind_result_eq_Inr)
  note f = mapFromSpotPriceDto_fields [OF m(1)]
  have t: "tradable (ps @ [p]) = tradable ps @ [p]" using f(2) by (simp add: tradable_def)
  have "px_priceMovementType p = (if tradable ps = [] then NoMovement else movement_between (last (tradable ps)) p)"
    using inv f(3,6) by (auto simp: price_inv_def getPriceMovementType_def movement_between_def)
  with inv t f m(2) show ?thesis
    by (simp add: price_inv_def follows_snoc stale_ok_snoc)
qed

lemma price_inv_stale:
  assumes inv: "price_inv mem ps"
  shows "price_inv mem (ps @ stale_price mem)"
proof (cases "tradable ps = []")
  case True
  with inv show ?thesis by (simp add: price_inv_def stale_price_def)
next
  case False
  with inv obtain d where d: "mem = (Some d, Some (last (tradable ps)))" by (auto simp: price_inv_def)
  have "tradable (ps @ stale_price mem) = tradable ps" by (simp add: d stale_price_def tradable_def)
  with inv False show ?thesis by (auto simp: price_inv_def d stale_price_def stale_ok_snoc)
qed

lemma price_inv_step:
  assumes "price_inv (pipe_acc s) ps"
  shows "price_inv (pipe_acc (fst (getSpotPriceStream s inp))) (ps @ emitted (snd (getSpotPriceStream s inp)))"
proof (cases rule: pipe_step_cases [of indefiniteEvery2Seconds "price_scan (fst inp)" stale_price s "snd inp"])
  case Silent
  with assms show ?thesis by (simp add: getSpotPriceStream_def)
next
  case (Mapped d acc b)
  with price_inv_mapped [OF assms Mapped(1)] show ?thesis by (simp add: getSpotPriceStream_def)
next
  case Reported
  with price_inv_stale [OF assms] show ?thesis by (simp add: getSpotPriceStream_def)
qed

lemma price_inv_run:
  "price_inv (pipe_acc s) ps \<Longrightarrow>
     price_inv (pipe_acc (final_state getSpotPriceStream s inps)) (ps @ emitted (outputs getSpotPriceStream s inps))"
proof (induction inps arbitrary: s ps)
  case (Cons inp inps)
  from Cons.IH [OF price_inv_step [OF Cons.prems]] show ?case by simp
qed simp

lemma price_inv_start: "price_inv (pipe_acc new_price_stream) []"
  by (simp add: price_inv_def new_price_stream_def new_pipe_def tradable_def follows_def stale_ok_def)

section \<open>Properties\<close>

text \<open>C27: over any run of the price stream, reconnections and changes of the reference data included,
  every tradable price shows the movement of its mid against the tradable price sent before it, and
  the first shows none.\<close>

theorem price_movements:
  assumes "ts = tradable (emitted (outputs getSpotPriceStream new_price_stream inps))" "i < length ts"
  shows "px_priceMovementType (ts ! i) = (if i = 0 then NoMovement else movement_between (ts ! (i - 1)) (ts ! i))"
proof -
  have "follows ts" using price_inv_run [OF price_inv_start, of inps] assms(1) by (simp add: price_inv_def)
  with assms(2) show ?thesis by (cases i) (auto simp: follows_def hd_conv_nth)
qed

definition example_lookup :: pair_lookup where
  "example_lookup s = Inr (new_currency_pair s 5 4)"

lemma example_scan:
  assumes "0 < m" "m < 10 ^ 11"
  shows "\<exists>price. price_scan example_lookup mem (example_price s m) = Inr ((Some (example_price s m), Some price), price)
    \<and> px_isTradable price"
proof -
  have "m - 1 \<le> 10 ^ 12" "m + 1 \<le> 10 ^ 12" "m \<le> 10 ^ 12" using assms by simp_all
  then have "0 \<le> pxd_Bid (example_price s m)" "0 \<le> pxd_Ask (example_price s m)" "0 \<le> pxd_Mid (example_price s m)"
    using scaled_on_grid(2) [of "m - 1" 5] scaled_on_grid(2) [of "m + 1" 5] scaled_on_grid(2) [of m 5]
    by (simp_all add: example_price_def)
  with mapFromSpotPriceDto_total [of example_lookup "example_price s m" "new_currency_pair s 5 4" "fst mem"]
  obtain price where "mapFromSpotPriceDto example_lookup (fst mem) (example_price s m) = Inr price"
    by (auto simp: example_lookup_def displayable_def example_price_def)
  with mapFromSpotPriceDto_fields(2) [OF this] show ?thesis by (simp add: price_scan_def)
qed

definition example_ticks :: "(pair_lookup \<times> spot_price_dto retry_event) list" where
  "example_ticks = map (\<lambda>m. (example_lookup, SourceNext 0 (example_price ''EURUSD'' m))) [100, 101]"

lemma new_price_stream_retry [simp]:
  "ry_live (pipe_retry new_price_stream) = [0]" "\<not> ry_stopped (pipe_retry new_price_stream)"
  "\<not> ry_isDisposed (pipe_retry new_price_stream)" "\<not> pipe_stopped new_price_stream"
  "pipe_acc new_price_stream = (None, None)"
  by (simp_all add: new_price_stream_def new_pipe_def new_retry_def retry_defs)

lemma getSpotPriceStream_tick:
  assumes "i \<in> set (ry_live (pipe_retry s))" "\<not> ry_isDisposed (pipe_retry s)" "\<not> ry_stopped (pipe_retry s)"
    "\<not> pipe_stopped s" "price_scan lk (pipe_acc s) d = Inr (mem, p)"
  shows "getSpotPriceStream s (lk, SourceNext i d) = (s\<lparr>pipe_acc := mem\<rparr>, [OnNext p])"
  using assms by (cases s) (simp add: getSpotPriceStream_def pipe_step_def Let_def is_unsubscribe_def run.simps(2))

lemma example_ticks_run:
  "\<exists>p q. emitted (outputs getSpotPriceStream new_price_stream example_ticks) = [p, q]
     \<and> px_isTradable p \<and> px_isTradable q
     \<and> pipe_retry (final_state getSpotPriceStream new_price_stream example_ticks) = pipe_retry new_price_stream
     \<and> \<not> pipe_stopped (final_state getSpotPriceStream new_price_stream example_ticks)"
proof -
  obtain p where p: "price_scan example_lookup (None, None) (example_price ''EURUSD'' 100) =
      Inr ((Some (example_price ''EURUSD'' 100), Some p), p)" "px_isTradable p"
    using example_scan [of 100 "(None, None)" "''EURUSD''"] by auto
  obtain q where q: "price_scan example_lookup (Some (example_price ''EURUSD'' 100), Some p) (example_price ''EURUSD'' 101) =
      Inr ((Some (example_price ''EURUSD'' 101), Some q), q)" "px_isTradable q"
    using example_scan [of 101 "(Some (example_price ''EURUSD'' 100), Some p)" "''EURUSD''"] by auto
  show ?thesis
    using p q by (simp add: example_ticks_def getSpotPriceStream_tick)
qed

lemma price_movements_witness:
  "\<exists>p q. tradable (emitted (outputs getSpotPriceStream new_price_stream example_ticks)) = [p, q]
     \<and> px_priceMovementType p = NoMovement \<and> px_priceMovementType q = movement_between p q"
proof -
  obtain p q where run: "tradable (emitted (outputs getSpotPriceStream new_price_stream example_ticks)) = [p, q]"
    using example_ticks_run by (auto simp: tradable_def)
  show ?thesis
    using run price_movements [OF run [symmetric], of 0] price_movements [OF run [symmetric], of 1] by auto
qed

text \<open>C22: a price that is not tradable is always the last tradable one with the flag taken off. It is
  sent the moment a live source fails after a price, together with a retry in two seconds.\<close>

theorem stale_price_on_failure:
  assumes "ps = emitted (outputs getSpotPriceStream new_price_stream inps)"
    and "s = final_state getSpotPriceStream new_price_stream inps"
  shows "(k < length ps \<longrightarrow> \<not> px_isTradable (ps ! k) \<longrightarrow>
        tradable (take k ps) \<noteq> [] \<and> ps ! k = (last (tradable (take k ps)))\<lparr>px_isTradable := False\<rparr>)
    \<and> (tradable ps \<noteq> [] \<longrightarrow> i \<in> set (ry_live (pipe_retry s)) \<longrightarrow> \<not> pipe_stopped s \<longrightarrow>
        snd (getSpotPriceStream s (lk, SourceError i e)) =
          [OnNext ((last (tradable ps))\<lparr>px_isTradable := False\<rparr>), ScheduleRetry 2000])"
proof -
  have inv: "price_inv (pipe_acc s) ps" using price_inv_run [OF price_inv_start, of inps] assms by simp
  have "snd (getSpotPriceStream s (lk, SourceError i e)) =
      [OnNext ((last (tradable ps))\<lparr>px_isTradable := False\<rparr>), ScheduleRetry 2000]"
    if "tradable ps \<noteq> []" "i \<in> set (ry_live (pipe_retry s))" "\<not> pipe_stopped s"
    using that inv
    by (auto simp: getSpotPriceStream_def pipe_step_def Let_def is_unsubscribe_def price_inv_def stale_price_def
        indefiniteEvery2Seconds_def)
  with inv show ?thesis by (auto simp: price_inv_def stale_ok_def)
qed

lemma stale_price_on_failure_witness:
  "\<exists>q. snd (getSpotPriceStream (final_state getSpotPriceStream new_price_stream example_ticks)
        (example_lookup, SourceError 0 (Error ''down''))) = [OnNext (q\<lparr>px_isTradable := False\<rparr>), ScheduleRetry 2000]"
proof -
  obtain p q where run: "tradable (emitted (outputs getSpotPriceStream new_price_stream example_ticks)) = [p, q]"
    and st: "pipe_retry (final_state getSpotPriceStream new_price_stream example_ticks) = pipe_retry new_price_stream"
      "\<not> pipe_stopped (final_state getSpotPriceStream new_price_stream example_ticks)"
    using example_ticks_run by (auto simp: tradable_def)
  show ?thesis
    using stale_price_on_failure [OF refl refl, of 0 example_ticks 0 example_lookup "Error ''down''"] run st by auto
qed

text \<open>A stream that was stopped stays silent.\<close>

interpretation pipe_call_stopped: guarded_handler "pipe_call pol f cb" pipe_stopped "\<lambda>c. \<not> is_emission c"
  for pol f cb
proof (unfold_locales, goal_cases)
  case (1 s i)
  then show ?case by (cases i) simp_all
next
  case (2 s out i)
  then show ?case by (cases i) auto
qed

interpretation pipe_stopped: guarded_handler "pipe_step pol f cb" pipe_stopped "\<lambda>c. \<not> is_emission c"
  for pol f cb
proof (unfold_locales, goal_cases)
  case (1 s i)
  then show ?case by (simp add: pipe_step_def Let_def split_beta pipe_call_stopped.run_inv)
next
  case (2 s out i)
  define s1 where "s1 = s\<lparr>pipe_retry := fst (retry_step pol (pipe_retry s) i), pipe_stopped := True\<rparr>"
  from 2 have "out \<in> set (outputs (pipe_call pol f cb) s1 (snd (retry_step pol (pipe_retry s) i)))"
    by (simp add: pipe_step_def Let_def split_beta s1_def)
  moreover have "pipe_stopped s1" by (simp add: s1_def)
  ultimately show ?case using pipe_call_stopped.run_allowed by blast
qed

interpretation trades_stopped: guarded_handler "getTradesStream parse_date" pipe_stopped "\<lambda>c. \<not> is_emission c"
  for parse_date
  unfolding getTradesStream_def by unfold_locales (use pipe_stopped.step_inv pipe_stopped.step_allowed in blast)+

text \<open>The trade stream stops at the first message its mapper rejects: the subscriber is sent the
  mapper's exception and then nothing; the operation is disposed of, not retried.\<close>

theorem rejected_message_ends_stream:
  assumes "\<not> pipe_stopped s" "i \<in> set (ry_live (pipe_retry s))" "\<not> ry_isDisposed (pipe_retry s)" "\<not> ry_stopped (pipe_retry s)"
    and "mapTradesFromDto lk parse_date dto = Inl e"
    and "s' = fst (getTradesStream parse_date s (lk, SourceNext i dto))"
  shows "filter is_emission (snd (getTradesStream parse_date s (lk, SourceNext i dto))) = [OnError e]
    \<and> filter is_emission (outputs (getTradesStream parse_date) s' inps) = []"
proof -
  have "pipe_stopped s'" "filter is_emission (snd (getTradesStream parse_date s (lk, SourceNext i dto))) = [OnError e]"
    using assms
    by (simp_all add: getTradesStream_def pipe_step_def Let_def is_unsubscribe_def filter_empty_conv)
  with trades_stopped.run_allowed show ?thesis by (auto simp: filter_empty_conv)
qed

definition bad_trades :: trades_dto where
  "bad_trades = \<lparr>trsd_IsStateOfTheWorld = False, trsd_IsStale = False,
     trsd_Trades = [\<lparr>trd_TradeId = 1, trd_TraderName = ''LMO'', trd_CurrencyPair = ''EURUSD'', trd_Notional = 100,
       trd_DealtCurrency = ''EUR'', trd_Direction = ''Hold'', trd_SpotRate = 1, trd_TradeDate = '''', trd_ValueDate = '''',
       trd_Status = ''Done''\<rparr>]\<rparr>"

lemma rejected_message_ends_stream_witness:
  "filter is_emission (snd (getTradesStream (\<lambda>d. None) (new_pipe ()) (example_lookup, SourceNext 0 bad_trades))) =
     [OnError (Error ''Unknown direction Hold'')]"
  by (rule rejected_message_ends_stream [THEN conjunct1, OF _ _ _ _ _ refl])
    (simp_all add: new_pipe_def new_retry_def retry_defs bad_trades_def mapTradesFromDto_def mapFromTradeDto_def
      mapDirectionFromDto_def)

end
