(* ===== verification/Connections.thy ===== *)
theory Connections imports Mappers begin

text \<open>
  \<open>system/service/connection.js\<close> over \<open>autobahnConnectionProxy.js\<close> and \<open>autobahnSessionProxy.js\<close>: the
  life of the connection with its automatic disconnect, and the two observables it offers, a
  subscription to a topic and a remote procedure call. Autobahn is the environment: it opens, it
  closes with a reason, it answers promises; what the code asks of it are outputs. Each subscriber
  of \<open>subscribeToTopic\<close> and \<open>requestResponse\<close> is a handler of its own; Rx's rule that a subscriber
  that was sent an error or the completion is disposed of, and gets nothing more, is the flag
  \<open>tp_stopped\<close> (\<open>rpc_stopped\<close>).
\<close>

section \<open>The connection\<close>

datatype connection_status = Idle | Connected | Disconnected | SessionExpired

fun connection_status_name :: "connection_status \<Rightarrow> string" where
  "connection_status_name Idle = ''idle''"
| "connection_status_name Connected = ''connected''"
| "connection_status_name Disconnected = ''disconnected''"
| "connection_status_name SessionExpired = ''sessionExpired''"

text \<open>\<open>cn_timer\<close> is the pending automatic disconnect in \<open>_autoDisconnectDisposable\<close>. \<open>cn_wired\<close> tells that
  the proxy has its \<open>onopen\<close> and \<open>onclose\<close> callbacks, which are never taken back.\<close>

record connection =
  cn_connectCalled :: bool
  cn_isConnected :: bool
  cn_status :: connection_status
  cn_timer :: "nat option"
  cn_nextTimer :: nat
  cn_url :: string
  cn_type :: "connection_type option"
  cn_wired :: bool
  cn_disposed :: bool

definition DISCONNECT_SESSION_AFTER :: nat where
  "DISCONNECT_SESSION_AFTER = 1000 * 60 * 15"

text \<open>The constructor's guards: an undefined proxy or scheduler is \<open>None\<close> here, and so is a user name
  that is no string.\<close>

definition new_connection :: connection where
  "new_connection = \<lparr>cn_connectCalled = False, cn_isConnected = False, cn_status = Idle, cn_timer = None,
     cn_nextTimer = 0, cn_url = '''', cn_type = Some ConnectionUnknown, cn_wired = False, cn_disposed = False\<rparr>"

definition make_connection :: "string option \<Rightarrow> 'a option \<Rightarrow> 'b option \<Rightarrow> connection result" where
  "make_connection userName autobahn schedulerService =
     (if autobahn = None then Inl (Error ''autobahn required'')
      else if userName = None then Inl (Error ''userName required'')
      else if schedulerService = None then Inl (Error ''schedulerService required'')
      else Inr new_connection)"

datatype connection_event =
    Connect
  | Disconnect
  | Opened string string
  | Closed string
  | DisconnectTimer nat
  | DisposeConnection

datatype connection_call =
    AutobahnOpen
  | AutobahnClose
  | ScheduleDisconnect nat nat
  | CancelDisconnect nat
  | StatusNext connection_status

definition cancel_timer :: "connection \<Rightarrow> connection \<times> connection_call list" where
  "cancel_timer c =
     (case cn_timer c of None \<Rightarrow> (c, []) | Some i \<Rightarrow> (c\<lparr>cn_timer := None\<rparr>, [CancelDisconnect i]))"

text \<open>\<open>_autoDisconnectDisposable.setDisposable\<close> of a new timer.\<close>

definition startAutoDisconnectTimer :: "connection \<Rightarrow> connection \<times> connection_call list" where
  "startAutoDisconnectTimer c =
     (let i = cn_nextTimer c;
          (c', calls) = cancel_timer c;
          c'' = c'\<lparr>cn_nextTimer := Suc i\<rparr>
      in if cn_disposed c then (c'', ScheduleDisconnect i DISCONNECT_SESSION_AFTER # calls @ [CancelDisconnect i])
         else (c''\<lparr>cn_timer := Some i\<rparr>, ScheduleDisconnect i DISCONNECT_SESSION_AFTER # calls))"

definition connection_connect :: "connection \<Rightarrow> connection \<times> connection_call list" where
  "connection_connect c =
     (if cn_connectCalled c then (c, [])
      else (c\<lparr>cn_connectCalled := True, cn_wired := True\<rparr>, [AutobahnOpen]))"

definition connection_disconnect :: "connection \<Rightarrow> connection \<times> connection_call list" where
  "connection_disconnect c =
     (if cn_connectCalled c then (c\<lparr>cn_connectCalled := False\<rparr>, [AutobahnClose]) else (c, []))"

fun connection_step :: "(connection, connection_event, connection_call) handler" where
  "connection_step c Connect = connection_connect c"
| "connection_step c Disconnect = connection_disconnect c"
| "connection_step c (Opened url type) =
     (if \<not> cn_wired c then (c, [])
      else
        let (c', calls) = startAutoDisconnectTimer
              (c\<lparr>cn_isConnected := True, cn_url := url, cn_type := connectionTypeMapper_map type\<rparr>)
        in (c'\<lparr>cn_status := Connected\<rparr>, calls @ [StatusNext Connected]))"
| "connection_step c (Closed reason) =
     (if \<not> cn_wired c then (c, [])
      else
        let (c', calls) = cancel_timer (c\<lparr>cn_isConnected := False\<rparr>);
            status = (if reason = ''closed'' then SessionExpired else Disconnected)
        in (c'\<lparr>cn_status := status\<rparr>, calls @ [StatusNext status]))"
| "connection_step c (DisconnectTimer i) =
     (if cn_timer c = Some i then connection_disconnect (c\<lparr>cn_timer := None\<rparr>) else (c, []))"
| "connection_step c DisposeConnection =
     (let (c', calls) = cancel_timer c in (c'\<lparr>cn_disposed := True\<rparr>, calls))"

text \<open>What a subscriber of \<open>connectionStatusStream\<close> sees of the statuses, from the start: the subject's
  current value and then every change.\<close>

fun statuses :: "connection_call list \<Rightarrow> connection_status list" where
  "statuses [] = []"
| "statuses (StatusNext st # calls) = st # statuses calls"
| "statuses (c # calls) = statuses calls"

definition connectionStatusStream :: "connection_call list \<Rightarrow> connection_status list" where
  "connectionStatusStream calls = remdups_adj (Idle # statuses calls)"

section \<open>Topics\<close>

text \<open>\<open>tp_subscription\<close> is the acknowledged subscription; \<open>tp_open\<close> tells that the session was asked to
  subscribe.\<close>

record topic_state =
  tp_open :: bool
  tp_subscription :: "nat option"
  tp_stopped :: bool

datatype 'v topic_event =
    TopicMessage "'v list"
  | TopicAcked nat
  | TopicFailed js_error
  | TopicDispose

datatype 'v topic_call =
    SessionSubscribe string
  | SessionUnsubscribe nat
  | TopicNext "'v option"
  | TopicError js_error

definition topic_dispose :: "topic_state \<Rightarrow> topic_state \<times> 'v topic_call list" where
  "topic_dispose t =
     (t\<lparr>tp_stopped := True\<rparr>,
      case tp_subscription t of None \<Rightarrow> [] | Some n \<Rightarrow> [SessionUnsubscribe n])"

definition subscribeToTopic :: "connection \<Rightarrow> string \<Rightarrow> topic_state \<times> 'v topic_call list" where
  "subscribeToTopic c topic =
     (if \<not> cn_isConnected c
        then (\<lparr>tp_open = False, tp_subscription = None, tp_stopped = True\<rparr>,
              [TopicError (Error (''Session not connected, can't subscribe to topic ['' @ topic @ '']''))])
      else (\<lparr>tp_open = True, tp_subscription = None, tp_stopped = False\<rparr>, [SessionSubscribe topic]))"

text \<open>\<open>response[0]\<close> of an empty response is \<open>undefined\<close>.\<close>

fun topic_step :: "(topic_state, 'v topic_event, 'v topic_call) handler" where
  "topic_step t (TopicMessage response) =
     (if tp_stopped t then (t, [])
      else (t, [TopicNext (case response of [] \<Rightarrow> None | v # _ \<Rightarrow> Some v)]))"
| "topic_step t (TopicAcked n) =
     (if tp_open t then (t\<lparr>tp_subscription := Some n\<rparr>, []) else (t, []))"
| "topic_step t (TopicFailed e) =
     (if tp_stopped t \<or> \<not> tp_open t then (t, [])
      else (let (t', calls) = topic_dispose t in (t', TopicError e # calls)))"
| "topic_step t TopicDispose = (if tp_stopped t then (t, []) else topic_dispose t)"

section \<open>Remote procedure calls\<close>

record 'p rpc_dto =
  dto_replyTo :: string
  dto_Username :: string
  dto_payload :: 'p

record rpc_state =
  rpc_open :: bool
  rpc_isDisposed :: bool
  rpc_stopped :: bool

datatype 'v rpc_event = RpcResult 'v | RpcFailed js_error | RpcDispose

datatype ('p, 'v) rpc_call =
    SessionCall string "'p rpc_dto"
  | RpcNext 'v
  | RpcError js_error
  | RpcCompleted

definition requestResponse ::
    "connection \<Rightarrow> string \<Rightarrow> string \<Rightarrow> 'p \<Rightarrow> string \<Rightarrow> rpc_state \<times> ('p, 'v) rpc_call list" where
  "requestResponse c userName remoteProcedure payload responseTopic =
     (if \<not> cn_isConnected c
        then (\<lparr>rpc_open = False, rpc_isDisposed = False, rpc_stopped = True\<rparr>,
              [RpcError (Error (''Session not connected, can't perform remoteProcedure '' @ remoteProcedure))])
      else (\<lparr>rpc_open = True, rpc_isDisposed = False, rpc_stopped = False\<rparr>,
            [SessionCall remoteProcedure
               \<lparr>dto_replyTo = responseTopic, dto_Username = userName, dto_payload = payload\<rparr>]))"

definition rpc_dispose :: "rpc_state \<Rightarrow> rpc_state" where
  "rpc_dispose r = r\<lparr>rpc_stopped := True, rpc_isDisposed := True\<rparr>"

fun rpc_step :: "(rpc_state, 'v rpc_event, ('p, 'v) rpc_call) handler" where
  "rpc_step r (RpcResult v) =
     (if \<not> rpc_open r \<or> rpc_isDisposed r \<or> rpc_stopped r then (r, [])
      else (rpc_dispose r, [RpcNext v, RpcCompleted]))"
| "rpc_step r (RpcFailed e) =
     (if \<not> rpc_open r \<or> rpc_isDisposed r \<or> rpc_stopped r then (r, [])
      else (rpc_dispose r, [RpcError e]))"
| "rpc_step r RpcDispose = (if rpc_stopped r then (r, []) else (rpc_dispose r, []))"

section \<open>Lemmas\<close>

lemmas connection_defs = connection_connect_def connection_disconnect_def cancel_timer_def
  startAutoDisconnectTimer_def

definition connection_inv :: "connection \<Rightarrow> bool" where
  "connection_inv c \<longleftrightarrow>
     (cn_isConnected c \<longleftrightarrow> cn_status c = Connected)
     \<and> (cn_timer c \<noteq> None \<longrightarrow> cn_isConnected c \<and> \<not> cn_disposed c)
     \<and> (\<forall>i. cn_timer c = Some i \<longrightarrow> i < cn_nextTimer c)
     \<and> (cn_connectCalled c \<longrightarrow> cn_wired c)"

lemma connection_inv_step: "connection_inv c \<Longrightarrow> connection_inv (fst (connection_step c ev))"
  by (cases ev) (auto simp: connection_inv_def connection_defs Let_def split: option.splits)

interpretation connection: guarded_handler connection_step connection_inv "\<lambda>call. True"
  by unfold_locales (simp_all add: connection_inv_step)

lemma connection_inv_new [simp]: "connection_inv new_connection"
  by (simp add: connection_inv_def new_connection_def)

text \<open>The calls of autobahn's \<open>open\<close> and \<open>close\<close>.\<close>

fun is_open_close :: "connection_call \<Rightarrow> bool" where
  "is_open_close AutobahnOpen = True"
| "is_open_close AutobahnClose = True"
| "is_open_close c = False"

fun alternating :: "bool \<Rightarrow> connection_call list \<Rightarrow> bool" where
  "alternating opened [] = True"
| "alternating opened (c # calls) = (c = (if opened then AutobahnClose else AutobahnOpen) \<and> alternating (\<not> opened) calls)"

lemma open_close_step:
  "filter is_open_close (snd (connection_step c ev)) =
     (if cn_connectCalled (fst (connection_step c ev)) = cn_connectCalled c then []
      else if cn_connectCalled c then [AutobahnClose] else [AutobahnOpen])"
  by (cases ev) (auto simp: connection_defs Let_def split: option.splits)

lemma open_close_run:
  "alternating (cn_connectCalled c) (filter is_open_close (outputs connection_step c evs))"
proof (induction evs arbitrary: c)
  case (Cons ev evs)
  from Cons.IH [of "fst (connection_step c ev)"] show ?case
    by (cases "cn_connectCalled c") (auto simp: open_close_step simp del: connection_step.simps)
qed simp

text \<open>The status of the connection is the last one sent.\<close>

lemma statuses_append [simp]: "statuses (xs @ ys) = statuses xs @ statuses ys"
  by (induction xs rule: statuses.induct) simp_all

lemma status_is_last_step:
  "cn_status (fst (connection_step c ev)) = last (cn_status c # statuses (snd (connection_step c ev)))"
  by (cases ev) (auto simp: connection_defs Let_def split: option.splits)

lemma status_is_last:
  "cn_status (final_state connection_step c evs) = last (cn_status c # statuses (outputs connection_step c evs))"
proof (induction evs arbitrary: c)
  case (Cons ev evs)
  then show ?case using status_is_last_step [of c ev]
    by (auto simp del: connection_step.simps split: if_splits)
qed simp

subsection \<open>Topics and calls\<close>

lemma topic_stopped_step:
  "tp_stopped t \<Longrightarrow> tp_stopped (fst (topic_step t ev)) \<and> snd (topic_step t ev) = []"
  by (cases ev) simp_all

interpretation topic_stopped: guarded_handler topic_step tp_stopped "\<lambda>call. False"
  by unfold_locales (simp_all add: topic_stopped_step)

lemma rpc_stopped_step:
  "rpc_stopped r \<Longrightarrow> rpc_stopped (fst (rpc_step r ev)) \<and> snd (rpc_step r ev) = []"
  by (cases ev) simp_all

interpretation rpc_stopped: guarded_handler rpc_step rpc_stopped "\<lambda>call. False"
  by unfold_locales (simp_all add: rpc_stopped_step)

lemma topic_silent: "tp_stopped t \<Longrightarrow> outputs topic_step t evs = []"
  by (induction evs arbitrary: t) (simp_all add: topic_stopped_step del: topic_step.simps)

lemma rpc_silent: "rpc_stopped r \<Longrightarrow> outputs rpc_step r evs = []"
  by (induction evs arbitrary: r) (simp_all add: rpc_stopped_step del: rpc_step.simps)

text \<open>What a subscription passes on while it lasts, and the acknowledgement it holds.\<close>

fun topic_values :: "'v topic_event list \<Rightarrow> 'v topic_call list" where
  "topic_values [] = []"
| "topic_values (TopicMessage response # evs) =
     TopicNext (case response of [] \<Rightarrow> None | v # _ \<Rightarrow> Some v) # topic_values evs"
| "topic_values (ev # evs) = topic_values evs"

fun topic_ack :: "nat option \<Rightarrow> 'v topic_event list \<Rightarrow> nat option" where
  "topic_ack a [] = a"
| "topic_ack a (TopicAcked n # evs) = topic_ack (Some n) evs"
| "topic_ack a (ev # evs) = topic_ack a evs"

fun ends_topic :: "'v topic_event \<Rightarrow> bool" where
  "ends_topic (TopicFailed e) = True"
| "ends_topic TopicDispose = True"
| "ends_topic ev = False"

lemma topic_lasts:
  assumes "tp_open t" "\<not> tp_stopped t" "\<forall>ev \<in> set evs. \<not> ends_topic ev"
  shows "final_state topic_step t evs = t\<lparr>tp_subscription := topic_ack (tp_subscription t) evs\<rparr>
    \<and> outputs topic_step t evs = topic_values evs"
  using assms
proof (induction evs arbitrary: t)
  case (Cons ev evs)
  then show ?case by (cases ev) auto
qed simp

section \<open>Properties\<close>

abbreviation reached :: "connection_event list \<Rightarrow> connection" where
  "reached evs \<equiv> final_state connection_step new_connection evs"

text \<open>C16: whatever the order of opens, closes, timers and calls, \<open>isConnected\<close> is true exactly when the last
  status sent is \<open>connected\<close>, an automatic disconnect is pending only while the connection is open,
  and autobahn is opened and closed in turns.\<close>

theorem connection_consistent:
  shows "(cn_isConnected (reached evs) \<longleftrightarrow> last (Idle # statuses (outputs connection_step new_connection evs)) = Connected)
    \<and> (cn_timer (reached evs) \<noteq> None \<longrightarrow> cn_isConnected (reached evs))
    \<and> alternating False (filter is_open_close (outputs connection_step new_connection evs))"
proof -
  have inv: "connection_inv (reached evs)" using connection_inv_new by (rule connection.run_inv)
  have "cn_status (reached evs) = last (Idle # statuses (outputs connection_step new_connection evs))"
    using status_is_last [of new_connection evs] by (simp add: new_connection_def)
  moreover have "\<not> cn_connectCalled new_connection" by (simp add: new_connection_def)
  ultimately show ?thesis
    using inv open_close_run [of new_connection evs] by (auto simp: connection_inv_def split: if_splits)
qed

lemma connection_consistent_witness:
  "cn_isConnected (reached [Connect, Opened ''ws://broker'' ''websocket'', Closed ''lost'', Opened ''ws://broker'' ''longpoll''])"
  using connection_consistent [of "[Connect, Opened ''ws://broker'' ''websocket'', Closed ''lost'', Opened ''ws://broker'' ''longpoll'']"]
  by (simp add: new_connection_def connection_defs Let_def)

text \<open>A session that stays open is closed after fifteen minutes. The timer is set when the socket
  opens; when it fires autobahn is closed, the close it reports makes the status \<open>sessionExpired\<close>,
  and a later \<open>connect\<close> opens autobahn again.\<close>

theorem session_expires:
  assumes "cn_connectCalled (reached evs)" "\<not> cn_disposed (reached evs)"
    and "i = cn_nextTimer (reached evs)"
  shows "ScheduleDisconnect i (15 * 60 * 1000) \<in> set (snd (connection_step (reached evs) (Opened url type)))
    \<and> outputs connection_step (reached (evs @ [Opened url type])) [DisconnectTimer i, Closed ''closed'', Connect] =
        [AutobahnClose, StatusNext SessionExpired, AutobahnOpen]"
proof -
  have inv: "connection_inv (reached evs)" using connection_inv_new by (rule connection.run_inv)
  with assms show ?thesis
    by (auto simp: run_append connection_inv_def connection_defs Let_def DISCONNECT_SESSION_AFTER_def
        split: option.splits)
qed

lemma session_expires_witness:
  "outputs connection_step (reached [Connect, Opened ''ws://broker'' ''websocket''])
     [DisconnectTimer 0, Closed ''closed'', Connect] = [AutobahnClose, StatusNext SessionExpired, AutobahnOpen]"
  using session_expires [of "[Connect]" 0 "''ws://broker''" "''websocket''"]
  by (simp add: new_connection_def connection_connect_def)

text \<open>A remote call answers its subscriber at most once: with a value and the completion, or with the
  error, and with nothing once the subscriber has disposed.\<close>

theorem rpc_answers_once:
  assumes "requestResponse c user procedure payload topic = (r, calls)"
  shows "if cn_isConnected c
    then calls = [SessionCall procedure \<lparr>dto_replyTo = topic, dto_Username = user, dto_payload = payload\<rparr>]
      \<and> outputs rpc_step r evs =
        (case evs of RpcResult v # _ \<Rightarrow> [RpcNext v, RpcCompleted] | RpcFailed e # _ \<Rightarrow> [RpcError e] | _ \<Rightarrow> [])
    else calls = [RpcError (Error (''Session not connected, can't perform remoteProcedure '' @ procedure))]
      \<and> outputs rpc_step r evs = []"
proof (cases "cn_isConnected c")
  case False
  with assms show ?thesis by (auto simp: requestResponse_def rpc_silent)
next
  case True
  have "rpc_stopped (rpc_dispose r)" by (simp add: rpc_dispose_def)
  with True assms show ?thesis
    by (auto simp: requestResponse_def rpc_silent split: list.split rpc_event.split)
qed

abbreviation connected :: connection where
  "connected \<equiv> new_connection\<lparr>cn_isConnected := True\<rparr>"

lemma rpc_answers_once_witness:
  "outputs rpc_step \<lparr>rpc_open = True, rpc_isDisposed = False, rpc_stopped = False\<rparr>
     [RpcResult (1::int), RpcResult 2, RpcFailed (Error ''late'')] = [RpcNext 1, RpcCompleted :: (unit, int) rpc_call]"
  using rpc_answers_once [of connected "''LMO''" "''exec.1.run''" "()" "[]"
      "\<lparr>rpc_open = True, rpc_isDisposed = False, rpc_stopped = False\<rparr>"
      "[SessionCall ''exec.1.run'' \<lparr>dto_replyTo = [], dto_Username = ''LMO'', dto_payload = ()\<rparr>]"
      "[RpcResult (1::int), RpcResult 2, RpcFailed (Error ''late'')]"]
  by (simp add: requestResponse_def)

text \<open>A subscriber of a topic gets every message up to its \<open>dispose\<close> and none after it, and the session
  is then asked to unsubscribe exactly when the acknowledgement has already arrived: one that comes
  later is stored and never given back, so the broker keeps sending.\<close>

theorem topic_until_disposed:
  assumes "subscribeToTopic c topic = (t, calls)" "cn_isConnected c" "\<forall>ev \<in> set before. \<not> ends_topic ev"
  shows "calls = [SessionSubscribe topic] \<and> outputs topic_step t (before @ TopicDispose # after) =
    topic_values before @ (case topic_ack None before of None \<Rightarrow> [] | Some n \<Rightarrow> [SessionUnsubscribe n])"
proof -
  have t: "tp_open t" "\<not> tp_stopped t" "tp_subscription t = None" "calls = [SessionSubscribe topic]"
    using assms(1,2) by (auto simp: subscribeToTopic_def)
  show ?thesis
    using topic_lasts [OF t(1,2) assms(3)] t
    by (simp add: run_append topic_dispose_def topic_silent)
qed

lemma topic_until_disposed_witness:
  "outputs topic_step \<lparr>tp_open = True, tp_subscription = None, tp_stopped = False\<rparr>
     [TopicMessage [1::int], TopicDispose, TopicAcked 5, TopicMessage [2]] = [TopicNext (Some 1)]"
  using topic_until_disposed [of connected "''status''" "\<lparr>tp_open = True, tp_subscription = None, tp_stopped = False\<rparr>"
      "[SessionSubscribe ''status'' :: int topic_call]" "[TopicMessage [1]]" "[TopicAcked 5, TopicMessage [2]]"]
  by (simp add: subscribeToTopic_def)

end
