(* ===== verification/Runtime.thy ===== *)
theory Runtime imports JsObject JsNumber begin

text \<open>
  The small tools of \<open>system\<close>: the argument checks of \<open>guard.js\<close>, the logger of \<open>logger.js\<close> and the
  number shorthand, the dates and the mixin of \<open>utils.js\<close>. The first two are called with values of any type, so they work on
  \<open>js_value\<close> here; an argument a caller leaves out is \<open>JUndefined\<close>.
\<close>

section \<open>Dynamic values\<close>

datatype js_value =
    JUndefined
  | JNull
  | JBool bool
  | JNumber jsnum
  | JString string
  | JStringObject string
  | JFunction
  | JObject "(string \<times> js_value) list"
  | JArray "js_value list"

fun typeof :: "js_value \<Rightarrow> string" where
  "typeof JUndefined = ''undefined''"
| "typeof JNull = ''object''"
| "typeof (JBool b) = ''boolean''"
| "typeof (JNumber n) = ''number''"
| "typeof (JString s) = ''string''"
| "typeof (JStringObject s) = ''object''"
| "typeof JFunction = ''function''"
| "typeof (JObject ob) = ''object''"
| "typeof (JArray vs) = ''object''"

fun truthy :: "js_value \<Rightarrow> bool" where
  "truthy JUndefined = False"
| "truthy JNull = False"
| "truthy (JBool b) = b"
| "truthy (JNumber (Num x)) = (x \<noteq> 0)"
| "truthy (JNumber NaN) = False"
| "truthy (JString s) = (s \<noteq> '''')"
| "truthy (JStringObject s) = True"
| "truthy JFunction = True"
| "truthy (JObject ob) = True"
| "truthy (JArray vs) = True"

text \<open>The conversion to a number behind \<open>isNaN\<close>. An object of no special kind and a function read as
  \<open>NaN\<close>; an array reads as its elements joined, which is a number for at most one element.\<close>

fun to_number :: "js_value \<Rightarrow> jsnum" where
  "to_number JUndefined = NaN"
| "to_number JNull = Num 0"
| "to_number (JBool b) = Num (if b then 1 else 0)"
| "to_number (JNumber n) = n"
| "to_number (JString s) = js_Number s"
| "to_number (JStringObject s) = js_Number s"
| "to_number JFunction = NaN"
| "to_number (JObject ob) = NaN"
| "to_number (JArray []) = Num 0"
| "to_number (JArray [v]) =
     (case v of JUndefined \<Rightarrow> Num 0 | JBool b \<Rightarrow> NaN | v \<Rightarrow> to_number v)"
| "to_number (JArray (v # w # vs)) = NaN"

section \<open>Guards\<close>

type_synonym checked = "unit result"

definition doThrow :: "js_value \<Rightarrow> checked" where
  "doThrow message =
     (if typeof message = ''undefined'' \<or> message = JString '''' then Inl (Error ''Argument error'')
      else Inl (Error (case message of JString s \<Rightarrow> s | JStringObject s \<Rightarrow> s | _ \<Rightarrow> typeof message)))"

definition guard_if :: "bool \<Rightarrow> js_value \<Rightarrow> checked" where
  "guard_if failed message = (if failed then doThrow message else Inr ())"

fun isString :: "js_value \<Rightarrow> bool" where
  "isString (JString s) = True"
| "isString (JStringObject s) = True"
| "isString v = False"

definition Guard_isDefined :: "js_value \<Rightarrow> js_value \<Rightarrow> checked" where
  "Guard_isDefined v message = guard_if (typeof v = ''undefined'') message"

definition Guard_isFalse :: "js_value \<Rightarrow> js_value \<Rightarrow> checked" where
  "Guard_isFalse v message = guard_if (truthy v) message"

definition Guard_lengthIs :: "js_value list \<Rightarrow> nat \<Rightarrow> js_value \<Rightarrow> checked" where
  "Guard_lengthIs array n message = guard_if (length array \<noteq> n) message"

definition Guard_lengthGreaterThan :: "js_value list \<Rightarrow> nat \<Rightarrow> js_value \<Rightarrow> checked" where
  "Guard_lengthGreaterThan array expected message = guard_if (length array < expected) message"

definition Guard_lengthIsAtLeast :: "js_value list \<Rightarrow> nat \<Rightarrow> js_value \<Rightarrow> checked" where
  "Guard_lengthIsAtLeast array expected message = guard_if (length array < expected) message"

definition Guard_isString :: "js_value \<Rightarrow> js_value \<Rightarrow> checked" where
  "Guard_isString v message = guard_if (\<not> isString v) message"

definition Guard_stringIsNotEmpty :: "js_value \<Rightarrow> js_value \<Rightarrow> checked" where
  "Guard_stringIsNotEmpty v message = guard_if (\<not> isString v \<or> v = JString '''') message"

definition Guard_isTrue :: "js_value \<Rightarrow> js_value \<Rightarrow> checked" where
  "Guard_isTrue check message = guard_if (\<not> truthy check) message"

definition Guard_isFunction :: "js_value \<Rightarrow> js_value \<Rightarrow> checked" where
  "Guard_isFunction item message = guard_if (typeof item \<noteq> ''function'') message"

definition Guard_isNumber :: "js_value \<Rightarrow> js_value \<Rightarrow> checked" where
  "Guard_isNumber v message = guard_if (to_number v = NaN) message"

definition Guard_isObject :: "js_value \<Rightarrow> js_value \<Rightarrow> checked" where
  "Guard_isObject v message = guard_if (typeof v \<noteq> ''object'') message"

lemma guard_if_Inr [simp]: "guard_if failed message = Inr () \<longleftrightarrow> \<not> failed"
  by (simp add: guard_if_def doThrow_def)

lemma guard_if_cases: "guard_if failed (JString m) =
    (if failed then Inl (Error (if m = '''' then ''Argument error'' else m)) else Inr ())"
  by (simp add: guard_if_def doThrow_def)

section \<open>The logger\<close>

definition level_verbose :: int where "level_verbose = 0"
definition level_debug :: int where "level_debug = 1"
definition level_info :: int where "level_info = 2"
definition level_warn :: int where "level_warn = 3"
definition level_error :: int where "level_error = 4"

record log_event =
  le_logger :: string
  le_level :: string
  le_args :: "js_value list"
  le_color :: string

datatype log_method = LogVerbose | LogDebug | LogInfo | LogWarn | LogError

definition logger_log :: "string \<Rightarrow> string \<Rightarrow> js_value list \<Rightarrow> string option \<Rightarrow> log_event" where
  "logger_log name level args color =
     \<lparr>le_logger = name, le_level = level, le_args = args,
      le_color = (case color of None \<Rightarrow> ''black'' | Some c \<Rightarrow> if c = '''' then ''black'' else c)\<rparr>"

text \<open>The events one call hands to the sink, at the current level.\<close>

fun logger_call :: "int \<Rightarrow> string \<Rightarrow> log_method \<Rightarrow> js_value list \<Rightarrow> log_event list" where
  "logger_call currentLevel name LogVerbose args =
     (if currentLevel \<le> level_verbose then [logger_log name ''VERBOSE'' args None] else [])"
| "logger_call currentLevel name LogDebug args =
     (if currentLevel \<le> level_debug then [logger_log name ''DEBUG'' args None] else [])"
| "logger_call currentLevel name LogInfo args =
     (if currentLevel \<le> level_info then [logger_log name ''INFO'' args (Some ''blue'')] else [])"
| "logger_call currentLevel name LogWarn args =
     (if currentLevel \<le> level_warn then [logger_log name ''WARN'' args None] else [])"
| "logger_call currentLevel name LogError args =
     (if currentLevel \<le> level_error then [logger_log name ''ERROR'' args (Some ''red'')] else [])"

definition logger_create :: "js_value \<Rightarrow> string result" where
  "logger_create name =
     bind_result (Guard_isDefined name (JString ''The name argument should be defined'')) (\<lambda>u.
     bind_result (Guard_isString name (JString ''The name argument should be a string'')) (\<lambda>u.
       case name of JString s \<Rightarrow> Inr s | JStringObject s \<Rightarrow> Inr s | _ \<Rightarrow> Inr ''''))"

text \<open>\<open>_currentLevel\<close> is shared by all loggers, so a program's log is a run over it. The sink is
  whatever was set last; it only receives the events.\<close>

datatype log_request = SetLevel int | Log string log_method "js_value list"

fun logging :: "(int, log_request, log_event) handler" where
  "logging currentLevel (SetLevel level) = (level, [])"
| "logging currentLevel (Log name method args) = (currentLevel, logger_call currentLevel name method args)"

definition setSink :: "js_value \<Rightarrow> checked" where
  "setSink sink = Guard_isFunction sink (JString ''Logging sink argument must be a function'')"

fun method_level :: "log_method \<Rightarrow> int" where
  "method_level LogVerbose = level_verbose"
| "method_level LogDebug = level_debug"
| "method_level LogInfo = level_info"
| "method_level LogWarn = level_warn"
| "method_level LogError = level_error"

section \<open>Number shorthand\<close>

definition to_upper :: "char \<Rightarrow> char" where
  "to_upper c = (if 97 \<le> (of_char c :: nat) \<and> (of_char c :: nat) \<le> 122 then char_of (of_char c - 32 :: nat) else c)"

definition normalise_shorthand :: "string \<Rightarrow> string" where
  "normalise_shorthand s = filter (\<lambda>c. c \<noteq> CHR '','') (map to_upper s)"

text \<open>The match of \<open>/^([0-9\.]+)?([MK]{1})?$/\<close>: the two groups, each perhaps absent.\<close>

definition is_number_char :: "char \<Rightarrow> bool" where
  "is_number_char c \<longleftrightarrow> is_digit c \<or> c = CHR ''.''"

definition match_shorthand :: "string \<Rightarrow> (string option \<times> char option) option" where
  "match_shorthand s =
     (let number = takeWhile is_number_char s;
          rest = dropWhile is_number_char s;
          group1 = (if number = [] then None else Some number)
      in case rest of
           [] \<Rightarrow> Some (group1, None)
         | [c] \<Rightarrow> if c = CHR ''M'' \<or> c = CHR ''K'' then Some (group1, Some c) else None
         | _ \<Rightarrow> None)"

text \<open>\<open>Number(matches[1])\<close>, which is \<open>NaN\<close> for an absent group, replaced by 1 when it is falsy.\<close>

definition shorthand_number :: "string option \<Rightarrow> rat" where
  "shorthand_number group1 =
     (case group1 of
        None \<Rightarrow> 1
      | Some s \<Rightarrow> (case js_Number s of NaN \<Rightarrow> 1 | Num x \<Rightarrow> if x = 0 then 1 else x))"

definition convertNotionalShorthandToNumericValue :: "string \<Rightarrow> rat" where
  "convertNotionalShorthandToNumericValue notionalShorthand =
     (let s = normalise_shorthand notionalShorthand
      in if s = '''' then 0
         else case match_shorthand s of
           None \<Rightarrow> 0
         | Some (group1, group2) \<Rightarrow>
             (case group2 of
                None \<Rightarrow> shorthand_number group1
              | Some c \<Rightarrow> fl (shorthand_number group1 * (if c = CHR ''K'' then 1000 else 1000000))))"

definition hasShorthandInput :: "string \<Rightarrow> bool" where
  "hasShorthandInput notionalShorthand =
     (case match_shorthand (normalise_shorthand notionalShorthand) of
        None \<Rightarrow> False | Some (group1, group2) \<Rightarrow> group2 \<noteq> None)"

section \<open>Dates and mixins\<close>

text \<open>The formatter of d3 is a parameter. The decorator copies every own property of the source's prototype to the target's,
  its constructor included.\<close>

definition formatDate :: "(string \<Rightarrow> 'd \<Rightarrow> string) \<Rightarrow> 'd \<Rightarrow> string option \<Rightarrow> string" where
  "formatDate time_format date format =
     time_format (case format of None \<Rightarrow> ''%b %e, %H:%M:%S'' | Some f \<Rightarrow> f) date"

definition mixin :: "'v object \<Rightarrow> 'v object \<Rightarrow> 'v object" where
  "mixin source target = foldl (\<lambda>t (prop, descriptor). obj_set prop descriptor t) target source"

section \<open>Lemmas\<close>

text \<open>After the decorator a property of the source hides the target's own.\<close>

lemma mixin_get:
  assumes "distinct (map fst source)"
  shows "obj_get (mixin source target) k = (case obj_get source k of Some d \<Rightarrow> Some d | None \<Rightarrow> obj_get target k)"
  using assms
proof (induction source arbitrary: target)
  case (Cons pd source)
  obtain p d where "pd = (p, d)" by (cases pd)
  moreover from Cons.prems this have "obj_get source p = None" by (simp add: map_of_eq_None_iff)
  ultimately show ?case using Cons by (auto simp: mixin_def obj_get_set split: option.split)
qed (simp add: mixin_def)


lemma to_upper_digit [simp]: "is_digit c \<Longrightarrow> to_upper c = c"
  by (auto simp: is_digit_def to_upper_def)

lemma is_digit_not_comma [simp]: "is_digit c \<Longrightarrow> c \<noteq> CHR '',''"
  by (auto simp: is_digit_def)

lemma normalise_digits: "list_all is_digit s \<Longrightarrow> normalise_shorthand (s @ t) = s @ normalise_shorthand t"
  by (induction s) (auto simp: normalise_shorthand_def)

lemma match_digits:
  assumes "list_all is_digit s" "s \<noteq> []"
  shows "match_shorthand s = Some (Some s, None)"
    and "c \<in> {CHR ''M'', CHR ''K''} \<Longrightarrow> match_shorthand (s @ [c]) = Some (Some s, Some c)"
proof -
  have s: "takeWhile is_number_char (s @ t) = s @ takeWhile is_number_char t"
    "dropWhile is_number_char (s @ t) = dropWhile is_number_char t" for t
    using assms(1) by (auto simp: is_number_char_def list_all_iff)
  have whole: "takeWhile is_number_char s = s" "dropWhile is_number_char s = []"
    using s [of "[]"] by (simp_all only: append_Nil2 takeWhile.simps dropWhile.simps)
  show "match_shorthand s = Some (Some s, None)"
    using assms(2) unfolding match_shorthand_def Let_def whole by simp
  assume "c \<in> {CHR ''M'', CHR ''K''}"
  then show "match_shorthand (s @ [c]) = Some (Some s, Some c)"
    using s [of "[c]"] assms(2)
    by (auto simp: match_shorthand_def is_number_char_def is_digit_def)
qed

section \<open>Properties\<close>

lemma dec_value_prod:
  assumes "list_all is_digit s" "s \<noteq> []" "dec_value s * k < 2 ^ 53" "0 < k" "dec_value s \<noteq> 0"
  shows "shorthand_number (Some s) = of_nat (dec_value s)"
    and "fl (shorthand_number (Some s) * of_nat k) = of_nat (dec_value s * k)"
proof -
  have "dec_value s \<le> dec_value s * k" using assms(4) by simp
  then have "dec_value s < 2 ^ 53" using assms(3) by linarith
  then have "fl (of_nat (dec_value s)) = of_nat (dec_value s)"
    using fl_of_int [of "int (dec_value s)"] by simp
  moreover have "js_Number s = Num (fl (of_nat (dec_value s)))"
  proof -
    have "hd s \<noteq> CHR ''-''" using assms(1,2) by (cases s) (auto simp: is_digit_def)
    with assms(1,2) show ?thesis by (simp add: js_Number_def decimal_def)
  qed
  ultimately show val: "shorthand_number (Some s) = of_nat (dec_value s)"
    using assms(5) by (simp add: shorthand_number_def)
  show "fl (shorthand_number (Some s) * of_nat k) = of_nat (dec_value s * k)"
    using fl_of_int [of "int (dec_value s * k)"] assms(3) unfolding val
    by (simp flip: of_nat_mult)
qed

text \<open>Digits read as their number, and a trailing k or m of either case multiplies them by a thousand
  or a million, exactly, up to the largest amounts a double holds. A zero is read as 1.\<close>

theorem shorthand_value:
  assumes "list_all is_digit s" "s \<noteq> []" "dec_value s * 1000000 < 2 ^ 53"
    and "v = (if dec_value s = 0 then 1 else of_nat (dec_value s))"
    and "(suffix, k) \<in> {([], 1), (''k'', 1000), (''K'', 1000), (''m'', 1000000), (''M'', 1000000)}"
  shows "convertNotionalShorthandToNumericValue (s @ suffix) = v * k
    \<and> (hasShorthandInput (s @ suffix) \<longleftrightarrow> suffix \<noteq> [])"
proof -
  have norm: "normalise_shorthand (s @ suffix) = s @ normalise_shorthand suffix"
    using assms(1) by (rule normalise_digits)
  have up: "normalise_shorthand [] = []" "normalise_shorthand ''k'' = ''K''" "normalise_shorthand ''K'' = ''K''"
    "normalise_shorthand ''m'' = ''M''" "normalise_shorthand ''M'' = ''M''"
    by code_simp+
  have zero: "shorthand_number (Some s) = 1" if "dec_value s = 0"
  proof -
    have "hd s \<noteq> CHR ''-''" using assms(1,2) by (cases s) (auto simp: is_digit_def)
    then show ?thesis
      using assms(1,2) that by (simp add: shorthand_number_def js_Number_def decimal_def fl_def)
  qed
  have v: "shorthand_number (Some s) = v"
    using assms(4) zero dec_value_prod(1) [OF assms(1,2,3)] by auto
  have exact: "fl (1000::rat) = 1000" "fl (1000000::rat) = 1000000"
    using fl_of_int [of 1000] fl_of_int [of 1000000] by simp_all
  have times: "fl (v * 1000) = v * 1000" "fl (v * 1000000) = v * 1000000"
    using assms(3,4) exact dec_value_prod(2) [OF assms(1,2), of 1000] dec_value_prod(2) [OF assms(1,2), of 1000000] v
    by (auto split: if_splits)
  note match = match_digits [OF assms(1,2)]
  have "convertNotionalShorthandToNumericValue (s @ suffix) = v * k"
    using assms(2,5) match(1) match(2) [of "CHR ''K''"] match(2) [of "CHR ''M''"]
    by (auto simp: convertNotionalShorthandToNumericValue_def norm up v times)
  moreover have "hasShorthandInput (s @ suffix) \<longleftrightarrow> suffix \<noteq> []"
    using assms(5) match(1) match(2) [of "CHR ''K''"] match(2) [of "CHR ''M''"]
    by (auto simp: hasShorthandInput_def norm up)
  ultimately show ?thesis by simp
qed

lemma shorthand_value_witness:
  "convertNotionalShorthandToNumericValue ''25k'' = 25000 \<and> convertNotionalShorthandToNumericValue ''0'' = 1"
proof
  have digits: "list_all is_digit ''25''" "dec_value ''25'' = 25" "list_all is_digit ''0''" "dec_value ''0'' = 0"
    by code_simp+
  show "convertNotionalShorthandToNumericValue ''25k'' = 25000"
    using shorthand_value [of "''25''" 25 "''k''" 1000] digits by simp
  show "convertNotionalShorthandToNumericValue ''0'' = 1"
    using shorthand_value [of "''0''" 1 "[]" 1] digits by simp
qed

end
