(* ===== verification/Heartbeats.thy ===== *)
theory Heartbeats imports Connections Runtime begin

text \<open>
  The service instances a \<open>ServiceClient\<close> knows: \<open>serviceInstanceStatus.js\<close>, \<open>serviceStatus.js\<close>,
  \<open>lastValueObservable.js\<close>, \<open>lastValueObservableDictionary.js\<close>, the stream operators of
  \<open>serviceObservableExtensions.js\<close> and the stream \<open>_createServiceInstanceDictionaryStream\<close> that
  \<open>serviceClient.js\<close> builds from them.

  The stream is one handler. Its groups are the inner observables of \<open>groupBy\<close>, each with the
  timer of \<open>debounceWithSelector\<close> (a deadline in milliseconds) and the last key of
  \<open>distinctUntilChanged\<close>; its dictionary is the one \<open>toServiceStatusObservableDictionary\<close> mutates and
  the \<open>BehaviorSubject\<close> holds. An error of the inner stream (the connection goes down, a heartbeat
  cannot be read, the topic fails) takes everything down at once: \<open>catch\<close> yields an empty dictionary
  and \<open>repeat\<close> starts over as soon as the connection is up. A transition system over the handler
  adds the clock: a timer fires when the clock stands at its deadline, and the clock does not pass
  a deadline that has not fired.
\<close>

section \<open>Status of an instance and of a service\<close>

record service_instance_status =
  si_serviceType :: string
  si_serviceId :: string
  si_timestamp :: jsnum
  si_serviceLoad :: jsnum
  si_isConnected :: bool

definition new_service_instance_status ::
    "string \<Rightarrow> string \<Rightarrow> jsnum \<Rightarrow> jsnum \<Rightarrow> bool \<Rightarrow> service_instance_status result" where
  "new_service_instance_status serviceType serviceId timestamp serviceLoad isConnected =
     bind_result (Guard_stringIsNotEmpty (JString serviceType) (JString ''serviceType must be as string and not empty'')) (\<lambda>u.
     bind_result (Guard_stringIsNotEmpty (JString serviceId) (JString ''serviceId must be as string and not empty'')) (\<lambda>u.
       Inr \<lparr>si_serviceType = serviceType, si_serviceId = serviceId, si_timestamp = timestamp,
            si_serviceLoad = serviceLoad, si_isConnected = isConnected\<rparr>))"

definition createForDisconnected :: "string \<Rightarrow> string \<Rightarrow> service_instance_status result" where
  "createForDisconnected serviceType serviceId =
     new_service_instance_status serviceType serviceId NaN NaN False"

definition createForConnected :: "string \<Rightarrow> string \<Rightarrow> rat \<Rightarrow> rat \<Rightarrow> service_instance_status result" where
  "createForConnected serviceType serviceId timestamp serviceLoad =
     new_service_instance_status serviceType serviceId (Num timestamp) (Num serviceLoad) True"

record service_status =
  ss_serviceType :: string
  ss_instanceStatuses :: "service_instance_status list"
  ss_isConnected :: bool
  ss_connectedInstanceCount :: nat

definition new_service_status :: "string \<Rightarrow> service_instance_status list \<Rightarrow> bool \<Rightarrow> service_status" where
  "new_service_status serviceType instanceStatuses isConnected =
     \<lparr>ss_serviceType = serviceType, ss_instanceStatuses = instanceStatuses, ss_isConnected = isConnected,
      ss_connectedInstanceCount = length (filter si_isConnected instanceStatuses)\<rparr>"

definition getInstanceStatus :: "service_status \<Rightarrow> string \<Rightarrow> service_instance_status option" where
  "getInstanceStatus ss serviceId = find (\<lambda>inst. si_serviceId inst = serviceId) (ss_instanceStatuses ss)"

section \<open>Dictionaries of last values\<close>

text \<open>The stream of a last value is the group it came from, named by its key.\<close>

record last_value_observable =
  lv_latestValue :: service_instance_status
  lv_stream :: string

record last_value_dictionary =
  lvd_values :: "last_value_observable object"
  lvd_version :: nat

definition empty_dictionary :: last_value_dictionary where
  "empty_dictionary = \<lparr>lvd_values = [], lvd_version = 0\<rparr>"

definition lvd_hasKey :: "last_value_dictionary \<Rightarrow> string \<Rightarrow> bool" where
  "lvd_hasKey d key = obj_has (lvd_values d) key"

definition lvd_add :: "string \<Rightarrow> last_value_observable \<Rightarrow> last_value_dictionary \<Rightarrow> last_value_dictionary" where
  "lvd_add key v d = \<lparr>lvd_values = obj_set key v (lvd_values d), lvd_version = Suc (lvd_version d)\<rparr>"

definition lvd_updateWithLatestValue ::
    "string \<Rightarrow> service_instance_status \<Rightarrow> last_value_dictionary \<Rightarrow> last_value_dictionary result" where
  "lvd_updateWithLatestValue key latestValue d =
     (case obj_get (lvd_values d) key of
        None \<Rightarrow> Inl (TypeError ''Cannot set property latestValue of undefined'')
      | Some lv \<Rightarrow>
          Inr \<lparr>lvd_values = obj_set key (lv\<lparr>lv_latestValue := latestValue\<rparr>) (lvd_values d),
               lvd_version = Suc (lvd_version d)\<rparr>)"

text \<open>One value of an inner stream, as \<open>toServiceStatusObservableDictionary\<close> stores it.\<close>

definition dictionary_value :: "string \<Rightarrow> service_instance_status \<Rightarrow> last_value_dictionary \<Rightarrow> last_value_dictionary" where
  "dictionary_value stream v d =
     (let key = si_serviceId v
      in if \<not> lvd_hasKey d key then lvd_add key \<lparr>lv_latestValue = v, lv_stream = stream\<rparr> d
         else case lvd_updateWithLatestValue key v d of Inr d' \<Rightarrow> d' | Inl e \<Rightarrow> d)"

definition createServiceStatus :: "string \<Rightarrow> last_value_dictionary \<Rightarrow> service_status" where
  "createServiceStatus serviceType cache =
     (let serviceInstanceStatuses = map lv_latestValue (obj_values (lvd_values cache));
          isConnected = list_ex (\<lambda>item. si_isConnected (lv_latestValue item)) (obj_values (lvd_values cache))
      in new_service_status serviceType serviceInstanceStatuses isConnected)"

text \<open>\<open>sortBy\<close> is lodash's: it permutes and sorts by the keys, ascending, \<open>NaN\<close> last.\<close>

type_synonym load_sort = "(last_value_observable \<Rightarrow> jsnum) \<Rightarrow> last_value_observable list \<Rightarrow> last_value_observable list"

definition sorts_by :: "load_sort \<Rightarrow> bool" where
  "sorts_by sortBy \<longleftrightarrow> (\<forall>f xs. set (sortBy f xs) = set xs \<and> sorted (map f (sortBy f xs)))"

definition serviceWithLeastLoad :: "load_sort \<Rightarrow> last_value_dictionary \<Rightarrow> last_value_observable option" where
  "serviceWithLeastLoad sortBy dict =
     find (\<lambda>i. si_isConnected (lv_latestValue i))
       (sortBy (\<lambda>i. si_serviceLoad (lv_latestValue i)) (obj_values (lvd_values dict)))"

section \<open>The stream of dictionaries\<close>

definition HEARTBEAT_TIMEOUT :: nat where
  "HEARTBEAT_TIMEOUT = 3000"

record status_dto =
  st_Type :: string
  st_Instance :: string
  st_TimeStamp :: rat
  st_Load :: rat

text \<open>The key of \<open>distinctUntilChanged\<close> joins four fields; within a group the first two are fixed.\<close>

type_synonym status_key = "string \<times> string \<times> bool \<times> jsnum"

definition status_key :: "service_instance_status \<Rightarrow> status_key" where
  "status_key status = (si_serviceType status, si_serviceId status, si_isConnected status, si_serviceLoad status)"

record group =
  gp_timer :: "nat option"
  gp_lastKey :: "status_key option"

record heartbeats =
  hb_now :: nat
  hb_active :: bool
  hb_groups :: "group object"
  hb_dictionary :: last_value_dictionary

datatype heartbeat_event =
    ConnectionIs bool
  | StatusMessage status_dto
  | TopicBroken js_error
  | Missed string
  | Advance nat

datatype heartbeat_call =
    SubscribeStatusTopic
  | EmitDictionary last_value_dictionary

definition new_heartbeats :: heartbeats where
  "new_heartbeats = \<lparr>hb_now = 0, hb_active = False, hb_groups = [], hb_dictionary = empty_dictionary\<rparr>"

text \<open>\<open>catch\<close> and \<open>repeat\<close>: \<open>up\<close> tells whether the connection is up, so that the stream starts over.\<close>

definition hb_restart :: "bool \<Rightarrow> heartbeats \<Rightarrow> heartbeats \<times> heartbeat_call list" where
  "hb_restart up s =
     (s\<lparr>hb_active := up, hb_groups := [], hb_dictionary := empty_dictionary\<rparr>,
      EmitDictionary empty_dictionary # (if up then [SubscribeStatusTopic] else []))"

text \<open>A value that passed the debounce of its group, down to the dictionary.\<close>

definition hb_value :: "string \<Rightarrow> group \<Rightarrow> service_instance_status \<Rightarrow> heartbeats \<Rightarrow> heartbeats \<times> heartbeat_call list" where
  "hb_value key g v s =
     (if gp_lastKey g = Some (status_key v) then (s\<lparr>hb_groups := obj_set key g (hb_groups s)\<rparr>, [])
      else
        let d = dictionary_value key v (hb_dictionary s)
        in (s\<lparr>hb_groups := obj_set key (g\<lparr>gp_lastKey := Some (status_key v)\<rparr>) (hb_groups s), hb_dictionary := d\<rparr>,
            [EmitDictionary d]))"

definition group_of :: "string \<Rightarrow> heartbeats \<Rightarrow> group" where
  "group_of key s =
     (case obj_get (hb_groups s) key of None \<Rightarrow> \<lparr>gp_timer = None, gp_lastKey = None\<rparr> | Some g \<Rightarrow> g)"

fun heartbeat_step :: "string \<Rightarrow> (heartbeats, heartbeat_event, heartbeat_call) handler" where
  "heartbeat_step serviceType s (ConnectionIs up) =
     (if up then if hb_active s then (s, []) else (s\<lparr>hb_active := True\<rparr>, [SubscribeStatusTopic])
      else if hb_active s then hb_restart False s else (s, []))"
| "heartbeat_step serviceType s (StatusMessage status) =
     (if \<not> hb_active s \<or> st_Type status \<noteq> serviceType then (s, [])
      else case createForConnected (st_Type status) (st_Instance status) (st_TimeStamp status) (st_Load status) of
        Inl e \<Rightarrow> hb_restart True s
      | Inr v \<Rightarrow>
          let key = si_serviceId v
          in hb_value key ((group_of key s)\<lparr>gp_timer := Some (hb_now s + HEARTBEAT_TIMEOUT)\<rparr>) v s)"
| "heartbeat_step serviceType s (TopicBroken e) = (if hb_active s then hb_restart True s else (s, []))"
| "heartbeat_step serviceType s (Missed key) =
     (case createForDisconnected serviceType key of
        Inl e \<Rightarrow> (s, [])
      | Inr v \<Rightarrow> hb_value key ((group_of key s)\<lparr>gp_timer := None\<rparr>) v s)"
| "heartbeat_step serviceType s (Advance t) = (s\<lparr>hb_now := t\<rparr>, [])"

section \<open>The clock\<close>

inductive heartbeat_trans :: "string \<Rightarrow> heartbeats \<Rightarrow> heartbeat_event \<Rightarrow> heartbeats \<Rightarrow> bool"
  for serviceType :: string where
  external: "(\<forall>key. ev \<noteq> Missed key) \<Longrightarrow> (\<forall>t. ev \<noteq> Advance t) \<Longrightarrow>
     heartbeat_trans serviceType s ev (fst (heartbeat_step serviceType s ev))"
| timer: "obj_get (hb_groups s) key = Some g \<Longrightarrow> gp_timer g = Some (hb_now s) \<Longrightarrow>
     heartbeat_trans serviceType s (Missed key) (fst (heartbeat_step serviceType s (Missed key)))"
| clock: "hb_now s \<le> t \<Longrightarrow>
     (\<forall>key g d. obj_get (hb_groups s) key = Some g \<longrightarrow> gp_timer g = Some d \<longrightarrow> t \<le> d) \<Longrightarrow>
     heartbeat_trans serviceType s (Advance t) (fst (heartbeat_step serviceType s (Advance t)))"

inductive_cases heartbeat_transE: "heartbeat_trans serviceType s ev s'"

text \<open>A run records its events with the time they happened, latest first.\<close>

inductive heartbeat_run :: "string \<Rightarrow> (nat \<times> heartbeat_event) list \<Rightarrow> heartbeats \<Rightarrow> bool"
  for serviceType :: string where
  start: "heartbeat_run serviceType [] new_heartbeats"
| step: "heartbeat_run serviceType tr s \<Longrightarrow> heartbeat_trans serviceType s ev s' \<Longrightarrow>
     heartbeat_run serviceType ((hb_now s, ev) # tr) s'"

section \<open>Specification\<close>

text \<open>Read off the events alone: whether the connection is up, and when the last heartbeat of an
  instance came in since the stream last started over, with the load it told.\<close>

fun is_up :: "(nat \<times> heartbeat_event) list \<Rightarrow> bool" where
  "is_up [] = False"
| "is_up ((t, ConnectionIs up) # tr) = up"
| "is_up (_ # tr) = is_up tr"

fun last_beat :: "string \<Rightarrow> (nat \<times> heartbeat_event) list \<Rightarrow> string \<Rightarrow> (nat \<times> rat) option" where
  "last_beat ty [] key = None"
| "last_beat ty ((t, ConnectionIs up) # tr) key = (if up then last_beat ty tr key else None)"
| "last_beat ty ((t, TopicBroken e) # tr) key = None"
| "last_beat ty ((t, StatusMessage status) # tr) key =
     (if \<not> is_up tr \<or> st_Type status \<noteq> ty then last_beat ty tr key
      else if st_Instance status = '''' then None
      else if st_Instance status = key then Some (t, st_Load status) else last_beat ty tr key)"
| "last_beat ty ((t, ev) # tr) key = last_beat ty tr key"

text \<open>What the handler keeps for one instance, given the time of its last heartbeat.\<close>

definition tracks_in :: "string \<Rightarrow> nat \<Rightarrow> group option \<Rightarrow> last_value_observable option \<Rightarrow> string \<Rightarrow> (nat \<times> rat) option \<Rightarrow> bool" where
  "tracks_in ty now grp entry key beat \<longleftrightarrow>
     (case beat of
        None \<Rightarrow> grp = None \<and> entry = None
      | Some (t, load) \<Rightarrow> ty \<noteq> [] \<and> key \<noteq> [] \<and> (\<exists>g lv. grp = Some g \<and> entry = Some lv
          \<and> gp_lastKey g = Some (status_key (lv_latestValue lv))
          \<and> si_serviceId (lv_latestValue lv) = key \<and> si_serviceType (lv_latestValue lv) = ty \<and> lv_stream lv = key
          \<and> (case gp_timer g of
               Some d \<Rightarrow> d = t + HEARTBEAT_TIMEOUT \<and> now \<le> d \<and> si_isConnected (lv_latestValue lv)
                 \<and> si_serviceLoad (lv_latestValue lv) = Num load
             | None \<Rightarrow> t + HEARTBEAT_TIMEOUT \<le> now \<and> \<not> si_isConnected (lv_latestValue lv))))"

definition tracks :: "string \<Rightarrow> heartbeats \<Rightarrow> string \<Rightarrow> (nat \<times> rat) option \<Rightarrow> bool" where
  "tracks ty s key beat \<longleftrightarrow>
     tracks_in ty (hb_now s) (obj_get (hb_groups s) key) (obj_get (lvd_values (hb_dictionary s)) key) key beat"

section \<open>Lemmas\<close>

lemma new_service_instance_status_ok:
  "new_service_instance_status ty key ts load c = Inr v \<longleftrightarrow> ty \<noteq> [] \<and> key \<noteq> []
     \<and> v = \<lparr>si_serviceType = ty, si_serviceId = key, si_timestamp = ts, si_serviceLoad = load, si_isConnected = c\<rparr>"
  by (auto simp: new_service_instance_status_def Guard_stringIsNotEmpty_def guard_if_cases)

lemma new_service_instance_status_error:
  "(\<exists>e. new_service_instance_status ty key ts load c = Inl e) \<longleftrightarrow> ty = [] \<or> key = []"
  by (auto simp: new_service_instance_status_def Guard_stringIsNotEmpty_def guard_if_cases)

lemmas status_ok = createForConnected_def createForDisconnected_def new_service_instance_status_ok

lemma dictionary_value_get:
  "obj_get (lvd_values (dictionary_value key v d)) k =
     (if k = si_serviceId v
      then Some \<lparr>lv_latestValue = v,
        lv_stream = (case obj_get (lvd_values d) k of None \<Rightarrow> key | Some lv \<Rightarrow> lv_stream lv)\<rparr>
      else obj_get (lvd_values d) k)"
  by (auto simp: dictionary_value_def lvd_hasKey_def lvd_add_def lvd_updateWithLatestValue_def Let_def
      obj_has_def obj_get_set split: option.split)

lemma hb_value_get:
  assumes "si_serviceId v = key"
  shows "hb_now (fst (hb_value key g v s)) = hb_now s" "hb_active (fst (hb_value key g v s)) = hb_active s"
    "k \<noteq> key \<Longrightarrow> obj_get (hb_groups (fst (hb_value key g v s))) k = obj_get (hb_groups s) k"
    "k \<noteq> key \<Longrightarrow> obj_get (lvd_values (hb_dictionary (fst (hb_value key g v s)))) k = obj_get (lvd_values (hb_dictionary s)) k"
    "obj_get (hb_groups (fst (hb_value key g v s))) key = Some (g\<lparr>gp_lastKey := Some (status_key v)\<rparr>)"
  using assms by (cases g; auto simp: hb_value_def Let_def obj_get_set dictionary_value_get)+

lemma hb_value_dictionary:
  assumes "si_serviceId v = key"
  shows "hb_dictionary (fst (hb_value key g v s)) =
    (if gp_lastKey g = Some (status_key v) then hb_dictionary s else dictionary_value key v (hb_dictionary s))"
  by (simp add: hb_value_def Let_def)

lemma tracks_other:
  assumes "tracks ty s k beat" "k \<noteq> key" "si_serviceId v = key"
  shows "tracks ty (fst (hb_value key g v s)) k beat"
  using assms(1) hb_value_get(1,3,4) [OF assms(3)] assms(2) by (simp add: tracks_def)

text \<open>A value of the instance itself: the dictionary ends with a status of its key.\<close>

lemma tracks_value:
  assumes tr: "tracks ty s key beat" and v: "si_serviceId v = key" "si_serviceType v = ty"
    and g: "gp_lastKey g = gp_lastKey (group_of key s)" and names: "ty \<noteq> []" "key \<noteq> []"
    and time: "case gp_timer g of Some d \<Rightarrow> d = t + HEARTBEAT_TIMEOUT \<and> hb_now s \<le> d \<and> si_isConnected v \<and> si_serviceLoad v = Num load
      | None \<Rightarrow> t + HEARTBEAT_TIMEOUT \<le> hb_now s \<and> \<not> si_isConnected v"
  shows "tracks ty (fst (hb_value key g v s)) key (Some (t, load))"
proof -
  have "\<exists>lv. obj_get (lvd_values (hb_dictionary (fst (hb_value key g v s)))) key = Some lv
      \<and> status_key (lv_latestValue lv) = status_key v \<and> lv_stream lv = key"
  proof (cases "gp_lastKey g = Some (status_key v)")
    case True
    with tr g show ?thesis
      by (auto simp: hb_value_dictionary [OF v(1)] tracks_def tracks_in_def group_of_def split: option.splits)
  next
    case False
    with tr show ?thesis
      by (auto simp: hb_value_dictionary [OF v(1)] dictionary_value_get v(1) tracks_def tracks_in_def split: option.splits)
  qed
  then show ?thesis
    using names time v hb_value_get(1,5) [OF v(1), of g s]
    by (auto simp: tracks_def tracks_in_def status_key_def split: option.splits)
qed

lemma tracks_reset:
  "tracks ty (fst (hb_restart up s)) key None"
  by (simp add: tracks_def tracks_in_def hb_restart_def empty_dictionary_def)

definition tracks_all :: "string \<Rightarrow> heartbeats \<Rightarrow> (nat \<times> heartbeat_event) list \<Rightarrow> bool" where
  "tracks_all ty s tr \<longleftrightarrow> hb_active s = is_up tr \<and> (\<forall>key. tracks ty s key (last_beat ty tr key))"

lemma tracks_active [simp]: "tracks ty (s\<lparr>hb_active := b\<rparr>) key beat = tracks ty s key beat"
  by (simp add: tracks_def)

lemma last_beat_down: "\<not> is_up tr \<Longrightarrow> last_beat ty tr key = None"
proof (induction tr)
  case (Cons e tr)
  obtain t ev where "e = (t, ev)" by (cases e)
  with Cons show ?case by (cases ev) auto
qed simp

lemma tracks_all_message:
  assumes "tracks_all ty s tr" "ty \<noteq> []"
  shows "tracks_all ty (fst (heartbeat_step ty s (StatusMessage status))) ((hb_now s, StatusMessage status) # tr)"
proof (cases "hb_active s \<and> st_Type status = ty")
  case False
  with assms show ?thesis by (auto simp: tracks_all_def)
next
  case True
  note on = True
  show ?thesis
  proof (cases "st_Instance status = []")
    case True
    with on obtain e where "createForConnected (st_Type status) (st_Instance status) (st_TimeStamp status) (st_Load status) = Inl e"
      using new_service_instance_status_error unfolding createForConnected_def by blast
    with on True assms show ?thesis
      by (auto simp: tracks_all_def tracks_reset) (simp add: hb_restart_def)
  next
    case False
    define v where "v = \<lparr>si_serviceType = st_Type status, si_serviceId = st_Instance status,
      si_timestamp = Num (st_TimeStamp status), si_serviceLoad = Num (st_Load status), si_isConnected = True\<rparr>"
    have v: "createForConnected (st_Type status) (st_Instance status) (st_TimeStamp status) (st_Load status) = Inr v"
      using on False assms(2) by (simp add: status_ok v_def)
    let ?key = "st_Instance status"
    let ?g = "(group_of ?key s)\<lparr>gp_timer := Some (hb_now s + HEARTBEAT_TIMEOUT)\<rparr>"
    have key: "si_serviceId v = ?key" "si_serviceType v = ty" "si_isConnected v"
      using on by (simp_all add: v_def)
    have step: "fst (heartbeat_step ty s (StatusMessage status)) = fst (hb_value ?key ?g v s)"
      using on v key by (simp add: Let_def)
    have "tracks ty (fst (hb_value ?key ?g v s)) ?key (Some (hb_now s, st_Load status))"
      by (rule tracks_value [where beat = "last_beat ty tr ?key"])
        (use assms False key in \<open>simp_all add: tracks_all_def v_def\<close>)
    moreover have "tracks ty (fst (hb_value ?key ?g v s)) k (last_beat ty tr k)" if "k \<noteq> ?key" for k
      using tracks_other [OF _ that key(1)] assms by (simp add: tracks_all_def)
    ultimately show ?thesis
      using on False assms hb_value_get(2) [OF key(1), of ?g s] unfolding tracks_all_def step by auto
  qed
qed

lemma tracks_all_missed:
  assumes "tracks_all ty s tr" "obj_get (hb_groups s) key = Some g" "gp_timer g = Some (hb_now s)"
  shows "tracks_all ty (fst (heartbeat_step ty s (Missed key))) ((hb_now s, Missed key) # tr)"
proof -
  have tr: "tracks ty s key (last_beat ty tr key)" using assms(1) by (simp add: tracks_all_def)
  then obtain t load where t: "last_beat ty tr key = Some (t, load)" "ty \<noteq> []" "key \<noteq> []" "hb_now s = t + HEARTBEAT_TIMEOUT"
    using assms(2,3) by (auto simp: tracks_def tracks_in_def split: option.splits)
  define v where "v = \<lparr>si_serviceType = ty, si_serviceId = key, si_timestamp = NaN, si_serviceLoad = NaN, si_isConnected = False\<rparr>"
  have v: "createForDisconnected ty key = Inr v" using t by (simp add: status_ok v_def)
  let ?g = "(group_of key s)\<lparr>gp_timer := None\<rparr>"
  have key: "si_serviceId v = key" "si_serviceType v = ty" "\<not> si_isConnected v" by (simp_all add: v_def)
  have step: "fst (heartbeat_step ty s (Missed key)) = fst (hb_value key ?g v s)" using v by simp
  have "tracks ty (fst (hb_value key ?g v s)) key (Some (t, load))"
    by (rule tracks_value [OF tr]) (use t key in simp_all)
  moreover have "tracks ty (fst (hb_value key ?g v s)) k (last_beat ty tr k)" if "k \<noteq> key" for k
    using tracks_other [OF _ that key(1)] assms(1) by (simp add: tracks_all_def)
  ultimately have "tracks ty (fst (hb_value key ?g v s)) k (last_beat ty tr k)" for k
    using t(1) by (cases "k = key") simp_all
  then show ?thesis
    using assms(1) hb_value_get(2) [OF key(1), of ?g s] unfolding tracks_all_def step by simp
qed

lemma tracks_all_clock:
  assumes "tracks_all ty s tr" "hb_now s \<le> t"
    and "\<forall>key g d. obj_get (hb_groups s) key = Some g \<longrightarrow> gp_timer g = Some d \<longrightarrow> t \<le> d"
  shows "tracks_all ty (fst (heartbeat_step ty s (Advance t))) ((hb_now s, Advance t) # tr)"
proof -
  have "tracks ty (s\<lparr>hb_now := t\<rparr>) key (last_beat ty tr key)" for key
  proof -
    have "tracks ty s key (last_beat ty tr key)" using assms(1) by (simp add: tracks_all_def)
    then show ?thesis using assms(2,3) by (fastforce simp: tracks_def tracks_in_def split: option.splits)
  qed
  then show ?thesis using assms(1) by (simp add: tracks_all_def)
qed

lemma tracks_all_restart:
  assumes "tracks_all ty s tr"
  shows "tracks_all ty (fst (heartbeat_step ty s (ConnectionIs up))) ((hb_now s, ConnectionIs up) # tr)"
    and "tracks_all ty (fst (heartbeat_step ty s (TopicBroken e))) ((hb_now s, TopicBroken e) # tr)"
  using assms last_beat_down [of tr ty]
  by (auto simp: tracks_all_def tracks_reset) (auto simp: hb_restart_def)

lemma heartbeat_run_tracks:
  assumes "heartbeat_run ty tr s" "ty \<noteq> []"
  shows "tracks_all ty s tr"
  using assms
proof (induction rule: heartbeat_run.induct)
  case start
  then show ?case by (simp add: tracks_all_def tracks_def tracks_in_def new_heartbeats_def empty_dictionary_def)
next
  case (step tr s ev s')
  then have IH: "tracks_all ty s tr" by simp
  from step(2) show ?case
  proof (cases rule: heartbeat_trans.cases)
    case external
    with IH step.prems tracks_all_message tracks_all_restart show ?thesis by (cases ev) auto
  next
    case (timer key g)
    with IH tracks_all_missed show ?thesis by auto
  next
    case (clock t)
    with IH tracks_all_clock show ?thesis by simp
  qed
qed

lemma in_dictionary_group:
  "heartbeat_run ty tr s \<Longrightarrow> ty \<noteq> [] \<Longrightarrow> tracks ty s key (last_beat ty tr key)"
  using heartbeat_run_tracks by (simp add: tracks_all_def)

text \<open>The dictionary keeps its keys apart.\<close>

lemma dictionary_value_ok: "obj_ok (lvd_values d) \<Longrightarrow> obj_ok (lvd_values (dictionary_value key v d))"
  by (auto simp: dictionary_value_def lvd_add_def lvd_updateWithLatestValue_def Let_def split: option.split)

lemma heartbeat_step_ok:
  "obj_ok (lvd_values (hb_dictionary s)) \<Longrightarrow> obj_ok (lvd_values (hb_dictionary (fst (heartbeat_step ty s ev))))"
  by (cases ev) (auto simp: hb_restart_def empty_dictionary_def hb_value_def Let_def dictionary_value_ok split: sum.split)

lemma heartbeat_run_ok: "heartbeat_run ty tr s \<Longrightarrow> obj_ok (lvd_values (hb_dictionary s))"
proof (induction rule: heartbeat_run.induct)
  case (step tr s ev s')
  from step(2) step(3) show ?case
    by (cases rule: heartbeat_trans.cases) (simp_all only: heartbeat_step_ok)
qed (simp add: new_heartbeats_def empty_dictionary_def)

text \<open>The service with the least load, for any sort that does what lodash documents.\<close>

lemma find_sorted:
  assumes "sorted (map f xs)" "find P xs = Some x" "y \<in> set xs" "P y"
  shows "f x \<le> f y"
  using assms
proof (induction xs)
  case (Cons a xs)
  show ?case
  proof (cases "P a")
    case True
    with Cons.prems show ?thesis by auto
  next
    case False
    with Cons show ?thesis by auto
  qed
qed simp

lemma find_None_iff2: "find P xs = None \<longleftrightarrow> (\<forall>x \<in> set xs. \<not> P x)"
  by (auto simp: find_None_iff)

section \<open>Properties\<close>

text \<open>C5: an instance is known exactly when a heartbeat of it has arrived since the stream last started
  over; it is connected, with the load that heartbeat told, while the heartbeat is less than three seconds
  old, and disconnected once it is more, in any order of heartbeats, timers and connection changes.\<close>

theorem heartbeat_decides_connected:
  assumes "heartbeat_run ty tr s" "ty \<noteq> []"
  shows "case last_beat ty tr key of
      None \<Rightarrow> \<not> lvd_hasKey (hb_dictionary s) key
    | Some (t, load) \<Rightarrow> \<exists>lv. obj_get (lvd_values (hb_dictionary s)) key = Some lv
        \<and> si_serviceId (lv_latestValue lv) = key
        \<and> (hb_now s < t + 3000 \<longrightarrow> si_isConnected (lv_latestValue lv) \<and> si_serviceLoad (lv_latestValue lv) = Num load)
        \<and> (t + 3000 < hb_now s \<longrightarrow> \<not> si_isConnected (lv_latestValue lv))"
  using in_dictionary_group [OF assms, of key]
  by (auto simp: tracks_def tracks_in_def lvd_hasKey_def obj_has_def HEARTBEAT_TIMEOUT_def split: option.splits)

definition beat :: "string \<Rightarrow> rat \<Rightarrow> heartbeat_event" where
  "beat i load = StatusMessage \<lparr>st_Type = ''pricing'', st_Instance = i, st_TimeStamp = 1, st_Load = load\<rparr>"

text \<open>One heartbeat of one instance, then silence for three seconds.\<close>

definition example_trace :: "(nat \<times> heartbeat_event) list" where
  "example_trace = [(3000, Missed ''p1''), (0, Advance 3000), (0, beat ''p1'' 2), (0, ConnectionIs True)]"

lemma example_run:
  "\<exists>s. heartbeat_run ''pricing'' example_trace s \<and> hb_now s = 3000
     \<and> \<not> si_isConnected (lv_latestValue (the (obj_get (lvd_values (hb_dictionary s)) ''p1'')))"
proof -
  let ?step = "\<lambda>s ev. fst (heartbeat_step ''pricing'' s ev)"
  let ?s1 = "?step new_heartbeats (ConnectionIs True)"
  let ?s2 = "?step ?s1 (beat ''p1'' 2)"
  let ?s3 = "?step ?s2 (Advance 3000)"
  let ?s4 = "?step ?s3 (Missed ''p1'')"
  have msg: "createForConnected ''pricing'' ''p1'' 1 2 =
      Inr \<lparr>si_serviceType = ''pricing'', si_serviceId = ''p1'', si_timestamp = Num 1, si_serviceLoad = Num 2, si_isConnected = True\<rparr>"
    and gone: "createForDisconnected ''pricing'' ''p1'' =
      Inr \<lparr>si_serviceType = ''pricing'', si_serviceId = ''p1'', si_timestamp = NaN, si_serviceLoad = NaN, si_isConnected = False\<rparr>"
    by (simp_all add: status_ok)
  have groups: "hb_now ?s2 = 0"
    "hb_groups ?s2 = [(''p1'', \<lparr>gp_timer = Some 3000,
       gp_lastKey = Some (''pricing'', ''p1'', True, Num 2)\<rparr>)]"
    by (simp_all add: new_heartbeats_def beat_def msg hb_value_def group_of_def status_key_def Let_def HEARTBEAT_TIMEOUT_def)
  have "heartbeat_run ''pricing'' [(0, ConnectionIs True)] ?s1"
    using heartbeat_run.step [OF heartbeat_run.start heartbeat_trans.external, of "ConnectionIs True" "''pricing''"]
    by (simp add: new_heartbeats_def)
  from heartbeat_run.step [OF this heartbeat_trans.external, of "beat ''p1'' 2"]
  have "heartbeat_run ''pricing'' [(0, beat ''p1'' 2), (0, ConnectionIs True)] ?s2"
    by (simp add: beat_def new_heartbeats_def)
  from heartbeat_run.step [OF this heartbeat_trans.clock, of 3000]
  have "heartbeat_run ''pricing'' [(0, Advance 3000), (0, beat ''p1'' 2), (0, ConnectionIs True)] ?s3"
    using groups by (simp del: heartbeat_step.simps(1,2,3,4))
  from heartbeat_run.step [OF this heartbeat_trans.timer, of "''p1''" "\<lparr>gp_timer = Some 3000,
       gp_lastKey = Some (''pricing'', ''p1'', True, Num 2)\<rparr>"]
  have "heartbeat_run ''pricing'' example_trace ?s4"
    using groups by (simp add: example_trace_def del: heartbeat_step.simps(1,2,3,4))
  moreover have "hb_now ?s4 = 3000"
    "\<not> si_isConnected (lv_latestValue (the (obj_get (lvd_values (hb_dictionary ?s4)) ''p1'')))"
    by (simp_all add: new_heartbeats_def beat_def msg gone hb_value_def group_of_def status_key_def Let_def
        dictionary_value_get)
  ultimately show ?thesis by blast
qed

lemma heartbeat_decides_connected_witness:
  "\<exists>s lv. heartbeat_run ''pricing'' example_trace s
     \<and> obj_get (lvd_values (hb_dictionary s)) ''p1'' = Some lv \<and> si_serviceId (lv_latestValue lv) = ''p1''"
proof -
  obtain s where s: "heartbeat_run ''pricing'' example_trace s" using example_run by blast
  have "last_beat ''pricing'' example_trace ''p1'' = Some (0, 2)" by (simp add: example_trace_def beat_def)
  with heartbeat_decides_connected [OF s, of "''p1''"] s show ?thesis by auto
qed

text \<open>The summary of a service is connected exactly when it counts at least one connected instance,
  which is when some instance is connected in the dictionary, and it finds each instance it lists by
  its id.\<close>

theorem service_status_summary:
  assumes "heartbeat_run ty tr s" "ty \<noteq> []" "summary = createServiceStatus ty (hb_dictionary s)"
  shows "(ss_isConnected summary \<longleftrightarrow> 0 < ss_connectedInstanceCount summary)
    \<and> (ss_isConnected summary \<longleftrightarrow> (\<exists>key lv. obj_get (lvd_values (hb_dictionary s)) key = Some lv \<and> si_isConnected (lv_latestValue lv)))
    \<and> getInstanceStatus summary key = map_option lv_latestValue (obj_get (lvd_values (hb_dictionary s)) key)"
proof -
  let ?d = "lvd_values (hb_dictionary s)"
  have ok: "obj_ok ?d" using assms(1) by (rule heartbeat_run_ok)
  have ids: "si_serviceId (lv_latestValue lv) = k" if "obj_get ?d k = Some lv" for k lv
    using that in_dictionary_group [OF assms(1,2), of k] by (auto simp: tracks_def tracks_in_def split: option.splits)
  have conn: "ss_isConnected summary \<longleftrightarrow> (\<exists>key lv. obj_get ?d key = Some lv \<and> si_isConnected (lv_latestValue lv))"
    unfolding assms(3) createServiceStatus_def new_service_status_def Let_def list_ex_iff
    using obj_values_iff [OF ok] by (simp, blast)
  have count: "ss_isConnected summary \<longleftrightarrow> 0 < ss_connectedInstanceCount summary"
    by (auto simp: assms(3) createServiceStatus_def new_service_status_def Let_def list_ex_iff filter_empty_conv)
  have find_alist: "find (\<lambda>inst. si_serviceId inst = key) (map lv_latestValue (map snd xs)) =
      map_option lv_latestValue (map_of xs key)"
    if "\<forall>(k, lv) \<in> set xs. si_serviceId (lv_latestValue lv) = k" for xs
    using that by (induction xs) auto
  have "\<forall>(k, lv) \<in> set ?d. si_serviceId (lv_latestValue lv) = k"
    using ids ok by (auto simp: obj_ok_def)
  from find_alist [OF this] have "getInstanceStatus summary key = map_option lv_latestValue (obj_get ?d key)"
    by (simp add: assms(3) getInstanceStatus_def createServiceStatus_def new_service_status_def Let_def obj_values_def)
  with conn count show ?thesis by blast
qed

lemma service_status_summary_witness:
  "\<exists>s. heartbeat_run ''pricing'' example_trace s
     \<and> getInstanceStatus (createServiceStatus ''pricing'' (hb_dictionary s)) ''p1'' =
        map_option lv_latestValue (obj_get (lvd_values (hb_dictionary s)) ''p1'')"
proof -
  obtain s where s: "heartbeat_run ''pricing'' example_trace s" using example_run by blast
  with service_status_summary [OF s _ refl, of "''p1''"] show ?thesis by auto
qed

text \<open>An operation is sent to a connected instance with the least load of the connected ones, and to
  none exactly when no instance is connected, for every sort that orders as lodash documents.\<close>

theorem least_load_chosen:
  assumes "sorts_by sortBy"
  shows "case serviceWithLeastLoad sortBy d of
      None \<Rightarrow> \<forall>lv \<in> set (obj_values (lvd_values d)). \<not> si_isConnected (lv_latestValue lv)
    | Some lv \<Rightarrow> lv \<in> set (obj_values (lvd_values d)) \<and> si_isConnected (lv_latestValue lv)
        \<and> (\<forall>lv' \<in> set (obj_values (lvd_values d)). si_isConnected (lv_latestValue lv') \<longrightarrow>
             si_serviceLoad (lv_latestValue lv) \<le> si_serviceLoad (lv_latestValue lv'))"
proof -
  let ?f = "\<lambda>i. si_serviceLoad (lv_latestValue i)" and ?vs = "obj_values (lvd_values d)"
  have s: "set (sortBy ?f ?vs) = set ?vs" "sorted (map ?f (sortBy ?f ?vs))"
    using assms by (simp_all add: sorts_by_def)
  show ?thesis
  proof (cases "serviceWithLeastLoad sortBy d")
    case None
    then have "\<forall>lv \<in> set ?vs. \<not> si_isConnected (lv_latestValue lv)"
      using s(1) by (simp add: serviceWithLeastLoad_def find_None_iff2)
    with None show ?thesis by simp
  next
    case (Some lv)
    then have f: "find (\<lambda>i. si_isConnected (lv_latestValue i)) (sortBy ?f ?vs) = Some lv"
      by (simp add: serviceWithLeastLoad_def)
    then have "lv \<in> set ?vs" "si_isConnected (lv_latestValue lv)"
      using s(1) by (auto simp: find_Some_iff)
    with find_sorted [OF s(2) f] s(1) Some show ?thesis by simp
  qed
qed

definition example_instances :: last_value_dictionary where
  "example_instances = \<lparr>lvd_values = map (\<lambda>(i, load, c). (i, \<lparr>lv_latestValue =
      \<lparr>si_serviceType = ''pricing'', si_serviceId = i, si_timestamp = Num 1, si_serviceLoad = load, si_isConnected = c\<rparr>,
      lv_stream = i\<rparr>)) [(''p1'', Num 7, True), (''p2'', NaN, False), (''p3'', Num 2, True)], lvd_version = 3\<rparr>"

lemma least_load_chosen_witness:
  "\<exists>lv. serviceWithLeastLoad (\<lambda>f. sort_key f) example_instances = Some lv \<and> si_isConnected (lv_latestValue lv)"
proof -
  have "sorts_by (\<lambda>f. sort_key f)" by (simp add: sorts_by_def)
  from least_load_chosen [OF this, of example_instances] show ?thesis
    by (auto simp: example_instances_def obj_values_def split: option.splits)
qed

end
