(* ===== verification/ServiceOps.thy ===== *)
theory ServiceOps imports Heartbeats begin

text \<open>
  The operations of \<open>serviceClient.js\<close>, \<open>createRequestResponseOperation\<close> and \<open>createStreamOperation\<close>,
  with \<open>getServiceWithMinLoad\<close> of \<open>serviceObservableExtensions.js\<close> under them, for one subscriber. An
  operation waits for a dictionary with a connected instance, sends its request to the one with the
  least load, and from then on watches that instance's status: a status that is not connected ends
  it with an error.

  \<open>getServiceWithMinLoad\<close> means to stop listening to the dictionaries once it has found an instance.
  The subscription is stored in \<open>findServiceInstanceDisposable\<close> only when \<open>source.subscribe\<close> returns,
  and the \<open>BehaviorSubject\<close> behind the source yields its dictionary before that, so that the
  \<open>dispose\<close> in the callback finds the placeholder: \<open>op_assigned\<close> tells which of the two it finds.
  The real subscription is in no composite disposable either; the subscriber's own \<open>dispose\<close> leaves
  it alone.
\<close>

section \<open>State, events and calls\<close>

text \<open>The parameters of an operation. The random topic name of a stream operation is one of them.\<close>

record 'p operation =
  opn_streaming :: bool
  opn_waitForSuitableService :: bool
  opn_operationName :: string
  opn_request :: 'p
  opn_topicName :: string

record operation_state =
  op_source :: bool
  op_assigned :: bool
  op_streams :: "string list"
  op_hasSubscribed :: bool
  op_stopped :: bool

datatype 'v operation_event =
    OpSubscribed last_value_dictionary
  | OpDictionary last_value_dictionary
  | OpDictionaryError js_error
  | OpStatus string service_instance_status
  | OpStatusError string js_error
  | OpStatusCompleted string
  | OpTopicNext 'v
  | OpTopicError js_error
  | OpRpcNext 'v
  | OpRpcError js_error
  | OpRpcCompleted
  | OpDispose

datatype ('p, 'v) operation_call =
    OpSubscribeTopic string
  | OpRequest string 'p string
  | OpReleaseCalls
  | OpNext 'v
  | OpError js_error
  | OpCompleted

definition new_operation :: operation_state where
  "new_operation = \<lparr>op_source = True, op_assigned = False, op_streams = [], op_hasSubscribed = False, op_stopped = False\<rparr>"

text \<open>The subscriber is disposed of: the status streams, the topic and the call go, the subscription to
  the dictionaries stays.\<close>

definition op_end :: "operation_state \<Rightarrow> operation_state \<times> ('p, 'v) operation_call list" where
  "op_end s = (s\<lparr>op_stopped := True, op_streams := []\<rparr>, if op_hasSubscribed s then [OpReleaseCalls] else [])"

definition op_fail :: "js_error \<Rightarrow> operation_state \<Rightarrow> operation_state \<times> ('p, 'v) operation_call list" where
  "op_fail e s = (if op_stopped s then (s, []) else (let (s', calls) = op_end s in (s', OpError e # calls)))"

definition op_complete :: "operation_state \<Rightarrow> operation_state \<times> ('p, 'v) operation_call list" where
  "op_complete s = (if op_stopped s then (s, []) else (let (s', calls) = op_end s in (s', OpCompleted # calls)))"

definition disconnected_error :: "'p operation \<Rightarrow> js_error" where
  "disconnected_error op =
     Error (''Service instance is disconnected for '' @ (if opn_streaming op then ''stream operation'' else ''request response operation''))"

text \<open>The subscriber of \<open>getServiceWithMinLoad\<close>.\<close>

definition op_instance ::
    "'p operation \<Rightarrow> service_instance_status \<Rightarrow> operation_state \<Rightarrow> operation_state \<times> ('p, 'v) operation_call list" where
  "op_instance op serviceInstanceStatus s =
     (if op_stopped s then (s, [])
      else if \<not> si_isConnected serviceInstanceStatus then op_fail (disconnected_error op) s
      else if op_hasSubscribed s then (s, [])
      else
        let remoteProcedure = si_serviceId serviceInstanceStatus @ ''.'' @ opn_operationName op;
            s' = s\<lparr>op_hasSubscribed := True\<rparr>
        in if opn_streaming op
           then (s', [OpSubscribeTopic (opn_topicName op), OpRequest remoteProcedure (opn_request op) (opn_topicName op)])
           else (s', [OpRequest remoteProcedure (opn_request op) []]))"

text \<open>The callback of \<open>getServiceWithMinLoad\<close>. \<open>createStreamOperation\<close> calls it without an argument, and
  the default is to wait.\<close>

definition waits :: "'p operation \<Rightarrow> bool" where
  "waits op \<longleftrightarrow> opn_streaming op \<or> opn_waitForSuitableService op"

definition op_dictionary ::
    "load_sort \<Rightarrow> 'p operation \<Rightarrow> last_value_dictionary \<Rightarrow> operation_state \<Rightarrow> operation_state \<times> ('p, 'v) operation_call list" where
  "op_dictionary sortBy op dict s =
     (if \<not> op_source s then (s, [])
      else case serviceWithLeastLoad sortBy dict of
        Some lv \<Rightarrow>
          let s' = (if op_assigned s then s\<lparr>op_source := False\<rparr> else s);
              s'' = (if op_stopped s' then s' else s'\<lparr>op_streams := lv_stream lv # op_streams s'\<rparr>)
          in op_instance op (lv_latestValue lv) s''
      | None \<Rightarrow> if waits op then (s, []) else op_fail (Error ''No service available'') s)"

fun operation_step ::
    "load_sort \<Rightarrow> 'p operation \<Rightarrow> (operation_state, 'v operation_event, ('p, 'v) operation_call) handler" where
  "operation_step sortBy op s (OpSubscribed dict) =
     (if op_assigned s then (s, [])
      else (let (s', calls) = op_dictionary sortBy op dict s in (s'\<lparr>op_assigned := True\<rparr>, calls)))"
| "operation_step sortBy op s (OpDictionary dict) =
     (if op_assigned s then op_dictionary sortBy op dict s else (s, []))"
| "operation_step sortBy op s (OpDictionaryError e) =
     (if op_source s then op_fail e (s\<lparr>op_source := False\<rparr>) else (s, []))"
| "operation_step sortBy op s (OpStatus stream st) =
     (if stream \<in> set (op_streams s) then op_instance op st s else (s, []))"
| "operation_step sortBy op s (OpStatusError stream e) =
     (if stream \<in> set (op_streams s) then op_fail e s else (s, []))"
| "operation_step sortBy op s (OpStatusCompleted stream) =
     (if stream \<in> set (op_streams s) then op_complete s else (s, []))"
| "operation_step sortBy op s (OpTopicNext v) =
     (if op_hasSubscribed s \<and> opn_streaming op \<and> \<not> op_stopped s then (s, [OpNext v]) else (s, []))"
| "operation_step sortBy op s (OpTopicError e) =
     (if op_hasSubscribed s \<and> opn_streaming op then op_fail e s else (s, []))"
| "operation_step sortBy op s (OpRpcNext v) =
     (if op_hasSubscribed s \<and> \<not> opn_streaming op \<and> \<not> op_stopped s then (s, [OpNext v]) else (s, []))"
| "operation_step sortBy op s (OpRpcError e) = (if op_hasSubscribed s then op_fail e s else (s, []))"
| "operation_step sortBy op s OpRpcCompleted =
     (if op_hasSubscribed s \<and> \<not> opn_streaming op then op_complete s else (s, []))"
| "operation_step sortBy op s OpDispose = (if op_stopped s then (s, []) else op_end s)"

section \<open>Lemmas\<close>

lemmas op_defs = op_end_def op_fail_def op_complete_def

fun is_request :: "('p, 'v) operation_call \<Rightarrow> bool" where
  "is_request (OpRequest procedure r topic) = True"
| "is_request c = False"

fun is_op_emission :: "('p, 'v) operation_call \<Rightarrow> bool" where
  "is_op_emission (OpNext v) = True"
| "is_op_emission (OpError e) = True"
| "is_op_emission OpCompleted = True"
| "is_op_emission c = False"

lemma op_stopped_quiet [simp]:
  "op_stopped s \<Longrightarrow> op_instance op st s = (s, [])" "op_stopped s \<Longrightarrow> op_fail e s = (s, [])"
  "op_stopped s \<Longrightarrow> op_complete s = (s, [])"
  by (simp_all add: op_instance_def op_fail_def op_complete_def)

lemma op_dictionary_stopped:
  "op_stopped s \<Longrightarrow> op_stopped (fst (op_dictionary sortBy op dict s)) \<and> snd (op_dictionary sortBy op dict s) = []"
  by (auto simp: op_dictionary_def Let_def split: option.split)

lemma operation_stopped_step:
  "op_stopped s \<Longrightarrow> op_stopped (fst (operation_step sortBy op s ev)) \<and> snd (operation_step sortBy op s ev) = []"
  by (cases ev) (simp_all add: split_beta Let_def op_dictionary_stopped)

lemma operation_silent: "op_stopped s \<Longrightarrow> outputs (operation_step sortBy op) s evs = []"
  by (induction evs arbitrary: s) (simp_all add: operation_stopped_step del: operation_step.simps)

text \<open>What hooks an operation up with the backend goes out with the step that sets \<open>hasSubscribed\<close>, and
  with no other.\<close>

fun is_hookup :: "('p, 'v) operation_call \<Rightarrow> bool" where
  "is_hookup (OpSubscribeTopic topic) = True"
| "is_hookup (OpRequest procedure r topic) = True"
| "is_hookup c = False"

definition hookup :: "'p operation \<Rightarrow> service_instance_status \<Rightarrow> ('p, 'v) operation_call list" where
  "hookup op st =
     (if opn_streaming op
      then [OpSubscribeTopic (opn_topicName op),
        OpRequest (si_serviceId st @ ''.'' @ opn_operationName op) (opn_request op) (opn_topicName op)]
      else [OpRequest (si_serviceId st @ ''.'' @ opn_operationName op) (opn_request op) []])"

text \<open>The instances a dictionary of the event would choose.\<close>

fun chosen :: "load_sort \<Rightarrow> 'v operation_event \<Rightarrow> service_instance_status set" where
  "chosen sortBy (OpSubscribed d) = lv_latestValue ` set_option (serviceWithLeastLoad sortBy d)"
| "chosen sortBy (OpDictionary d) = lv_latestValue ` set_option (serviceWithLeastLoad sortBy d)"
| "chosen sortBy ev = {}"

definition hookup_ok ::
    "'p operation \<Rightarrow> service_instance_status set \<Rightarrow> operation_state \<Rightarrow> operation_state \<times> ('p, 'v) operation_call list \<Rightarrow> bool" where
  "hookup_ok op C s r \<longleftrightarrow>
     (op_hasSubscribed s \<longrightarrow> op_hasSubscribed (fst r))
     \<and> (if op_hasSubscribed (fst r) = op_hasSubscribed s then filter is_hookup (snd r) = []
        else \<exists>st \<in> C. filter is_hookup (snd r) = hookup op st)
     \<and> (op_streams (fst r) \<noteq> [] \<longrightarrow> op_hasSubscribed (fst r) \<or> op_stopped (fst r))"

definition op_inv :: "operation_state \<Rightarrow> bool" where
  "op_inv s \<longleftrightarrow> (op_streams s \<noteq> [] \<longrightarrow> op_hasSubscribed s \<or> op_stopped s)"

lemma hookup_ok_same: "op_inv s \<Longrightarrow> hookup_ok op C s (s, [])"
  by (simp add: hookup_ok_def op_inv_def)

lemma hookup_ok_ends:
  "op_inv s' \<Longrightarrow> op_hasSubscribed s' = op_hasSubscribed s \<Longrightarrow> hookup_ok op C s (op_fail e s')"
  "op_inv s \<Longrightarrow> hookup_ok op C s (op_complete s)" "hookup_ok op C s (op_end s)"
  by (auto simp: hookup_ok_def op_defs op_inv_def)

lemma hookup_ok_instance:
  assumes "op_hasSubscribed s' = op_hasSubscribed s" "op_hasSubscribed s \<or> st \<in> C"
    and "op_inv s' \<or> si_isConnected st"
  shows "hookup_ok op C s (op_instance op st s')"
  using assms by (auto simp: hookup_ok_def op_instance_def op_defs op_inv_def hookup_def Let_def)

lemma least_load_connected: "serviceWithLeastLoad sortBy d = Some lv \<Longrightarrow> si_isConnected (lv_latestValue lv)"
  by (auto simp: serviceWithLeastLoad_def find_Some_iff)

lemma hookup_ok_dictionary:
  assumes "op_inv s"
  shows "hookup_ok op (lv_latestValue ` set_option (serviceWithLeastLoad sortBy dict)) s (op_dictionary sortBy op dict s)"
proof (cases "op_source s")
  case True
  show ?thesis
  proof (cases "serviceWithLeastLoad sortBy dict")
    case None
    with True assms show ?thesis by (simp add: op_dictionary_def hookup_ok_ends hookup_ok_same)
  next
    case (Some lv)
    with True least_load_connected [OF Some] show ?thesis
      by (simp add: op_dictionary_def Let_def hookup_ok_instance)
  qed
qed (simp add: op_dictionary_def hookup_ok_same assms)

lemma hookup_ok_step:
  fixes op :: "'p operation" and ev :: "'v operation_event"
  assumes "op_inv s"
  shows "hookup_ok op (chosen sortBy ev) s (operation_step sortBy op s ev)"
proof (cases ev)
  case (OpSubscribed dict)
  have "hookup_ok op (chosen sortBy ev) s (op_dictionary sortBy op dict s :: _ \<times> ('p, 'v) operation_call list)"
    using hookup_ok_dictionary [OF assms] OpSubscribed by simp
  then show ?thesis using OpSubscribed assms
    by (auto simp: split_beta hookup_ok_def op_inv_def split: if_splits)
next
  case (OpDictionary dict)
  then show ?thesis using assms by (simp add: hookup_ok_same hookup_ok_dictionary)
next
  case (OpStatus stream st)
  then show ?thesis
  proof (cases "stream \<in> set (op_streams s)")
    case True
    then have "op_hasSubscribed s \<or> op_stopped s" using assms by (auto simp: op_inv_def)
    then show ?thesis using OpStatus True assms
      by (cases "op_stopped s") (simp_all add: hookup_ok_instance hookup_ok_same)
  qed (simp add: hookup_ok_same assms)
next
  case (OpDictionaryError e)
  then show ?thesis using assms by (simp add: hookup_ok_same hookup_ok_ends op_inv_def)
qed (use assms in \<open>simp_all add: hookup_ok_same hookup_ok_ends, auto simp: hookup_ok_def op_inv_def\<close>)

lemma operation_hookups:
  assumes "op_inv s"
  shows "if op_hasSubscribed s then filter is_hookup (outputs (operation_step sortBy op) s evs) = []
    else filter is_hookup (outputs (operation_step sortBy op) s evs) = []
      \<or> (\<exists>ev \<in> set evs. \<exists>st \<in> chosen sortBy ev. filter is_hookup (outputs (operation_step sortBy op) s evs) = hookup op st)"
  using assms
proof (induction evs arbitrary: s)
  case (Cons ev evs)
  have ok: "hookup_ok op (chosen sortBy ev) s (operation_step sortBy op s ev)"
    using Cons.prems by (rule hookup_ok_step)
  then have "op_inv (fst (operation_step sortBy op s ev))" by (simp add: hookup_ok_def op_inv_def)
  from Cons.IH [OF this] ok show ?case
    by (auto simp: hookup_ok_def simp del: operation_step.simps split: if_splits)
qed simp

lemma op_inv_new [simp]: "op_inv new_operation"
  by (simp add: op_inv_def new_operation_def)

lemma op_end_stopped [simp]: "op_stopped (fst (op_end s))"
  by (simp add: op_end_def)

text \<open>An error or the completion is the last thing the subscriber gets.\<close>

fun is_op_end :: "('p, 'v) operation_call \<Rightarrow> bool" where
  "is_op_end (OpError e) = True"
| "is_op_end OpCompleted = True"
| "is_op_end c = False"

definition end_ok :: "operation_state \<times> ('p, 'v) operation_call list \<Rightarrow> bool" where
  "end_ok r \<longleftrightarrow> (\<forall>c \<in> set (snd r). is_op_end c \<longrightarrow> op_stopped (fst r) \<and> filter is_op_emission (snd r) = [c])"

lemma end_ok_ends: "end_ok (op_fail e s)" "end_ok (op_complete s)" "end_ok (op_end s)" "end_ok (s, [])" "end_ok (s, [OpNext v])"
  by (auto simp: end_ok_def op_defs)

lemma end_ok_instance: "end_ok (op_instance op st s)"
  by (auto simp: op_instance_def end_ok_ends Let_def) (auto simp: end_ok_def)

lemma end_ok_dictionary: "end_ok (op_dictionary sortBy op dict s)"
  by (simp add: op_dictionary_def end_ok_ends end_ok_instance Let_def split: option.split)

lemma end_ok_step:
  fixes op :: "'p operation" and ev :: "'v operation_event"
  shows "end_ok (operation_step sortBy op s ev)"
proof (cases ev)
  case (OpSubscribed dict)
  have "end_ok (op_dictionary sortBy op dict s :: _ \<times> ('p, 'v) operation_call list)" by (rule end_ok_dictionary)
  then show ?thesis using OpSubscribed by (auto simp: split_beta end_ok_def)
qed (simp_all add: end_ok_dictionary end_ok_instance end_ok_ends)

lemma operation_ends:
  "outputs (operation_step sortBy op) s evs = xs @ c # ys \<Longrightarrow> is_op_end c \<Longrightarrow> filter is_op_emission ys = []"
proof (induction evs arbitrary: s xs)
  case (Cons ev evs)
  let ?r = "operation_step sortBy op s ev"
  from Cons.prems(1) have split: "snd ?r @ outputs (operation_step sortBy op) (fst ?r) evs = xs @ c # ys" by simp
  then consider us where "snd ?r = xs @ c # us" "ys = us @ outputs (operation_step sortBy op) (fst ?r) evs"
    | us where "outputs (operation_step sortBy op) (fst ?r) evs = us @ c # ys" "xs = snd ?r @ us"
    by (auto simp: append_eq_append_conv2 append_eq_Cons_conv Cons_eq_append_conv)
  then show ?case
  proof cases
    case 1
    then have "op_stopped (fst ?r)" "filter is_op_emission (xs @ c # us) = [c]"
      using end_ok_step [of sortBy op s ev] Cons.prems(2) by (auto simp: end_ok_def)
    then have "filter is_op_emission us = []"
      using Cons.prems(2) by (cases c) (auto simp: filter_eq_Cons_iff append_eq_Cons_conv)
    with 1 \<open>op_stopped (fst ?r)\<close> show ?thesis by (simp add: operation_silent)
  next
    case 2
    with Cons.IH Cons.prems(2) show ?thesis by blast
  qed
qed simp

section \<open>Properties\<close>

text \<open>C19: an operation makes at most one request over its life, whatever dictionaries and statuses come
  in. It goes to the instance a dictionary gave as connected with the least load, under that
  instance's id, and a stream operation subscribes to its topic before it asks the backend to
  publish there.\<close>

theorem operation_requests_once:
  "filter is_hookup (outputs (operation_step sortBy op) new_operation evs) = []
   \<or> (\<exists>dict lv. {OpSubscribed dict, OpDictionary dict} \<inter> set evs \<noteq> {} \<and> serviceWithLeastLoad sortBy dict = Some lv
      \<and> si_isConnected (lv_latestValue lv)
      \<and> filter is_hookup (outputs (operation_step sortBy op) new_operation evs) =
          (let procedure = si_serviceId (lv_latestValue lv) @ ''.'' @ opn_operationName op
           in if opn_streaming op
              then [OpSubscribeTopic (opn_topicName op), OpRequest procedure (opn_request op) (opn_topicName op)]
              else [OpRequest procedure (opn_request op) []]))"
proof -
  have "\<not> op_hasSubscribed new_operation" by (simp add: new_operation_def)
  with operation_hookups [OF op_inv_new, of sortBy op evs]
  consider "filter is_hookup (outputs (operation_step sortBy op) new_operation evs) = []"
    | ev st where "ev \<in> set evs" "st \<in> chosen sortBy ev"
      "filter is_hookup (outputs (operation_step sortBy op) new_operation evs) = hookup op st"
    by auto
  then show ?thesis
  proof cases
    case 2
    from 2(2) obtain dict lv where "ev = OpSubscribed dict \<or> ev = OpDictionary dict"
      "serviceWithLeastLoad sortBy dict = Some lv" "st = lv_latestValue lv"
      by (cases ev) auto
    moreover from this(2) have "si_isConnected (lv_latestValue lv)" by (rule least_load_connected)
    ultimately show ?thesis using 2 by (fastforce simp: hookup_def Let_def)
  qed simp
qed

text \<open>An operation ends at most once, and nothing reaches its subscriber after the error or the
  completion, nor after the subscriber has disposed.\<close>

theorem operation_ends_once:
  "(outputs (operation_step sortBy op) s evs = xs @ c # ys \<longrightarrow> is_op_end c \<longrightarrow> filter is_op_emission ys = [])
   \<and> filter is_op_emission (outputs (operation_step sortBy op) (fst (operation_step sortBy op s OpDispose)) evs) = []"
  using operation_ends [of sortBy op s evs xs c ys] by (auto simp: operation_silent)

definition example_operation :: "bool \<Rightarrow> unit operation" where
  "example_operation streaming = \<lparr>opn_streaming = streaming, opn_waitForSuitableService = False,
     opn_operationName = ''run'', opn_request = (), opn_topicName = ''topic_1''\<rparr>"

lemma operation_ends_once_witness:
  "outputs (operation_step (\<lambda>f. sort_key f) (example_operation False)) new_operation [OpSubscribed empty_dictionary :: int operation_event] =
     [OpError (Error ''No service available'')]
   \<and> filter is_op_emission ([] :: (unit, int) operation_call list) = []"
proof -
  have "serviceWithLeastLoad (\<lambda>f. sort_key f) empty_dictionary = None"
    by (simp add: serviceWithLeastLoad_def empty_dictionary_def obj_values_def)
  then have run: "outputs (operation_step (\<lambda>f. sort_key f) (example_operation False)) new_operation
      [OpSubscribed empty_dictionary :: int operation_event] = [] @ OpError (Error ''No service available'') # []"
    by (simp add: new_operation_def op_dictionary_def waits_def example_operation_def op_defs)
  with operation_ends_once [of "\<lambda>f. sort_key f" "example_operation False" new_operation
      "[OpSubscribed empty_dictionary :: int operation_event]" "[]" "OpError (Error ''No service available'')" "[]"]
  show ?thesis by simp
qed

text \<open>An operation that found its instance while it was subscribing keeps listening to the
  dictionaries. The next one subscribes it to the status of the instance that has the least load
  then, and when that other instance is missed the operation fails, although its request went
  elsewhere.\<close>

theorem operation_fails_with_other_instance:
  assumes "serviceWithLeastLoad sortBy dict1 = Some lv1" "serviceWithLeastLoad sortBy dict2 = Some lv2"
    and "\<not> si_isConnected missed"
  shows "outputs (operation_step sortBy op) new_operation
      [OpSubscribed dict1, OpDictionary dict2, OpStatus (lv_stream lv2) missed] =
    hookup op (lv_latestValue lv1) @ [OpError (disconnected_error op), OpReleaseCalls]"
  using assms least_load_connected [OF assms(1)] least_load_connected [OF assms(2)]
  by (auto simp: new_operation_def op_dictionary_def op_instance_def hookup_def op_defs Let_def)

definition one_instance :: "string \<Rightarrow> last_value_dictionary" where
  "one_instance i = \<lparr>lvd_values = [(i, \<lparr>lv_latestValue = \<lparr>si_serviceType = ''pricing'', si_serviceId = i,
     si_timestamp = Num 1, si_serviceLoad = Num 1, si_isConnected = True\<rparr>, lv_stream = i\<rparr>)], lvd_version = 1\<rparr>"

lemma operation_fails_with_other_instance_witness:
  "outputs (operation_step (\<lambda>f. sort_key f) (example_operation False)) new_operation
     [OpSubscribed (one_instance ''p1''), OpDictionary (one_instance ''p3''),
      OpStatus ''p3'' \<lparr>si_serviceType = ''pricing'', si_serviceId = ''p3'', si_timestamp = NaN,
        si_serviceLoad = NaN, si_isConnected = False\<rparr> :: int operation_event] =
   [OpRequest ''p1.run'' () [], OpError (Error ''Service instance is disconnected for request response operation''), OpReleaseCalls]"
proof -
  let ?lv = "\<lambda>i. \<lparr>lv_latestValue = \<lparr>si_serviceType = ''pricing'', si_serviceId = i,
     si_timestamp = Num 1, si_serviceLoad = Num 1, si_isConnected = True\<rparr>, lv_stream = i\<rparr>"
  have least: "serviceWithLeastLoad (\<lambda>f. sort_key f) (one_instance i) = Some (?lv i)" for i
    by (simp add: serviceWithLeastLoad_def one_instance_def obj_values_def)
  show ?thesis
    using operation_fails_with_other_instance [OF least [of "''p1''"] least [of "''p3''"],
        of "\<lparr>si_serviceType = ''pricing'', si_serviceId = ''p3'', si_timestamp = NaN,
          si_serviceLoad = NaN, si_isConnected = False\<rparr>" "example_operation False"]
    by (simp add: hookup_def example_operation_def disconnected_error_def)
qed

end
