(* ===== verification/ServiceFlow.thy ===== *)
theory ServiceFlow imports ServiceOps begin

text \<open>
  A \<open>ServiceClient\<close> at work: the dictionary stream of \<open>Heartbeats\<close> and the operations of \<open>ServiceOps\<close> that run over
  it, on one clock. What the stream of dictionaries yields goes to every operation in the step that yields it, and
  every operation that has found its instance listens to the status of that instance through a debounced stream of
  its own: \<open>getServiceWithMinLoad\<close> concatenates the latest status with \<open>serviceWithLeastLoad.stream\<close>, which is the
  cold chain \<open>groupBy\<close>, \<open>debounceOnMissedHeartbeat\<close>, \<open>distinctUntilChangedGroup\<close>, so that each such subscription
  starts a timer and a last key that belong to it alone.

  The dictionary's own subscription to a group is its first, so an incoming heartbeat reaches the dictionary before
  the operations that watch the group; an error of the stream reaches them after the empty dictionary.
\<close>

section \<open>State\<close>

text \<open>The watches of an operation are its subscriptions to status streams, latest first, as \<open>op_streams\<close> lists
  their names.\<close>

record 'p client_operation =
  co_operation :: "'p operation"
  co_state :: operation_state
  co_watches :: "(string \<times> group) list"

record 'p service_flow =
  fl_heartbeats :: heartbeats
  fl_operations :: "'p client_operation list"

datatype ('p, 'v) flow_event =
    Backend heartbeat_event
  | StartOperation "'p operation"
  | WatchMissed nat nat
  | Answer nat "'v operation_event"

definition new_service_flow :: "'p service_flow" where
  "new_service_flow = \<lparr>fl_heartbeats = new_heartbeats, fl_operations = []\<rparr>"

section \<open>Steps\<close>

text \<open>A new subscription to a debounced status stream: \<open>debounce()\<close> runs once when it is made.\<close>

definition new_watch :: "nat \<Rightarrow> string \<Rightarrow> string \<times> group" where
  "new_watch now key = (key, \<lparr>gp_timer = Some (now + HEARTBEAT_TIMEOUT), gp_lastKey = None\<rparr>)"

definition op_deliver :: "load_sort \<Rightarrow> nat \<Rightarrow> ('p client_operation, 'v operation_event, ('p, 'v) operation_call) handler" where
  "op_deliver sortBy now c ev =
     (let (s', calls) = operation_step sortBy (co_operation c) (co_state c) ev;
          added = take (length (op_streams s') - length (op_streams (co_state c))) (op_streams s')
      in (c\<lparr>co_state := s',
            co_watches := map (new_watch now) added @ (if op_streams s' = [] then [] else co_watches c)\<rparr>, calls))"

text \<open>A value on a watched stream: the timer starts again, and the value passes if its key is a new one.\<close>

definition watch_value :: "nat \<Rightarrow> service_instance_status \<Rightarrow> group \<Rightarrow> group" where
  "watch_value now v g = g\<lparr>gp_timer := Some (now + HEARTBEAT_TIMEOUT), gp_lastKey := Some (status_key v)\<rparr>"

definition op_message ::
    "load_sort \<Rightarrow> nat \<Rightarrow> service_instance_status \<Rightarrow> nat \<Rightarrow> 'p client_operation \<Rightarrow> 'p client_operation \<times> ('p, 'v) operation_call list" where
  "op_message sortBy now v watching c =
     (let k = length (co_watches c) - watching;
          listening = drop k (co_watches c);
          updated = map (\<lambda>(key, g). (key, if key = si_serviceId v then watch_value now v g else g)) listening;
          passed = filter (\<lambda>(key, g). key = si_serviceId v \<and> gp_lastKey g \<noteq> Some (status_key v)) listening
      in run (op_deliver sortBy now) (c\<lparr>co_watches := take k (co_watches c) @ updated\<rparr>)
           (map (\<lambda>(key, g). OpStatus key v) passed))"

text \<open>What an event of the backend is to the groups of \<open>groupBy\<close>.\<close>

datatype group_news = NoNews | NewStatus service_instance_status | Broken js_error

fun news_of :: "string \<Rightarrow> heartbeats \<Rightarrow> heartbeat_event \<Rightarrow> group_news" where
  "news_of serviceType h (ConnectionIs up) =
     (if \<not> up \<and> hb_active h then Broken (Error ''Underlying connection disconnected'') else NoNews)"
| "news_of serviceType h (StatusMessage status) =
     (if \<not> hb_active h \<or> st_Type status \<noteq> serviceType then NoNews
      else case createForConnected (st_Type status) (st_Instance status) (st_TimeStamp status) (st_Load status) of
        Inl e \<Rightarrow> Broken e
      | Inr v \<Rightarrow> NewStatus v)"
| "news_of serviceType h (TopicBroken e) = (if hb_active h then Broken e else NoNews)"
| "news_of serviceType h (Missed key) = NoNews"
| "news_of serviceType h (Advance t) = NoNews"

fun emitted_dictionaries :: "heartbeat_call list \<Rightarrow> last_value_dictionary list" where
  "emitted_dictionaries [] = []"
| "emitted_dictionaries (EmitDictionary d # calls) = d # emitted_dictionaries calls"
| "emitted_dictionaries (SubscribeStatusTopic # calls) = emitted_dictionaries calls"

definition op_backend ::
    "load_sort \<Rightarrow> string \<Rightarrow> heartbeats \<Rightarrow> heartbeat_event \<Rightarrow> 'p client_operation \<Rightarrow> 'p client_operation \<times> ('p, 'v) operation_call list" where
  "op_backend sortBy serviceType h ev c =
     (let dictionaries = emitted_dictionaries (snd (heartbeat_step serviceType h ev));
          (c1, calls1) = run (op_deliver sortBy (hb_now h)) c (map OpDictionary dictionaries);
          (c2, calls2) = (case news_of serviceType h ev of
              NoNews \<Rightarrow> (c1, [])
            | NewStatus v \<Rightarrow> op_message sortBy (hb_now h) v (length (co_watches c)) c1
            | Broken e \<Rightarrow> run (op_deliver sortBy (hb_now h)) c1 (map (\<lambda>(key, g). OpStatusError key e) (co_watches c1)))
      in (c2, calls1 @ calls2))"

text \<open>The timer of a watch.\<close>

definition op_missed ::
    "load_sort \<Rightarrow> string \<Rightarrow> nat \<Rightarrow> nat \<Rightarrow> 'p client_operation \<Rightarrow> 'p client_operation \<times> ('p, 'v) operation_call list" where
  "op_missed sortBy serviceType now i c =
     (if i < length (co_watches c) then
        let (key, g) = co_watches c ! i
        in case createForDisconnected serviceType key of
            Inl e \<Rightarrow> (c, [])
          | Inr v \<Rightarrow>
              if gp_lastKey g = Some (status_key v)
              then (c\<lparr>co_watches := (co_watches c)[i := (key, g\<lparr>gp_timer := None\<rparr>)]\<rparr>, [])
              else op_deliver sortBy now (c\<lparr>co_watches := (co_watches c)[i := (key,
                     g\<lparr>gp_timer := None, gp_lastKey := Some (status_key v)\<rparr>)]\<rparr>) (OpStatus key v)
      else (c, []))"

text \<open>What reaches an operation from its topic, its call or its subscriber.\<close>

fun is_answer :: "'v operation_event \<Rightarrow> bool" where
  "is_answer (OpTopicNext v) = True"
| "is_answer (OpTopicError e) = True"
| "is_answer (OpRpcNext v) = True"
| "is_answer (OpRpcError e) = True"
| "is_answer OpRpcCompleted = True"
| "is_answer OpDispose = True"
| "is_answer _ = False"

definition op_update ::
    "nat \<Rightarrow> ('p client_operation \<Rightarrow> 'p client_operation \<times> ('p, 'v) operation_call list) \<Rightarrow>
     'p service_flow \<Rightarrow> 'p service_flow \<times> (nat \<times> ('p, 'v) operation_call) list" where
  "op_update n f s =
     (if n < length (fl_operations s) then
        let (c, calls) = f (fl_operations s ! n)
        in (s\<lparr>fl_operations := (fl_operations s)[n := c]\<rparr>, map (\<lambda>call. (n, call)) calls)
      else (s, []))"

fun flow_step ::
    "load_sort \<Rightarrow> string \<Rightarrow> ('p service_flow, ('p, 'v) flow_event, nat \<times> ('p, 'v) operation_call) handler" where
  "flow_step sortBy serviceType s (Backend ev) =
     (let h = fl_heartbeats s;
          results = map (op_backend sortBy serviceType h ev) (fl_operations s)
      in (\<lparr>fl_heartbeats = fst (heartbeat_step serviceType h ev), fl_operations = map fst results\<rparr>,
          concat (map (\<lambda>(n, c, calls). map (\<lambda>call. (n, call)) calls) (enumerate 0 results))))"
| "flow_step sortBy serviceType s (StartOperation op) =
     (let h = fl_heartbeats s;
          (c, calls) = op_deliver sortBy (hb_now h) \<lparr>co_operation = op, co_state = new_operation, co_watches = []\<rparr>
             (OpSubscribed (hb_dictionary h))
      in (s\<lparr>fl_operations := fl_operations s @ [c]\<rparr>, map (\<lambda>call. (length (fl_operations s), call)) calls))"
| "flow_step sortBy serviceType s (WatchMissed n i) =
     op_update n (op_missed sortBy serviceType (hb_now (fl_heartbeats s)) i) s"
| "flow_step sortBy serviceType s (Answer n ev) =
     op_update n (\<lambda>c. op_deliver sortBy (hb_now (fl_heartbeats s)) c ev) s"

section \<open>The clock\<close>

text \<open>As for the dictionary alone: a timer fires when the clock stands at its deadline, and the clock does not pass a
  deadline, neither one of the dictionary nor one of an operation.\<close>

inductive flow_trans :: "load_sort \<Rightarrow> string \<Rightarrow> 'p service_flow \<Rightarrow> ('p, 'v) flow_event \<Rightarrow> bool"
  for sortBy :: load_sort and serviceType :: string where
  external: "(\<forall>key. ev \<noteq> Missed key) \<Longrightarrow> (\<forall>t. ev \<noteq> Advance t) \<Longrightarrow> flow_trans sortBy serviceType s (Backend ev)"
| timer: "obj_get (hb_groups (fl_heartbeats s)) key = Some g \<Longrightarrow> gp_timer g = Some (hb_now (fl_heartbeats s)) \<Longrightarrow>
     flow_trans sortBy serviceType s (Backend (Missed key))"
| clock: "hb_now (fl_heartbeats s) \<le> t \<Longrightarrow>
     (\<forall>key g d. obj_get (hb_groups (fl_heartbeats s)) key = Some g \<longrightarrow> gp_timer g = Some d \<longrightarrow> t \<le> d) \<Longrightarrow>
     (\<forall>c \<in> set (fl_operations s). \<forall>(key, g) \<in> set (co_watches c). \<forall>d. gp_timer g = Some d \<longrightarrow> t \<le> d) \<Longrightarrow>
     flow_trans sortBy serviceType s (Backend (Advance t))"
| start: "flow_trans sortBy serviceType s (StartOperation op)"
| watch: "n < length (fl_operations s) \<Longrightarrow> i < length (co_watches (fl_operations s ! n)) \<Longrightarrow>
     gp_timer (snd (co_watches (fl_operations s ! n) ! i)) = Some (hb_now (fl_heartbeats s)) \<Longrightarrow>
     flow_trans sortBy serviceType s (WatchMissed n i)"
| answer: "is_answer ev \<Longrightarrow> flow_trans sortBy serviceType s (Answer n ev)"

inductive_cases flow_transE [elim]: "flow_trans sortBy serviceType s ev"

text \<open>A run with its events, latest first, and the calls of its operations, each with its time.\<close>

inductive flow_run ::
    "load_sort \<Rightarrow> string \<Rightarrow> (nat \<times> ('p, 'v) flow_event) list \<Rightarrow> (nat \<times> nat \<times> ('p, 'v) operation_call) list \<Rightarrow> 'p service_flow \<Rightarrow> bool"
  for sortBy :: load_sort and serviceType :: string where
  init: "flow_run sortBy serviceType [] [] new_service_flow"
| step: "flow_run sortBy serviceType tr out s \<Longrightarrow> flow_trans sortBy serviceType s ev \<Longrightarrow>
     flow_run sortBy serviceType ((hb_now (fl_heartbeats s), ev) # tr)
       (out @ map (\<lambda>call. (hb_now (fl_heartbeats s), call)) (snd (flow_step sortBy serviceType s ev)))
       (fst (flow_step sortBy serviceType s ev))"

fun backend_events :: "(nat \<times> ('p, 'v) flow_event) list \<Rightarrow> (nat \<times> heartbeat_event) list" where
  "backend_events [] = []"
| "backend_events ((t, Backend ev) # tr) = (t, ev) # backend_events tr"
| "backend_events ((t, _) # tr) = backend_events tr"

section \<open>Lemmas\<close>

text \<open>The dictionary at work is the one of \<open>Heartbeats\<close>: a run of the client projects to a run of its dictionary.\<close>

lemma op_update_heartbeats [simp]: "fl_heartbeats (fst (op_update n f s)) = fl_heartbeats s"
  by (simp add: op_update_def split_beta Let_def)

lemma flow_step_heartbeats:
  "fl_heartbeats (fst (flow_step sortBy ty s ev)) =
     (case ev of Backend e \<Rightarrow> fst (heartbeat_step ty (fl_heartbeats s) e) | _ \<Rightarrow> fl_heartbeats s)"
  by (cases ev) (simp_all add: Let_def split_beta del: heartbeat_step.simps)

lemma flow_heartbeats:
  "flow_run sortBy ty tr out s \<Longrightarrow> heartbeat_run ty (backend_events tr) (fl_heartbeats s)"
proof (induction rule: flow_run.induct)
  case init
  then show ?case by (simp add: new_service_flow_def heartbeat_run.start)
next
  case (step tr out s ev)
  show ?case
  proof (cases "\<exists>e. ev = Backend e")
    case True
    then obtain e where ev: "ev = Backend e" by blast
    from step(2) have "heartbeat_trans ty (fl_heartbeats s) e (fst (heartbeat_step ty (fl_heartbeats s) e))"
      unfolding ev by cases (blast intro: heartbeat_trans.intros)+
    with step(3) show ?thesis
      by (simp add: ev flow_step_heartbeats heartbeat_run.step del: heartbeat_step.simps flow_step.simps)
  next
    case False
    with step(3) show ?thesis
      by (cases ev) (simp_all add: flow_step_heartbeats del: heartbeat_step.simps flow_step.simps)
  qed
qed

text \<open>What the dictionary emits is what it holds after the step.\<close>

lemma emitted_restart [simp]: "emitted_dictionaries (snd (hb_restart up h)) = [empty_dictionary]"
  by (simp add: hb_restart_def)

lemma emitted_value: "emitted_dictionaries (snd (hb_value key g v h)) \<in> {[], [hb_dictionary (fst (hb_value key g v h))]}"
  by (simp add: hb_value_def Let_def)

lemma emitted_now:
  "emitted_dictionaries (snd (heartbeat_step ty h ev)) \<in> {[], [hb_dictionary (fst (heartbeat_step ty h ev))]}"
proof (cases ev)
  case (StatusMessage status)
  then show ?thesis
    using emitted_value by (auto simp: Let_def split: sum.split) (auto simp: hb_restart_def)
next
  case (Missed key)
  then show ?thesis using emitted_value by (auto split: sum.split)
qed (auto simp: hb_restart_def)

text \<open>Heartbeats are past.\<close>

lemma hb_now_kept [simp]: "hb_now (fst (hb_restart up h)) = hb_now h" "hb_now (fst (hb_value key g v h)) = hb_now h"
  by (simp_all add: hb_restart_def hb_value_def Let_def)

lemma heartbeat_now:
  "hb_now (fst (heartbeat_step ty h ev)) = (case ev of Advance t \<Rightarrow> t | _ \<Rightarrow> hb_now h)"
  by (cases ev) (simp_all add: Let_def split: sum.split)

lemma last_beat_past: "heartbeat_run ty tr s \<Longrightarrow> last_beat ty tr key = Some (t, load) \<Longrightarrow> t \<le> hb_now s"
proof (induction rule: heartbeat_run.induct)
  case (step tr s ev s')
  have now: "hb_now s \<le> hb_now s'"
    using step(2) by cases (simp_all add: heartbeat_now split: heartbeat_event.split del: heartbeat_step.simps)
  show ?case
    using step.IH step.prems now by (cases ev) (auto split: if_splits)
qed simp

text \<open>What the dictionary says of a connected instance, read off the heartbeats.\<close>

lemma connected_instance:
  assumes "heartbeat_run ty tr s" "ty \<noteq> []" "lv \<in> set (obj_values (lvd_values (hb_dictionary s)))" "si_isConnected (lv_latestValue lv)"
  obtains t load where "last_beat ty tr (si_serviceId (lv_latestValue lv)) = Some (t, load)" "hb_now s \<le> t + HEARTBEAT_TIMEOUT"
    "si_serviceLoad (lv_latestValue lv) = Num load" "lv_stream lv = si_serviceId (lv_latestValue lv)"
proof -
  have ok: "obj_ok (lvd_values (hb_dictionary s))" using assms(1) by (rule heartbeat_run_ok)
  from assms(3) obtain key where key: "obj_get (lvd_values (hb_dictionary s)) key = Some lv"
    using obj_values_iff [OF ok] by blast
  with in_dictionary_group [OF assms(1,2), of key] assms(4) show ?thesis
    by (auto simp: tracks_def tracks_in_def split: option.splits intro: that)
qed

lemma fresh_instance:
  assumes "heartbeat_run ty tr s" "ty \<noteq> []" "last_beat ty tr key = Some (t, load)" "hb_now s < t + HEARTBEAT_TIMEOUT"
  obtains lv where "lv \<in> set (obj_values (lvd_values (hb_dictionary s)))" "si_isConnected (lv_latestValue lv)"
    "si_serviceLoad (lv_latestValue lv) = Num load"
proof -
  have ok: "obj_ok (lvd_values (hb_dictionary s))" using assms(1) by (rule heartbeat_run_ok)
  from in_dictionary_group [OF assms(1,2), of key] assms(3,4)
  obtain lv where "obj_get (lvd_values (hb_dictionary s)) key = Some lv" "si_isConnected (lv_latestValue lv)"
    "si_serviceLoad (lv_latestValue lv) = Num load"
    by (auto simp: tracks_def tracks_in_def split: option.splits)
  with obj_values_iff [OF ok] show ?thesis by (blast intro: that)
qed

text \<open>One operation. It is in flight once it has asked an instance and until it has ended.\<close>

definition in_flight :: "'p client_operation \<Rightarrow> bool" where
  "in_flight c \<longleftrightarrow> op_hasSubscribed (co_state c) \<and> \<not> op_stopped (co_state c)"

definition client_ok :: "'p client_operation \<Rightarrow> bool" where
  "client_ok c \<longleftrightarrow> op_inv (co_state c) \<and> map fst (co_watches c) = op_streams (co_state c)
     \<and> (op_stopped (co_state c) \<longrightarrow> op_streams (co_state c) = [])"

definition ended :: "'p client_operation \<Rightarrow> bool" where
  "ended c \<longleftrightarrow> op_stopped (co_state c) \<and> co_watches c = [] \<and> client_ok c"

lemma deliver_simps:
  "co_operation (fst (op_deliver sortBy now c ev)) = co_operation c"
  "co_state (fst (op_deliver sortBy now c ev)) = fst (operation_step sortBy (co_operation c) (co_state c) ev)"
  "snd (op_deliver sortBy now c ev) = snd (operation_step sortBy (co_operation c) (co_state c) ev)"
  by (simp_all add: op_deliver_def split_beta Let_def del: operation_step.simps)

lemma deliver_same:
  "client_ok c \<Longrightarrow> operation_step sortBy (co_operation c) (co_state c) ev = (co_state c, calls) \<Longrightarrow>
     fst (op_deliver sortBy now c ev) = c"
  by (auto simp: op_deliver_def Let_def client_ok_def simp del: operation_step.simps)

lemma deliver_ended:
  assumes "op_stopped (fst (operation_step sortBy (co_operation c) (co_state c) ev))"
    "op_streams (fst (operation_step sortBy (co_operation c) (co_state c) ev)) = []"
  shows "ended (fst (op_deliver sortBy now c ev))"
  using assms by (simp add: op_deliver_def split_beta Let_def ended_def client_ok_def op_inv_def del: operation_step.simps)

lemma ends_state:
  "\<not> op_stopped s \<Longrightarrow> op_stopped (fst (op_fail e s)) \<and> op_streams (fst (op_fail e s)) = []"
  "\<not> op_stopped s \<Longrightarrow> op_stopped (fst (op_complete s)) \<and> op_streams (fst (op_complete s)) = []"
  "op_stopped (fst (op_end s)) \<and> op_streams (fst (op_end s)) = []"
  by (simp_all add: op_defs)

text \<open>A dictionary: the operation ends, or it watches at most the instance with the least load in addition.\<close>

definition dictionary_outcome ::
    "load_sort \<Rightarrow> nat \<Rightarrow> last_value_dictionary \<Rightarrow> 'p client_operation \<Rightarrow> 'p client_operation \<times> ('p, 'v) operation_call list \<Rightarrow> bool" where
  "dictionary_outcome sortBy now d c r \<longleftrightarrow>
     ended (fst r) \<or> client_ok (fst r) \<and>
       (co_watches (fst r) = co_watches c \<and> (in_flight (fst r) \<longrightarrow> in_flight c)
        \<or> (\<exists>lv. serviceWithLeastLoad sortBy d = Some lv \<and> co_watches (fst r) = new_watch now (lv_stream lv) # co_watches c
            \<and> (in_flight c \<or> co_watches c = [] \<and>
                (\<exists>topic. OpRequest (si_serviceId (lv_latestValue lv) @ ''.'' @ opn_operationName (co_operation c))
                  (opn_request (co_operation c)) topic \<in> set (snd r)))))"

lemma op_dictionary_state:
  "op_dictionary sortBy op d s =
     (if \<not> op_source s then (s, [])
      else case serviceWithLeastLoad sortBy d of
        Some lv \<Rightarrow>
          let s' = (if op_assigned s then s\<lparr>op_source := False\<rparr> else s)
          in if op_stopped s then (s', [])
             else if op_hasSubscribed s then (s'\<lparr>op_streams := lv_stream lv # op_streams s\<rparr>, [])
             else (s'\<lparr>op_streams := lv_stream lv # op_streams s, op_hasSubscribed := True\<rparr>, hookup op (lv_latestValue lv))
      | None \<Rightarrow> if waits op then (s, []) else op_fail (Error ''No service available'') s)"
  by (auto simp: op_dictionary_def op_instance_def hookup_def Let_def dest: least_load_connected split: option.split)

lemma deliver_dictionary:
  assumes "client_ok c" "ev = OpSubscribed d \<and> \<not> op_assigned (co_state c) \<or> ev = OpDictionary d"
  shows "dictionary_outcome sortBy now d c (op_deliver sortBy now c ev :: _ \<times> ('p, 'v) operation_call list)"
proof (cases "op_stopped (fst (operation_step sortBy (co_operation c) (co_state c) ev :: _ \<times> ('p, 'v) operation_call list))")
  case True
  with assms show ?thesis
    by (intro dictionary_outcome_def [THEN iffD2] disjI1 deliver_ended)
      (auto simp: op_dictionary_state client_ok_def split_beta Let_def ends_state op_defs split: option.splits if_splits)
next
  case False
  then have "\<not> op_stopped (co_state c)"
    using assms(2) by (auto simp: op_dictionary_state split_beta Let_def split: option.splits if_splits)
  with False assms show ?thesis
    by (cases "co_state c"; cases "serviceWithLeastLoad sortBy d")
      (auto simp: dictionary_outcome_def op_deliver_def op_dictionary_state client_ok_def in_flight_def op_inv_def
        op_defs hookup_def Let_def split_beta new_watch_def split: if_splits)
qed

text \<open>Anything else leaves the operation as it is or ends it.\<close>

fun is_dictionary :: "'v operation_event \<Rightarrow> bool" where
  "is_dictionary (OpSubscribed d) = True"
| "is_dictionary (OpDictionary d) = True"
| "is_dictionary (OpDictionaryError e) = True"
| "is_dictionary ev = False"

lemma deliver_other:
  assumes "client_ok c" "\<not> is_dictionary ev"
  shows "fst (op_deliver sortBy now c ev) = c \<or> ended (fst (op_deliver sortBy now c ev))"
proof -
  have sub: "op_hasSubscribed (co_state c)" if "key \<in> set (op_streams (co_state c))" for key
    using assms(1) that by (cases "op_streams (co_state c)") (auto simp: client_ok_def op_inv_def)
  have "(\<exists>calls. operation_step sortBy (co_operation c) (co_state c) ev = (co_state c, calls))
    \<or> op_stopped (fst (operation_step sortBy (co_operation c) (co_state c) ev))
      \<and> op_streams (fst (operation_step sortBy (co_operation c) (co_state c) ev)) = []"
    using assms(2) sub by (cases ev) (auto simp: op_instance_def op_defs Let_def)
  then show ?thesis using deliver_same [OF assms(1)] deliver_ended by blast
qed

lemma deliver_connected:
  "client_ok c \<Longrightarrow> si_isConnected st \<Longrightarrow> fst (op_deliver sortBy now c (OpStatus key st)) = c"
  by (rule deliver_same [where calls = "[]"])
    (auto simp: op_instance_def client_ok_def op_inv_def Let_def)

lemma deliver_kills:
  assumes "client_ok c" "key \<in> set (map fst (co_watches c))"
  shows "ended (fst (op_deliver sortBy now c (OpStatusError key e)))"
    and "\<not> si_isConnected st \<Longrightarrow> ended (fst (op_deliver sortBy now c (OpStatus key st)))"
proof -
  have "key \<in> set (op_streams (co_state c))" "\<not> op_stopped (co_state c)"
    using assms by (auto simp: client_ok_def)
  then show "ended (fst (op_deliver sortBy now c (OpStatusError key e)))"
    and "\<not> si_isConnected st \<Longrightarrow> ended (fst (op_deliver sortBy now c (OpStatus key st)))"
    by (auto intro!: deliver_ended simp: op_instance_def op_defs)
qed

lemma ended_ok: "ended c \<Longrightarrow> client_ok c \<and> \<not> in_flight c"
  by (simp add: ended_def in_flight_def)

text \<open>Requests answer dictionaries.\<close>

lemma hookup_okD:
  "hookup_ok op C s r \<Longrightarrow> filter is_hookup (snd r) \<noteq> [] \<Longrightarrow> \<exists>st \<in> C. filter is_hookup (snd r) = hookup op st"
  by (auto simp: hookup_ok_def split: if_splits)

lemma deliver_request:
  assumes "client_ok c" "OpRequest procedure r topic \<in> set (snd (op_deliver sortBy now c ev))"
  obtains d lv where "ev = OpSubscribed d \<or> ev = OpDictionary d" "serviceWithLeastLoad sortBy d = Some lv"
    "procedure = si_serviceId (lv_latestValue lv) @ ''.'' @ opn_operationName (co_operation c)" "r = opn_request (co_operation c)"
proof -
  let ?r = "operation_step sortBy (co_operation c) (co_state c) ev"
  have ok: "hookup_ok (co_operation c) (chosen sortBy ev) (co_state c) ?r"
    using assms(1) by (intro hookup_ok_step) (simp add: client_ok_def)
  have member: "OpRequest procedure r topic \<in> set (filter is_hookup (snd ?r))"
    using assms(2) by (simp add: deliver_simps del: operation_step.simps)
  then have "filter is_hookup (snd ?r) \<noteq> []" by (rule list.set_cases) simp_all
  with hookup_okD [OF ok] obtain st where st: "st \<in> chosen sortBy ev" "filter is_hookup (snd ?r) = hookup (co_operation c) st"
    by blast
  from member [unfolded st(2)] st(1) show ?thesis by (cases ev) (auto simp: hookup_def split: if_splits intro: that)
qed

text \<open>What holds of an operation's watches, given the last heartbeats: a timer runs on each of them, it is due no
  earlier than three seconds after the last heartbeat, and nothing but a connected status has passed.\<close>

type_synonym beats = "string \<Rightarrow> (nat \<times> rat) option"

definition watch_ok :: "nat \<Rightarrow> beats \<Rightarrow> string \<times> group \<Rightarrow> bool" where
  "watch_ok now beats w \<longleftrightarrow> (\<exists>d t load. gp_timer (snd w) = Some d \<and> now \<le> d \<and> beats (fst w) = Some (t, load)
     \<and> t + HEARTBEAT_TIMEOUT \<le> d \<and> (\<forall>k. gp_lastKey (snd w) = Some k \<longrightarrow> fst (snd (snd k))))"

text \<open>An operation in flight watches the instance it asked; \<open>asked t key\<close> says that it asked that instance at that time.\<close>

definition flight_ok :: "beats \<Rightarrow> (nat \<Rightarrow> string \<Rightarrow> bool) \<Rightarrow> 'p client_operation \<Rightarrow> bool" where
  "flight_ok beats asked c \<longleftrightarrow> (in_flight c \<longrightarrow> co_watches c \<noteq> [] \<and> (\<exists>d t0 t load.
     gp_timer (snd (last (co_watches c))) = Some d \<and> asked t0 (fst (last (co_watches c)))
     \<and> beats (fst (last (co_watches c))) = Some (t, load) \<and> d \<le> max t0 t + HEARTBEAT_TIMEOUT))"

definition co_ok :: "nat \<Rightarrow> beats \<Rightarrow> (nat \<Rightarrow> string \<Rightarrow> bool) \<Rightarrow> 'p client_operation \<Rightarrow> bool" where
  "co_ok now beats asked c \<longleftrightarrow> client_ok c \<and> (\<forall>w \<in> set (co_watches c). watch_ok now beats w) \<and> flight_ok beats asked c"

lemma co_ok_ended: "ended c \<Longrightarrow> co_ok now beats asked c"
  by (simp add: co_ok_def flight_ok_def ended_ok) (simp add: ended_def)

lemma co_ok_asked: "co_ok now beats asked c \<Longrightarrow> (\<And>t key. asked t key \<Longrightarrow> asked' t key) \<Longrightarrow> co_ok now beats asked' c"
  unfolding co_ok_def flight_ok_def by blast

lemma co_ok_now: "co_ok now beats asked c \<Longrightarrow>
    (\<forall>(key, g) \<in> set (co_watches c). \<forall>d. gp_timer g = Some d \<longrightarrow> now' \<le> d) \<Longrightarrow> co_ok now' beats asked c"
  unfolding co_ok_def watch_ok_def by fastforce

lemma co_ok_dictionary:
  assumes "co_ok now beats asked c" "dictionary_outcome sortBy now d c r"
    and known: "\<And>lv. serviceWithLeastLoad sortBy d = Some lv \<Longrightarrow>
      \<exists>t load. beats (lv_stream lv) = Some (t, load) \<and> t \<le> now \<and> lv_stream lv = si_serviceId (lv_latestValue lv)"
    and asked: "\<And>t key. asked t key \<Longrightarrow> asked' t key"
      "\<And>key request topic. OpRequest (key @ ''.'' @ opn_operationName (co_operation c)) request topic \<in> set (snd r) \<Longrightarrow> asked' now key"
  shows "co_ok now beats asked' (fst r)"
proof (cases "ended (fst r)")
  case True
  then show ?thesis by (rule co_ok_ended)
next
  case False
  with assms(2) have ok: "client_ok (fst r)" by (simp add: dictionary_outcome_def)
  have flight: "flight_ok beats asked' c" and watches: "\<forall>w \<in> set (co_watches c). watch_ok now beats w"
    using co_ok_asked [OF assms(1) asked(1)] by (simp_all add: co_ok_def)
  from False assms(2) consider
      "co_watches (fst r) = co_watches c" "in_flight (fst r) \<longrightarrow> in_flight c"
    | lv where "serviceWithLeastLoad sortBy d = Some lv" "co_watches (fst r) = new_watch now (lv_stream lv) # co_watches c"
        "in_flight c \<or> co_watches c = [] \<and> (\<exists>topic. OpRequest (si_serviceId (lv_latestValue lv) @ ''.'' @
           opn_operationName (co_operation c)) (opn_request (co_operation c)) topic \<in> set (snd r))"
    by (auto simp: dictionary_outcome_def)
  then show ?thesis
  proof cases
    case 1
    with ok flight watches show ?thesis by (auto simp: co_ok_def flight_ok_def)
  next
    case (2 lv)
    from known [OF 2(1)] obtain t load where lv: "beats (lv_stream lv) = Some (t, load)" "t \<le> now"
      "lv_stream lv = si_serviceId (lv_latestValue lv)" by blast
    then have "watch_ok now beats (new_watch now (lv_stream lv))" by (simp add: watch_ok_def new_watch_def)
    moreover have "flight_ok beats asked' (fst r)"
    proof (cases "in_flight c")
      case True
      with flight 2(2) show ?thesis by (auto simp: flight_ok_def)
    next
      case False
      with 2(2,3) lv asked(2) have "co_watches (fst r) = [new_watch now (lv_stream lv)]" "asked' now (lv_stream lv)" by auto
      with lv show ?thesis by (auto simp: flight_ok_def new_watch_def)
    qed
    ultimately show ?thesis using ok watches 2(2) by (simp add: co_ok_def)
  qed
qed

text \<open>A heartbeat of one instance starts the timers again on the watches of that instance.\<close>

definition renewed :: "nat \<Rightarrow> service_instance_status \<Rightarrow> 'p client_operation \<Rightarrow> 'p client_operation" where
  "renewed now v c = c\<lparr>co_watches := map (\<lambda>(key, g). (key, if key = si_serviceId v then watch_value now v g else g)) (co_watches c)\<rparr>"

lemma renewed_simps [simp]:
  "client_ok (renewed now v c) = client_ok c" "in_flight (renewed now v c) = in_flight c"
  "co_watches (renewed now v c) = [] \<longleftrightarrow> co_watches c = []" "co_operation (renewed now v c) = co_operation c"
  "co_state (renewed now v c) = co_state c"
  by (simp_all add: renewed_def client_ok_def in_flight_def split_beta comp_def)

lemma renewed_ok:
  assumes "co_ok now beats asked c" "si_isConnected v"
  shows "co_ok now (beats(si_serviceId v \<mapsto> (now, load))) asked (renewed now v c)"
proof -
  have "watch_ok now (beats(si_serviceId v \<mapsto> (now, load))) (key, if key = si_serviceId v then watch_value now v g else g)"
    if "(key, g) \<in> set (co_watches c)" for key g
    using that assms by (auto simp: co_ok_def watch_ok_def watch_value_def status_key_def)
  moreover have "flight_ok (beats(si_serviceId v \<mapsto> (now, load))) asked (renewed now v c)"
  proof (cases "in_flight c")
    case True
    obtain key g where w: "last (co_watches c) = (key, g)" by (cases "last (co_watches c)")
    from True assms(1) w obtain d t0 t l where flight: "co_watches c \<noteq> []" "gp_timer g = Some d" "asked t0 key"
      "beats key = Some (t, l)" "d \<le> max t0 t + HEARTBEAT_TIMEOUT"
      by (auto simp: co_ok_def flight_ok_def)
    from flight(1) w have "last (co_watches (renewed now v c)) = (key, if key = si_serviceId v then watch_value now v g else g)"
      by (simp add: renewed_def last_map)
    with flight show ?thesis
      by (cases "key = si_serviceId v") (auto simp: flight_ok_def watch_value_def)
  qed (simp add: flight_ok_def)
  ultimately show ?thesis using assms(1) by (auto simp: co_ok_def) (auto simp: renewed_def)
qed

lemma deliver_connected_run:
  "client_ok c \<Longrightarrow> si_isConnected v \<Longrightarrow>
     final_state (op_deliver sortBy now) c (map (\<lambda>(key, g). OpStatus key v) ws) = c"
  by (induction ws) (auto simp: deliver_connected)

lemma op_message_state:
  assumes "client_ok c1" "si_isConnected v" "co_watches c1 = new @ co_watches c"
  shows "fst (op_message sortBy now v (length (co_watches c)) c1 :: _ \<times> ('p, 'v) operation_call list) =
    c1\<lparr>co_watches := new @ co_watches (renewed now v c)\<rparr>"
proof -
  have "client_ok (c1\<lparr>co_watches := new @ co_watches (renewed now v c)\<rparr>)"
    using assms(1,3) by (simp add: client_ok_def renewed_def split_beta comp_def)
  from deliver_connected_run [OF this assms(2)] show ?thesis
    by (simp add: op_message_def Let_def assms(3) renewed_def)
qed

lemma message_outcome:
  assumes "dictionary_outcome sortBy now d c (c1, calls)" "si_isConnected v"
  shows "dictionary_outcome sortBy now d (renewed now v c)
    (fst (op_message sortBy now v (length (co_watches c)) c1 :: _ \<times> ('p, 'v) operation_call list), calls)"
proof (cases "ended c1")
  case True
  then have "fst (op_message sortBy now v (length (co_watches c)) c1 :: _ \<times> ('p, 'v) operation_call list) = c1"
    by (cases c1) (simp add: op_message_def Let_def ended_def)
  with True show ?thesis by (simp add: dictionary_outcome_def)
next
  case False
  then obtain new where new: "client_ok c1" "co_watches c1 = new @ co_watches c"
    "co_watches c1 = co_watches c \<Longrightarrow> new = []"
    using assms(1) by (auto simp: dictionary_outcome_def)
  have ok: "client_ok (c1\<lparr>co_watches := new @ co_watches (renewed now v c)\<rparr>)"
    using new(1,2) by (simp add: client_ok_def renewed_def split_beta comp_def)
  from False assms(1) new(2) show ?thesis
    unfolding op_message_state [OF new(1) assms(2) new(2)] dictionary_outcome_def
    by (auto simp: ok in_flight_def)
qed

lemma least_load_member:
  assumes "sorts_by sortBy" "serviceWithLeastLoad sortBy d = Some lv"
  shows "lv \<in> set (obj_values (lvd_values d))"
  using assms by (auto simp: serviceWithLeastLoad_def sorts_by_def find_Some_iff) (metis nth_mem)

lemma least_load_empty [simp]: "sorts_by sortBy \<Longrightarrow> serviceWithLeastLoad sortBy empty_dictionary = None"
  using least_load_member [of sortBy empty_dictionary] by (cases "serviceWithLeastLoad sortBy empty_dictionary")
    (auto simp: empty_dictionary_def obj_values_def)

lemma least_load_known:
  assumes "heartbeat_run ty tr h" "ty \<noteq> []" "sorts_by sortBy" "serviceWithLeastLoad sortBy (hb_dictionary h) = Some lv"
  shows "\<exists>t load. last_beat ty tr (lv_stream lv) = Some (t, load) \<and> t \<le> hb_now h \<and> lv_stream lv = si_serviceId (lv_latestValue lv)"
proof -
  have "lv \<in> set (obj_values (lvd_values (hb_dictionary h)))" using assms(3,4) by (rule least_load_member)
  with connected_instance [OF assms(1,2) _ least_load_connected [OF assms(4)]] obtain t load where
    "last_beat ty tr (si_serviceId (lv_latestValue lv)) = Some (t, load)" "lv_stream lv = si_serviceId (lv_latestValue lv)"
    by metis
  with last_beat_past [OF assms(1)] show ?thesis by auto
qed

lemma news_beats:
  assumes "heartbeat_run ty tr h" "ty \<noteq> []"
  shows "case news_of ty h ev of
      NoNews \<Rightarrow> last_beat ty ((hb_now h, ev) # tr) = last_beat ty tr
    | NewStatus v \<Rightarrow> si_isConnected v
        \<and> (\<exists>load. last_beat ty ((hb_now h, ev) # tr) = (last_beat ty tr)(si_serviceId v \<mapsto> (hb_now h, load)))
    | Broken e \<Rightarrow> emitted_dictionaries (snd (heartbeat_step ty h ev)) = [empty_dictionary]"
proof -
  have up: "hb_active h = is_up tr" using heartbeat_run_tracks [OF assms] by (simp add: tracks_all_def)
  have down: "\<not> is_up tr \<Longrightarrow> last_beat ty tr key = None" for key by (rule last_beat_down)
  show ?thesis
  proof (cases ev)
    case (StatusMessage status)
    show ?thesis
    proof (cases "createForConnected (st_Type status) (st_Instance status) (st_TimeStamp status) (st_Load status)")
      case (Inl e)
      then show ?thesis using StatusMessage by (auto simp: up)
    next
      case (Inr v)
      then have v: "st_Instance status \<noteq> []" "v = \<lparr>si_serviceType = st_Type status, si_serviceId = st_Instance status,
        si_timestamp = Num (st_TimeStamp status), si_serviceLoad = Num (st_Load status), si_isConnected = True\<rparr>"
        by (simp_all add: status_ok)
      with Inr StatusMessage show ?thesis by (auto simp: up intro!: exI [of _ "st_Load status"] ext)
    qed
  qed (auto simp: up down hb_restart_def)
qed

text \<open>An error of the status stream ends every operation that watches an instance.\<close>

lemma ended_stays: "ended c \<Longrightarrow> ended (final_state (op_deliver sortBy now) c evs)" if "\<forall>ev \<in> set evs. \<not> is_dictionary ev"
  using that
proof (induction evs arbitrary: c)
  case (Cons ev evs)
  then have "ended (fst (op_deliver sortBy now c ev))"
    using deliver_other [of c ev sortBy now] ended_ok by fastforce
  with Cons show ?case by simp
qed simp

lemma broken_run:
  assumes "client_ok c" "in_flight c \<longrightarrow> co_watches c \<noteq> []"
  shows "co_ok now beats asked (final_state (op_deliver sortBy now) c (map (\<lambda>(key, g). OpStatusError key e :: 'v operation_event) (co_watches c)))"
proof (cases "co_watches c")
  case Nil
  with assms show ?thesis by (simp add: co_ok_def flight_ok_def)
next
  case (Cons w ws)
  obtain key g where w: "w = (key, g)" by (cases w)
  have "ended (fst (op_deliver sortBy now c (OpStatusError key e :: 'v operation_event)))"
    using assms(1) Cons w by (intro deliver_kills(1)) simp_all
  then have "ended (final_state (op_deliver sortBy now) (fst (op_deliver sortBy now c (OpStatusError key e :: 'v operation_event)))
      (map (\<lambda>(key, g). OpStatusError key e :: 'v operation_event) ws))"
    by (rule ended_stays [rotated]) auto
  then show ?thesis unfolding Cons w by (simp add: co_ok_ended)
qed

lemma op_backend_ok:
  fixes c :: "'p client_operation"
  assumes r_def: "r = (op_backend sortBy ty h ev c :: _ \<times> ('p, 'v) operation_call list)"
    and run: "heartbeat_run ty tr h" "heartbeat_run ty ((hb_now h, ev) # tr) (fst (heartbeat_step ty h ev))"
    and ty: "ty \<noteq> []" "sorts_by sortBy" and ev: "\<forall>t. ev \<noteq> Advance t"
    and c: "co_ok (hb_now h) (last_beat ty tr) asked c"
    and asked: "\<And>t key. asked t key \<Longrightarrow> asked' t key"
      "\<And>key request topic. OpRequest (key @ ''.'' @ opn_operationName (co_operation c)) request topic \<in> set (snd r) \<Longrightarrow>
         asked' (hb_now h) key"
  shows "co_ok (hb_now h) (last_beat ty ((hb_now h, ev) # tr)) asked' (fst r)"
proof -
  let ?now = "hb_now h" and ?h = "fst (heartbeat_step ty h ev)" and ?beats = "last_beat ty ((hb_now h, ev) # tr)"
  let ?D = "emitted_dictionaries (snd (heartbeat_step ty h ev))"
  have now: "hb_now ?h = ?now" using ev by (cases ev) (simp_all only: heartbeat_now heartbeat_event.case, simp)
  have cok: "client_ok c" using c by (simp add: co_ok_def)
  define r1 :: "_ \<times> ('p, 'v) operation_call list" where "r1 = run (op_deliver sortBy ?now) c (map OpDictionary ?D)"
  have out: "dictionary_outcome sortBy ?now (hb_dictionary ?h) c r1"
  proof (cases "?D = []")
    case True
    then show ?thesis by (simp add: r1_def dictionary_outcome_def cok)
  next
    case False
    then have "?D = [hb_dictionary ?h]" using emitted_now [of ty h ev] by blast
    moreover have "dictionary_outcome sortBy ?now (hb_dictionary ?h) c
        (op_deliver sortBy ?now c (OpDictionary (hb_dictionary ?h)) :: _ \<times> ('p, 'v) operation_call list)"
      using cok by (intro deliver_dictionary) simp_all
    ultimately show ?thesis by (simp add: r1_def split_beta Let_def run.simps(2))
  qed
  have known: "\<exists>t load. ?beats (lv_stream lv) = Some (t, load) \<and> t \<le> ?now \<and> lv_stream lv = si_serviceId (lv_latestValue lv)"
    if "serviceWithLeastLoad sortBy (hb_dictionary ?h) = Some lv" for lv
    using least_load_known [OF run(2) ty that] by (simp only: now)
  note news = news_beats [OF run(1) ty(1), of ev]
  have calls: "set (snd r1) \<subseteq> set (snd r)"
    by (auto simp: r_def op_backend_def r1_def Let_def split_beta)
  with asked(2) have requested: "OpRequest (key @ ''.'' @ opn_operationName (co_operation c)) request topic \<in> set (snd r1) \<Longrightarrow>
      asked' ?now key" for key request topic by blast
  show ?thesis
  proof (cases "news_of ty h ev")
    case NoNews
    then have "fst r = fst r1" by (simp add: r_def op_backend_def r1_def split_beta Let_def)
    moreover have "co_ok ?now ?beats asked c" using c news NoNews by simp
    ultimately show ?thesis
      using co_ok_dictionary [of ?now ?beats asked c sortBy "hb_dictionary ?h" r1 asked', OF _ out known asked(1) requested] by simp
  next
    case (NewStatus v)
    then obtain load where v: "si_isConnected v" "?beats = (last_beat ty tr)(si_serviceId v \<mapsto> (?now, load))"
      using news by auto
    have "fst r = fst (op_message sortBy ?now v (length (co_watches c)) (fst r1) :: _ \<times> ('p, 'v) operation_call list)"
      using NewStatus by (simp add: r_def op_backend_def r1_def split_beta Let_def)
    moreover have "dictionary_outcome sortBy ?now (hb_dictionary ?h) (renewed ?now v c)
        (fst (op_message sortBy ?now v (length (co_watches c)) (fst r1) :: _ \<times> ('p, 'v) operation_call list), snd r1)"
      using out v(1) by (intro message_outcome) simp_all
    moreover have "co_ok ?now ?beats asked (renewed ?now v c)"
      unfolding v(2) using c v(1) by (rule renewed_ok)
    ultimately show ?thesis
      using co_ok_dictionary [of ?now ?beats asked "renewed ?now v c" sortBy "hb_dictionary ?h" _ asked', OF _ _ known asked(1)]
        requested by fastforce
  next
    case (Broken e)
    then have D: "?D = [empty_dictionary]" using news by simp
    then have "hb_dictionary ?h = empty_dictionary" using emitted_now [of ty h ev] by auto
    with out ty(2) have c1: "client_ok (fst r1)" "in_flight (fst r1) \<longrightarrow> co_watches (fst r1) \<noteq> []"
      using c ended_ok [of "fst r1"] by (auto simp: dictionary_outcome_def co_ok_def flight_ok_def)
    have "fst r = final_state (op_deliver sortBy ?now) (fst r1)
        (map (\<lambda>(key, g). OpStatusError key e :: 'v operation_event) (co_watches (fst r1)))"
      using Broken by (simp add: r_def op_backend_def r1_def split_beta Let_def)
    then show ?thesis using broken_run [OF c1] by simp
  qed
qed

text \<open>The whole client.\<close>

definition asked_in :: "(nat \<times> nat \<times> ('p, 'v) operation_call) list \<Rightarrow> nat \<Rightarrow> 'p operation \<Rightarrow> nat \<Rightarrow> string \<Rightarrow> bool" where
  "asked_in out n op t key \<longleftrightarrow>
     (\<exists>request topic. (t, n, OpRequest (key @ ''.'' @ opn_operationName op) request topic) \<in> set out)"

definition flow_ok :: "string \<Rightarrow> (nat \<times> ('p, 'v) flow_event) list \<Rightarrow> (nat \<times> nat \<times> ('p, 'v) operation_call) list \<Rightarrow> 'p service_flow \<Rightarrow> bool" where
  "flow_ok ty tr out s \<longleftrightarrow> (\<forall>n < length (fl_operations s).
     co_ok (hb_now (fl_heartbeats s)) (last_beat ty (backend_events tr))
       (asked_in out n (co_operation (fl_operations s ! n))) (fl_operations s ! n))"

lemma run_operation [simp]: "co_operation (final_state (op_deliver sortBy now) c evs) = co_operation c"
  by (induction evs arbitrary: c) (simp_all add: deliver_simps)

lemma op_backend_operation [simp]: "co_operation (fst (op_backend sortBy ty h ev c)) = co_operation c"
  by (simp add: op_backend_def op_message_def split_beta Let_def split: group_news.split)

lemma numbered_calls:
  "(n, call) \<in> set (concat (map (\<lambda>(n, c, calls). map (\<lambda>call. (n, call)) calls) (enumerate k rs))) \<longleftrightarrow>
     k \<le> n \<and> n < k + length rs \<and> call \<in> set (snd (rs ! (n - k)))"
proof (induction rs arbitrary: k)
  case (Cons r rs)
  show ?case
  proof (cases "n = k")
    case True
    with Cons show ?thesis by (cases r) auto
  next
    case False
    with Cons show ?thesis by (cases r) (auto simp: nth_Cons' image_iff)
  qed
qed simp

lemma backend_calls:
  fixes call :: "('p, 'v) operation_call"
  shows "(n, call) \<in> set (snd (flow_step sortBy ty s (Backend ev))) \<longleftrightarrow>
     n < length (fl_operations s) \<and> call \<in> set (snd (op_backend sortBy ty (fl_heartbeats s) ev (fl_operations s ! n)))"
proof -
  let ?rs = "map (op_backend sortBy ty (fl_heartbeats s) ev :: _ \<Rightarrow> _ \<times> ('p, 'v) operation_call list) (fl_operations s)"
  have "snd (flow_step sortBy ty s (Backend ev)) = concat (map (\<lambda>(n, c, calls). map (\<lambda>call. (n, call)) calls) (enumerate 0 ?rs))"
    by (simp add: Let_def)
  then show ?thesis by (simp only: numbered_calls) auto
qed

lemma op_backend_clock [simp]: "op_backend sortBy ty h (Advance t) c = (c, [])"
  by (simp add: op_backend_def)

lemma watch_update_ok:
  assumes "client_ok c" "co_watches c ! i = (key, g)"
  shows "client_ok (c\<lparr>co_watches := (co_watches c)[i := (key, g')]\<rparr>)"
proof -
  have "map fst ((co_watches c)[i := (key, g')]) = map fst (co_watches c)"
    using assms(2) by (cases "i < length (co_watches c)") (simp_all add: map_update list_update_same_conv list_update_beyond)
  then show ?thesis using assms(1) by (simp add: client_ok_def)
qed

lemma op_missed_ok:
  assumes "co_ok now beats asked c"
  shows "co_ok now beats asked (fst (op_missed sortBy ty now i c :: _ \<times> ('p, 'v) operation_call list))"
    and "co_operation (fst (op_missed sortBy ty now i c :: _ \<times> ('p, 'v) operation_call list)) = co_operation c"
proof -
  obtain key g where w: "co_watches c ! i = (key, g)" by (cases "co_watches c ! i")
  show "co_operation (fst (op_missed sortBy ty now i c :: _ \<times> ('p, 'v) operation_call list)) = co_operation c"
    by (simp add: op_missed_def w deliver_simps split: sum.split)
  show "co_ok now beats asked (fst (op_missed sortBy ty now i c :: _ \<times> ('p, 'v) operation_call list))"
  proof (cases "i < length (co_watches c) \<and> (\<exists>v. createForDisconnected ty key = Inr v)")
    case False
    with assms show ?thesis by (cases "createForDisconnected ty key") (auto simp: op_missed_def w)
  next
    case True
    then obtain v where v: "createForDisconnected ty key = Inr v" "\<not> si_isConnected v"
      by (auto simp: status_ok)
    have "(key, g) \<in> set (co_watches c)" using True w nth_mem [of i "co_watches c"] by simp
    then have "watch_ok now beats (key, g)" using assms by (simp add: co_ok_def)
    then have "gp_lastKey g \<noteq> Some (status_key v)"
      using v(2) by (auto simp: watch_ok_def status_key_def)
    note lastKey = this
    let ?c = "c\<lparr>co_watches := (co_watches c)[i := (key, g\<lparr>gp_timer := None, gp_lastKey := Some (status_key v)\<rparr>)]\<rparr>"
    have "client_ok ?c" using assms w by (simp add: co_ok_def watch_update_ok)
    moreover have "key \<in> set (map fst (co_watches ?c))" using True by (simp add: map_update set_update_memI)
    ultimately have "ended (fst (op_deliver sortBy now ?c (OpStatus key v) :: _ \<times> ('p, 'v) operation_call list))"
      using v(2) by (intro deliver_kills(2))
    with lastKey show ?thesis using True v(1) by (simp add: op_missed_def w co_ok_ended)
  qed
qed

lemma started_ok:
  fixes op :: "'p operation"
  assumes "heartbeat_run ty tr h" "ty \<noteq> []" "sorts_by sortBy"
    and r: "r = (op_deliver sortBy (hb_now h) \<lparr>co_operation = op, co_state = new_operation, co_watches = []\<rparr>
       (OpSubscribed (hb_dictionary h)) :: _ \<times> ('p, 'v) operation_call list)"
    and asked: "\<And>key request topic. OpRequest (key @ ''.'' @ opn_operationName op) request topic \<in> set (snd r) \<Longrightarrow> asked (hb_now h) key"
  shows "co_ok (hb_now h) (last_beat ty tr) asked (fst r)"
proof -
  let ?c = "\<lparr>co_operation = op, co_state = new_operation, co_watches = []\<rparr>"
  have c: "client_ok ?c" "\<not> in_flight ?c" "co_ok (hb_now h) (last_beat ty tr) (\<lambda>t key. False) ?c"
    by (simp_all add: client_ok_def co_ok_def flight_ok_def in_flight_def op_inv_def new_operation_def)
  have "dictionary_outcome sortBy (hb_now h) (hb_dictionary h) ?c r"
    unfolding r using c(1) by (intro deliver_dictionary) (simp_all add: new_operation_def)
  then show ?thesis
    by (rule co_ok_dictionary [OF c(3)]) (use least_load_known [OF assms(1-3)] asked in simp_all)
qed

lemma flow_ok_step:
  assumes run: "flow_run sortBy ty tr out s" and trans: "flow_trans sortBy ty s ev"
    and ty: "ty \<noteq> []" "sorts_by sortBy" and ok: "flow_ok ty tr out s"
  shows "flow_ok ty ((hb_now (fl_heartbeats s), ev) # tr)
    (out @ map (\<lambda>call. (hb_now (fl_heartbeats s), call)) (snd (flow_step sortBy ty s ev))) (fst (flow_step sortBy ty s ev))"
    (is "flow_ok ty ?tr ?out ?s")
proof -
  let ?h = "fl_heartbeats s" and ?now = "hb_now (fl_heartbeats s)"
  have hb: "heartbeat_run ty (backend_events tr) ?h" "heartbeat_run ty (backend_events ?tr) (fl_heartbeats ?s)"
    using flow_heartbeats [OF run] flow_heartbeats [OF flow_run.step [OF run trans]] by simp_all
  have old: "co_ok ?now (last_beat ty (backend_events tr)) (asked_in out n (co_operation (fl_operations s ! n))) (fl_operations s ! n)"
    if "n < length (fl_operations s)" for n using ok that by (simp add: flow_ok_def)
  have more: "asked_in out n op t key \<Longrightarrow> asked_in ?out n op t key" for n op t key by (auto simp: asked_in_def)
  have kept: "co_ok ?now (last_beat ty (backend_events tr)) (asked_in ?out n (co_operation (fl_operations s ! n))) (fl_operations s ! n)"
    if "n < length (fl_operations s)" for n
    using co_ok_asked [OF old [OF that], of "asked_in ?out n (co_operation (fl_operations s ! n))"] more by blast
  show ?thesis
  proof (cases ev)
    case (Backend e)
    show ?thesis
    proof (cases "\<exists>t. e = Advance t")
      case True
      then obtain t where e: "e = Advance t" by blast
      from trans have "\<forall>c \<in> set (fl_operations s). \<forall>(key, g) \<in> set (co_watches c). \<forall>d. gp_timer g = Some d \<longrightarrow> t \<le> d"
        unfolding Backend e by cases simp_all
      then have moved: "co_ok t beats asked (fl_operations s ! n)"
        if "co_ok ?now beats asked (fl_operations s ! n)" "n < length (fl_operations s)" for n beats asked
        using co_ok_now [OF that(1)] nth_mem [OF that(2)] by blast
      have step: "fl_heartbeats ?s = ?h\<lparr>hb_now := t\<rparr>" "fl_operations ?s = fl_operations s"
        by (simp_all add: Backend e Let_def comp_def)
      have "last_beat ty (backend_events ?tr) = last_beat ty (backend_events tr)"
        by (rule ext) (simp add: Backend e)
      with moved [OF kept] show ?thesis unfolding flow_ok_def step by simp
    next
      case False
      have step: "fl_heartbeats ?s = fst (heartbeat_step ty ?h e)" "length (fl_operations ?s) = length (fl_operations s)"
        "n < length (fl_operations s) \<Longrightarrow> fl_operations ?s ! n = fst (op_backend sortBy ty ?h e (fl_operations s ! n) :: _ \<times> ('a, 'b) operation_call list)" for n
        by (simp_all add: Backend Let_def del: heartbeat_step.simps)
      have now: "hb_now (fst (heartbeat_step ty ?h e)) = ?now" using False by (cases e) (simp_all add: heartbeat_now del: heartbeat_step.simps)
      have "co_ok ?now (last_beat ty ((?now, e) # backend_events tr)) (asked_in ?out n (co_operation (fl_operations s ! n)))
          (fst (op_backend sortBy ty ?h e (fl_operations s ! n) :: _ \<times> ('a, 'b) operation_call list))"
        if n: "n < length (fl_operations s)" for n
      proof (rule op_backend_ok [OF refl hb(1) _ ty _ old [OF n]])
        show "heartbeat_run ty ((?now, e) # backend_events tr) (fst (heartbeat_step ty ?h e))"
          using hb(2) unfolding step(1) by (simp add: Backend)
        show "\<forall>t. e \<noteq> Advance t" using False by blast
        show "asked_in ?out n (co_operation (fl_operations s ! n)) t key"
          if "asked_in out n (co_operation (fl_operations s ! n)) t key" for t key using more that .
        show "asked_in ?out n (co_operation (fl_operations s ! n)) ?now key"
          if "OpRequest (key @ ''.'' @ opn_operationName (co_operation (fl_operations s ! n))) request topic
            \<in> set (snd (op_backend sortBy ty ?h e (fl_operations s ! n) :: _ \<times> ('a, 'b) operation_call list))" for key request topic
          using that n backend_calls [of n _ sortBy ty s e] unfolding asked_in_def Backend by fastforce
      qed
      then show ?thesis unfolding flow_ok_def step(1,2) now by (simp add: step(3)) (simp add: Backend)
    qed
  next
    case (StartOperation op)
    define r :: "_ \<times> ('a, 'b) operation_call list" where
      "r = op_deliver sortBy ?now \<lparr>co_operation = op, co_state = new_operation, co_watches = []\<rparr> (OpSubscribed (hb_dictionary ?h))"
    have step: "flow_step sortBy ty s ev =
        (s\<lparr>fl_operations := fl_operations s @ [fst r]\<rparr>, map (\<lambda>call. (length (fl_operations s), call)) (snd r))"
      by (simp add: StartOperation r_def split_beta Let_def)
    have op: "co_operation (fst r) = op" by (simp add: r_def deliver_simps)
    have "co_ok ?now (last_beat ty (backend_events tr)) (asked_in ?out (length (fl_operations s)) op) (fst r)"
    proof (rule started_ok [OF hb(1) ty r_def])
      fix key request topic
      assume "OpRequest (key @ ''.'' @ opn_operationName op) request topic \<in> set (snd r)"
      then show "asked_in ?out (length (fl_operations s)) op ?now key"
        unfolding asked_in_def step by fastforce
    qed
    with kept op show ?thesis
      unfolding flow_ok_def step by (auto simp: nth_append less_Suc_eq StartOperation)
  next
    case (WatchMissed n i)
    let ?c = "fst (op_missed sortBy ty ?now i (fl_operations s ! n) :: _ \<times> ('a, 'b) operation_call list)"
    have "co_ok ?now (last_beat ty (backend_events tr)) (asked_in ?out n (co_operation (fl_operations s ! n))) ?c"
      "co_operation ?c = co_operation (fl_operations s ! n)" if "n < length (fl_operations s)"
      by (rule op_missed_ok [OF kept [OF that]])+
    with kept show ?thesis
      unfolding flow_ok_def by (auto simp: WatchMissed op_update_def split_beta Let_def nth_list_update)
  next
    case (Answer n e)
    from trans have e: "\<not> is_dictionary e" unfolding Answer by cases (cases e; simp)
    have "co_ok ?now (last_beat ty (backend_events tr)) (asked_in ?out n (co_operation (fl_operations s ! n)))
        (fst (op_deliver sortBy ?now (fl_operations s ! n) e))" if n: "n < length (fl_operations s)"
    proof -
      have "client_ok (fl_operations s ! n)" using kept [OF n] by (simp add: co_ok_def)
      from deliver_other [OF this e, of sortBy ?now] show ?thesis
        by (elim disjE) (simp_all add: kept [OF n] co_ok_ended)
    qed
    with kept show ?thesis
      unfolding flow_ok_def by (auto simp: Answer op_update_def split_beta Let_def nth_list_update deliver_simps)
  qed
qed

lemma flow_run_ok:
  assumes "flow_run sortBy ty tr out s" "ty \<noteq> []" "sorts_by sortBy"
  shows "flow_ok ty tr out s"
  using assms
proof (induction rule: flow_run.induct)
  case init
  then show ?case by (simp add: flow_ok_def new_service_flow_def)
next
  case (step tr out s ev)
  then show ?case using flow_ok_step by blast
qed

text \<open>A request answers a dictionary the stream holds after the step.\<close>

lemma status_run_quiet:
  fixes evs :: "'v operation_event list" and call :: "('p, 'v) operation_call"
  assumes "client_ok c" "\<forall>ev \<in> set evs. \<not> is_dictionary ev"
  shows "OpRequest procedure r topic \<notin> set (outputs (op_deliver sortBy now) c evs)"
  using assms
proof (induction evs arbitrary: c)
  case (Cons ev evs)
  have other: "\<not> is_dictionary ev" using Cons.prems(2) by simp
  have "OpRequest procedure r topic \<notin> set (snd (op_deliver sortBy now c ev))"
  proof
    assume "OpRequest procedure r topic \<in> set (snd (op_deliver sortBy now c ev))"
    then show False by (rule deliver_request [OF Cons.prems(1)]) (use other in auto)
  qed
  moreover have "client_ok (fst (op_deliver sortBy now c ev))"
    using deliver_other [OF Cons.prems(1) other, of sortBy now] Cons.prems(1) by (auto simp: ended_ok)
  ultimately show ?case using Cons by simp
qed simp

lemma message_quiet:
  assumes "client_ok c"
  shows "OpRequest procedure r topic \<notin> set (snd (op_message sortBy now v n c))"
proof -
  let ?k = "length (co_watches c) - n"
  let ?f = "\<lambda>(key, g). (key, if key = si_serviceId v then watch_value now v g else g)"
  have "map fst (take ?k (co_watches c) @ map ?f (drop ?k (co_watches c))) = map fst (take ?k (co_watches c) @ drop ?k (co_watches c))"
    unfolding map_append by (simp add: split_beta comp_def)
  then have "client_ok (c\<lparr>co_watches := take ?k (co_watches c) @ map ?f (drop ?k (co_watches c))\<rparr>)"
    using assms by (simp add: client_ok_def)
  then show ?thesis unfolding op_message_def Let_def by (rule status_run_quiet) auto
qed

lemma op_backend_request:
  assumes "client_ok c" "(OpRequest procedure r topic :: ('p, 'v) operation_call) \<in> set (snd (op_backend sortBy ty h ev c))"
  obtains lv where "serviceWithLeastLoad sortBy (hb_dictionary (fst (heartbeat_step ty h ev))) = Some lv"
    "procedure = si_serviceId (lv_latestValue lv) @ ''.'' @ opn_operationName (co_operation c)"
proof -
  let ?d = "hb_dictionary (fst (heartbeat_step ty h ev))" and ?now = "hb_now h"
  let ?q = "OpRequest procedure r topic :: ('p, 'v) operation_call"
  define D where "D = emitted_dictionaries (snd (heartbeat_step ty h ev))"
  have D: "D \<in> {[], [?d]}" unfolding D_def by (rule emitted_now)
  define r1 :: "'p client_operation \<times> ('p, 'v) operation_call list" where
    "r1 = run (op_deliver sortBy ?now) c (map OpDictionary D)"
  have ok: "client_ok (fst r1)"
    using D deliver_dictionary [OF assms(1), of "OpDictionary ?d" ?d sortBy ?now] assms(1)
    by (auto simp: r1_def dictionary_outcome_def run.simps(2) split_beta Let_def ended_ok)
  have quiet: "?q \<notin> set (snd (op_message sortBy ?now v n (fst r1)))"
    "?q \<notin> set (outputs (op_deliver sortBy ?now) (fst r1) (map (\<lambda>(key, g). OpStatusError key e) (co_watches (fst r1))))" for v n e
    by (rule message_quiet [OF ok]) (rule status_run_quiet [OF ok], auto)
  have "?q \<in> set (snd r1)"
    using assms(2) quiet
    by (auto simp: op_backend_def Let_def split_beta r1_def D_def split: group_news.splits)
  with D have "D = [?d]" "?q \<in> set (snd (op_deliver sortBy ?now c (OpDictionary ?d)))"
    by (auto simp: r1_def)
  from this(2) show ?thesis by (rule deliver_request [OF assms(1)]) (auto intro: that)
qed

lemma request_least_load:
  fixes s :: "'p service_flow" and ev :: "('p, 'v) flow_event"
  assumes run: "flow_run sortBy ty tr out s" and trans: "flow_trans sortBy ty s ev" and ty: "ty \<noteq> []" "sorts_by sortBy"
    and call: "(n, OpRequest procedure r topic) \<in> set (snd (flow_step sortBy ty s ev))"
  obtains lv where "serviceWithLeastLoad sortBy (hb_dictionary (fl_heartbeats (fst (flow_step sortBy ty s ev)))) = Some lv"
    "procedure = si_serviceId (lv_latestValue lv) @ ''.'' @ opn_operationName (co_operation (fl_operations (fst (flow_step sortBy ty s ev)) ! n))"
proof -
  have ok: "client_ok (fl_operations s ! m)" if "m < length (fl_operations s)" for m
    using flow_run_ok [OF run ty] that by (simp add: flow_ok_def co_ok_def)
  show ?thesis
  proof (cases ev)
    case (Backend e)
    with call have n: "n < length (fl_operations s)"
      "(OpRequest procedure r topic :: ('p, 'v) operation_call) \<in> set (snd (op_backend sortBy ty (fl_heartbeats s) e (fl_operations s ! n)))"
      by (simp_all only: backend_calls)
    have "fl_operations (fst (flow_step sortBy ty s ev)) ! n =
        fst (op_backend sortBy ty (fl_heartbeats s) e (fl_operations s ! n) :: _ \<times> ('p, 'v) operation_call list)"
      using n(1) by (simp add: Backend Let_def)
    moreover obtain lv where "serviceWithLeastLoad sortBy (hb_dictionary (fst (heartbeat_step ty (fl_heartbeats s) e))) = Some lv"
      "procedure = si_serviceId (lv_latestValue lv) @ ''.'' @ opn_operationName (co_operation (fl_operations s ! n))"
      using op_backend_request [OF ok [OF n(1)] n(2)] .
    ultimately show ?thesis using that Backend
      by (simp add: flow_step_heartbeats del: flow_step.simps heartbeat_step.simps)
  next
    case (StartOperation op)
    let ?c = "\<lparr>co_operation = op, co_state = new_operation, co_watches = []\<rparr>"
    have ok: "client_ok ?c" by (simp add: client_ok_def new_operation_def op_inv_def)
    have n: "n = length (fl_operations s)" "(OpRequest procedure r topic :: ('p, 'v) operation_call) \<in>
        set (snd (op_deliver sortBy (hb_now (fl_heartbeats s)) ?c (OpSubscribed (hb_dictionary (fl_heartbeats s)))))"
      using call by (auto simp: StartOperation split_beta Let_def)
    have step: "fl_heartbeats (fst (flow_step sortBy ty s ev)) = fl_heartbeats s"
      "co_operation (fl_operations (fst (flow_step sortBy ty s ev)) ! n) = op"
      by (simp_all add: n(1) StartOperation split_beta Let_def deliver_simps del: operation_step.simps)
    show ?thesis
      by (rule deliver_request [OF ok n(2)]) (use that step in simp_all)
  next
    case (WatchMissed m i)
    have "OpRequest procedure r topic \<notin> set (snd (op_missed sortBy ty now i c :: _ \<times> ('p, 'v) operation_call list))" if "client_ok c" for c now
    proof -
      obtain key g where w: "co_watches c ! i = (key, g)" by (cases "co_watches c ! i")
      note watch_update_ok [OF that w]
      then show ?thesis
        by (auto simp: op_missed_def w split: sum.split elim!: deliver_request)
    qed
    with call ok show ?thesis by (auto simp: WatchMissed op_update_def split_beta Let_def split: if_splits)
  next
    case (Answer m e)
    from trans have e: "\<not> is_dictionary e" unfolding Answer by cases (cases e; simp)
    have "OpRequest procedure r topic \<notin> set (snd (op_deliver sortBy now c e))" if "client_ok c" for c :: "'p client_operation" and now
      using e by (auto elim!: deliver_request [OF that])
    with call ok show ?thesis by (auto simp: Answer op_update_def split_beta Let_def split: if_splits)
  qed
qed

section \<open>Properties\<close>

text \<open>C7: a request goes out only to an instance of the service whose last heartbeat is no more than three seconds old
  at that moment, under that instance's name, and no instance with a fresh heartbeat has told a smaller load: whatever
  heartbeats, timers, connection changes and other operations came before, and whether the request goes out because
  the operation starts or because a heartbeat brings an instance it was waiting for.\<close>

theorem requests_reach_live_instances:
  fixes s :: "'p service_flow" and ev :: "('p, 'v) flow_event"
  assumes "flow_run sortBy ty tr out s" "flow_trans sortBy ty s ev" "ty \<noteq> []" "sorts_by sortBy"
    and "(n, OpRequest procedure request topic) \<in> set (snd (flow_step sortBy ty s ev))"
    and "beats = last_beat ty (backend_events ((hb_now (fl_heartbeats s), ev) # tr))"
  shows "\<exists>key t load. procedure = key @ ''.'' @ opn_operationName (co_operation (fl_operations (fst (flow_step sortBy ty s ev)) ! n))
    \<and> beats key = Some (t, load) \<and> hb_now (fl_heartbeats (fst (flow_step sortBy ty s ev))) \<le> t + 3000
    \<and> (\<forall>key' t' load'. beats key' = Some (t', load') \<and> hb_now (fl_heartbeats (fst (flow_step sortBy ty s ev))) < t' + 3000
         \<longrightarrow> load \<le> load')"
proof -
  let ?h = "fl_heartbeats (fst (flow_step sortBy ty s ev))"
  have run: "heartbeat_run ty (backend_events ((hb_now (fl_heartbeats s), ev) # tr)) ?h"
    using flow_heartbeats [OF flow_run.step [OF assms(1,2)]] .
  obtain lv where lv: "serviceWithLeastLoad sortBy (hb_dictionary ?h) = Some lv"
    "procedure = si_serviceId (lv_latestValue lv) @ ''.'' @ opn_operationName (co_operation (fl_operations (fst (flow_step sortBy ty s ev)) ! n))"
    using request_least_load [OF assms(1-5)] .
  have "lv \<in> set (obj_values (lvd_values (hb_dictionary ?h)))" using assms(4) lv(1) by (rule least_load_member)
  then obtain t load where t: "beats (si_serviceId (lv_latestValue lv)) = Some (t, load)" "hb_now ?h \<le> t + HEARTBEAT_TIMEOUT"
    "si_serviceLoad (lv_latestValue lv) = Num load"
    using connected_instance [OF run assms(3) _ least_load_connected [OF lv(1)]] assms(6) by metis
  have "load \<le> load'" if beat: "beats key' = Some (t', load')" "hb_now ?h < t' + 3000" for key' t' load'
  proof -
    obtain lv' where "lv' \<in> set (obj_values (lvd_values (hb_dictionary ?h)))" "si_isConnected (lv_latestValue lv')"
      "si_serviceLoad (lv_latestValue lv') = Num load'"
      using fresh_instance [OF run assms(3)] beat assms(6) by (metis HEARTBEAT_TIMEOUT_def)
    with least_load_chosen [OF assms(4), of "hb_dictionary ?h"] lv(1) t(3) show ?thesis by (auto dest!: bspec)
  qed
  with t lv(2) show ?thesis by (auto simp: HEARTBEAT_TIMEOUT_def)
qed

text \<open>C20: an operation in flight has asked an instance of which the client knows the last heartbeat, and no more than
  three seconds have passed since it asked or since that heartbeat: when an instance falls silent, the operations that
  asked it end in time. And the timer of a status stream goes off only after three seconds without a heartbeat.\<close>

theorem silence_ends_operations:
  fixes s :: "'p service_flow" and out :: "(nat \<times> nat \<times> ('p, 'v) operation_call) list"
  assumes "flow_run sortBy ty tr out s" "ty \<noteq> []" "sorts_by sortBy" "n < length (fl_operations s)" "c = fl_operations s ! n"
    and "beats = last_beat ty (backend_events tr)"
  shows "(in_flight c \<longrightarrow> (\<exists>key t0 t load request topic.
        (t0, n, OpRequest (key @ ''.'' @ opn_operationName (co_operation c)) request topic) \<in> set out
        \<and> beats key = Some (t, load) \<and> hb_now (fl_heartbeats s) \<le> max t0 t + 3000))
    \<and> (\<forall>i < length (co_watches c). flow_trans sortBy ty s (WatchMissed n i :: ('p, 'v) flow_event) \<longrightarrow>
        (\<exists>t load. beats (fst (co_watches c ! i)) = Some (t, load) \<and> t + 3000 \<le> hb_now (fl_heartbeats s)))"
proof -
  have ok: "co_ok (hb_now (fl_heartbeats s)) beats (asked_in out n (co_operation c)) c"
    using flow_run_ok [OF assms(1-3)] assms(4-6) by (simp add: flow_ok_def)
  have watch: "watch_ok (hb_now (fl_heartbeats s)) beats (co_watches c ! i)" if "i < length (co_watches c)" for i
    using ok that by (simp add: co_ok_def)
  have "\<exists>t load. beats (fst (co_watches c ! i)) = Some (t, load) \<and> t + 3000 \<le> hb_now (fl_heartbeats s)"
    if i: "i < length (co_watches c)" "flow_trans sortBy ty s (WatchMissed n i :: ('p, 'v) flow_event)" for i
  proof -
    from i(2) have "gp_timer (snd (co_watches c ! i)) = Some (hb_now (fl_heartbeats s))"
      unfolding assms(5) by cases simp
    with watch [OF i(1)] show ?thesis by (auto simp: watch_ok_def HEARTBEAT_TIMEOUT_def)
  qed
  moreover have "\<exists>key t0 t load request topic.
        (t0, n, OpRequest (key @ ''.'' @ opn_operationName (co_operation c)) request topic) \<in> set out
        \<and> beats key = Some (t, load) \<and> hb_now (fl_heartbeats s) \<le> max t0 t + 3000" if "in_flight c"
  proof -
    let ?w = "last (co_watches c)"
    from ok that obtain d t0 t load where w: "co_watches c \<noteq> []" "gp_timer (snd ?w) = Some d"
      "asked_in out n (co_operation c) t0 (fst ?w)" "beats (fst ?w) = Some (t, load)" "d \<le> max t0 t + HEARTBEAT_TIMEOUT"
      by (auto simp: co_ok_def flight_ok_def)
    moreover have "watch_ok (hb_now (fl_heartbeats s)) beats ?w" using ok w(1) by (simp add: co_ok_def)
    ultimately have "hb_now (fl_heartbeats s) \<le> max t0 t + 3000" by (auto simp: watch_ok_def HEARTBEAT_TIMEOUT_def)
    with w(3,4) show ?thesis unfolding asked_in_def by blast
  qed
  ultimately show ?thesis by blast
qed

text \<open>A connection, a heartbeat of one instance, and an operation that starts.\<close>

abbreviation sort_by_load :: load_sort where
  "sort_by_load \<equiv> \<lambda>f. sort_key f"

lemma sort_by_load_sorts: "sorts_by sort_by_load"
  by (simp add: sorts_by_def)

abbreviation example_events :: "(nat \<times> (unit, int) flow_event) list" where
  "example_events \<equiv> [(0, Backend (beat ''p1'' 2)), (0, Backend (ConnectionIs True))]"

abbreviation example_start :: "(unit, int) flow_event" where
  "example_start \<equiv> StartOperation (example_operation False)"

lemma example_flow:
  obtains s where "flow_run sort_by_load ''pricing'' example_events
      [] (s :: unit service_flow)"
    "hb_now (fl_heartbeats s) = 0" "fl_operations s = []"
    "snd (flow_step sort_by_load ''pricing'' s example_start) =
       [(0, OpRequest ''p1.run'' () [])]"
    "in_flight (fl_operations (fst (flow_step sort_by_load ''pricing'' s
       example_start)) ! 0)"
    "length (fl_operations (fst (flow_step sort_by_load ''pricing'' s
       example_start))) = 1"
proof -
  let ?step = "\<lambda>s ev. fst (flow_step sort_by_load ''pricing'' s (ev :: (unit, int) flow_event))"
  let ?s1 = "?step new_service_flow (Backend (ConnectionIs True))"
  let ?s2 = "?step ?s1 (Backend (beat ''p1'' 2))"
  have msg: "createForConnected ''pricing'' ''p1'' 1 2 =
      Inr \<lparr>si_serviceType = ''pricing'', si_serviceId = ''p1'', si_timestamp = Num 1, si_serviceLoad = Num 2, si_isConnected = True\<rparr>"
    by (simp add: status_ok)
  have now: "hb_now (fl_heartbeats ?s1) = 0" "hb_now (fl_heartbeats ?s2) = 0" "fl_operations ?s1 = []" "fl_operations ?s2 = []"
    by (simp_all add: new_service_flow_def flow_step_heartbeats heartbeat_now new_heartbeats_def beat_def Let_def
        del: heartbeat_step.simps)
  have none: "snd (flow_step sort_by_load ''pricing'' s (Backend e :: (unit, int) flow_event)) = []" if "fl_operations s = []" for s e
    using that by (simp add: Let_def)
  have now0: "fl_operations new_service_flow = []" "hb_now (fl_heartbeats new_service_flow) = 0"
    by (simp_all add: new_service_flow_def new_heartbeats_def)
  have start: "flow_run sort_by_load ''pricing'' ([] :: (nat \<times> (unit, int) flow_event) list) [] new_service_flow"
    by (rule flow_run.init)
  have "flow_run sort_by_load ''pricing'' [(0, Backend (ConnectionIs True) :: (unit, int) flow_event)] [] ?s1"
    using flow_run.step [OF start flow_trans.external, of "ConnectionIs True"] none [of new_service_flow]
    by (simp add: now0 del: flow_step.simps)
  from flow_run.step [OF this flow_trans.external, of "beat ''p1'' 2"]
  have run: "flow_run sort_by_load ''pricing'' example_events [] ?s2"
    using now none by (simp add: beat_def del: flow_step.simps)
  have d: "serviceWithLeastLoad sort_by_load (hb_dictionary (fl_heartbeats ?s2)) = Some \<lparr>lv_latestValue =
      \<lparr>si_serviceType = ''pricing'', si_serviceId = ''p1'', si_timestamp = Num 1, si_serviceLoad = Num 2, si_isConnected = True\<rparr>,
      lv_stream = ''p1''\<rparr>"
    by (simp add: new_service_flow_def new_heartbeats_def beat_def msg hb_value_def group_of_def Let_def
        dictionary_value_def lvd_hasKey_def lvd_add_def empty_dictionary_def serviceWithLeastLoad_def obj_values_def)
  show thesis
    by (rule that [OF run now(2,4)])
      (use d now(4) in \<open>simp_all add: op_deliver_def new_operation_def op_dictionary_state hookup_def example_operation_def
         in_flight_def split_beta Let_def del: flow_step.simps(1)\<close>)
qed

lemma requests_reach_live_instances_witness:
  "\<exists>s :: unit service_flow. (0, OpRequest ''p1.run'' () []) \<in>
      set (snd (flow_step sort_by_load ''pricing'' s example_start))
    \<and> (\<exists>key t load. ''p1.run'' = key @ ''.run'' \<and> last_beat ''pricing'' [(0, beat ''p1'' 2), (0, ConnectionIs True)] key = Some (t, load))"
proof -
  obtain s where s: "flow_run sort_by_load ''pricing'' example_events
      [] (s :: unit service_flow)"
    "hb_now (fl_heartbeats s) = 0" "fl_operations s = []"
    "snd (flow_step sort_by_load ''pricing'' s example_start) =
       [(0, OpRequest ''p1.run'' () [])]"
    by (rule example_flow)
  have op: "opn_operationName (co_operation (fl_operations (fst (flow_step sort_by_load ''pricing'' s
      example_start)) ! 0)) = ''run''"
    using s(3) by (simp add: split_beta Let_def deliver_simps example_operation_def del: operation_step.simps)
  from requests_reach_live_instances [OF s(1) flow_trans.start [where op = "example_operation False"] _ sort_by_load_sorts,
      where n = 0 and procedure = "''p1.run''" and request = "()" and topic = "[]", OF _ _ refl]
  have "\<exists>key t load. ''p1.run'' = key @ ''.run'' \<and> last_beat ''pricing'' [(0, beat ''p1'' 2), (0, ConnectionIs True)] key = Some (t, load)"
    unfolding op using s(4) by (auto simp del: last_beat.simps flow_step.simps)
  then show ?thesis using s(4) by (intro exI [of _ s]) simp
qed

lemma silence_ends_operations_witness:
  "\<exists>s :: unit service_flow. in_flight (fl_operations s ! 0)
    \<and> (\<exists>key t load. last_beat ''pricing'' [(0, beat ''p1'' 2), (0, ConnectionIs True)] key = Some (t, load)
        \<and> hb_now (fl_heartbeats s) \<le> t + 3000)"
proof -
  obtain s where s: "flow_run sort_by_load ''pricing'' example_events
      [] (s :: unit service_flow)"
    "hb_now (fl_heartbeats s) = 0" "fl_operations s = []"
    "snd (flow_step sort_by_load ''pricing'' s example_start) =
       [(0, OpRequest ''p1.run'' () [])]"
    "in_flight (fl_operations (fst (flow_step sort_by_load ''pricing'' s
       example_start)) ! 0)"
    "length (fl_operations (fst (flow_step sort_by_load ''pricing'' s
       example_start))) = 1"
    by (rule example_flow)
  let ?s = "fst (flow_step sort_by_load ''pricing'' s example_start)"
  from silence_ends_operations [OF flow_run.step [OF s(1) flow_trans.start [where op = "example_operation False"]]
      _ sort_by_load_sorts, where n = 0, OF _ _ refl refl]
  have "\<exists>key t load. last_beat ''pricing'' [(0, beat ''p1'' 2), (0, ConnectionIs True)] key = Some (t, load)
      \<and> hb_now (fl_heartbeats ?s) \<le> t + 3000"
    using s(2,4,5,6) by (auto simp del: last_beat.simps flow_step.simps)
  with s(5) show ?thesis by blast
qed

end
