(* ===== verification/OpenFinContainer.thy ===== *)
theory OpenFinContainer imports Mappers begin

text \<open>
  \<open>system/openFin/openFin.js\<close>, the side of the client that talks to the OpenFin container when it runs
  in one, and \<open>services/model/tradeNotification.js\<close>, the message it shows for a trade. The container
  (\<open>fin.desktop\<close>) is the environment: it reports subscribers, answers limit checks and carries out
  window commands; whether the client runs in it is \<open>of_running\<close>. A command that the source makes in
  the success callback of another one is that one's argument here. \<open>numeral\<close> and \<open>moment\<close> are the
  formatting functions of \<open>formats\<close>.
\<close>

section \<open>State\<close>

record openfin =
  of_running :: bool
  of_limitCheckSubscriber :: "string option"
  of_limitCheckId :: nat

definition new_openfin :: "bool \<Rightarrow> openfin" where
  "new_openfin running = \<lparr>of_running = running, of_limitCheckSubscriber = None, of_limitCheckId = 1\<rparr>"

definition REQUEST_LIMIT_CHECK_TOPIC :: string where
  "REQUEST_LIMIT_CHECK_TOPIC = ''request-limit-check''"

section \<open>Trade notifications\<close>

record formats =
  fmt_notional :: "rat \<Rightarrow> string"
  fmt_tradeDate :: "js_date \<Rightarrow> string"
  fmt_valueDate :: "js_date \<Rightarrow> string"

record trade_notification =
  tn_spotRate :: rat
  tn_notional :: string
  tn_direction :: string
  tn_baseCurrency :: string
  tn_tradeId :: int
  tn_termsCurrency :: string
  tn_currencyPair :: string
  tn_tradeDate :: string
  tn_tradeStatus :: string
  tn_dealtCurrency :: string
  tn_valueDate :: string

definition new_trade_notification :: "formats \<Rightarrow> trade \<Rightarrow> trade_notification" where
  "new_trade_notification fmt t =
     (let pair = tr_currencyPair t
      in \<lparr>tn_spotRate = tr_spotRate t,
          tn_notional = fmt_notional fmt (tr_notional t),
          tn_direction = direction_name (tr_direction t),
          tn_baseCurrency = cp_base pair,
          tn_tradeId = tr_tradeId t,
          tn_termsCurrency = cp_terms pair,
          tn_currencyPair = cp_base pair @ '' / '' @ cp_terms pair,
          tn_tradeDate = fmt_tradeDate fmt (tr_tradeDate t),
          tn_tradeStatus = trade_status_name (tr_status t),
          tn_dealtCurrency = tr_dealtCurrency t,
          tn_valueDate = fmt_valueDate fmt (tr_valueDate t)\<rparr>)"

section \<open>Commands\<close>

datatype window_command =
    CloseWindow
  | MinimizeWindow
  | MaximizeWindow
  | RestoreThen window_command
  | BringWindowToFront

definition openfin_maximize :: "string \<Rightarrow> window_command" where
  "openfin_maximize state =
     (if state \<in> {''maximized'', ''restored'', ''minimized''} then RestoreThen BringWindowToFront else MaximizeWindow)"

definition openfin_bringToFront :: "string \<Rightarrow> window_command" where
  "openfin_bringToFront state =
     (if state = ''minimized'' then RestoreThen BringWindowToFront else BringWindowToFront)"

record limit_message =
  lm_id :: nat
  lm_responseTopic :: string
  lm_tradedCurrencyPair :: string
  lm_notional :: rat
  lm_rate :: rat

datatype bus_call =
    BusListen string
  | BusSubscribe "string option" string
  | BusUnsubscribe "string option" string
  | SendLimitCheck "string option" string limit_message
  | PublishPositions "position_dto list"
  | PublishPrice spot_price_message
  | ShowNotification trade_notification
  | PublishBlotterItem trade_notification
  | SendBlotterData string "trade_notification list"
  | SendPositionClosed string string
  | PublishChartSymbol string int
  | LaunchChart string
  | OpenUrl string
  | LimitResult bool
  | LimitCompleted

definition openfin_addSubscription :: "openfin \<Rightarrow> string \<Rightarrow> bus_call list" where
  "openfin_addSubscription fin name = (if \<not> of_running fin then [] else [BusListen name])"

definition publishCurrentPositions :: "openfin \<Rightarrow> currency_pair_position list \<Rightarrow> bus_call list" where
  "publishCurrentPositions fin ccyPairPositions =
     (if \<not> of_running fin then [] else [PublishPositions (map mapPositionToDto ccyPairPositions)])"

definition publishPrice :: "openfin \<Rightarrow> spot_price \<Rightarrow> bus_call list" where
  "publishPrice fin price = (if \<not> of_running fin then [] else [PublishPrice (mapToSpotPriceDto price)])"

definition openTradeNotification :: "openfin \<Rightarrow> formats \<Rightarrow> trade \<Rightarrow> bus_call list" where
  "openTradeNotification fin fmt t =
     (if \<not> of_running fin then []
      else let tradeNotification = new_trade_notification fmt t
           in [ShowNotification tradeNotification, PublishBlotterItem tradeNotification])"

text \<open>A click on a notification brings the window to the front and asks the blotter to highlight the
  trade.\<close>

definition notification_clicked :: "string \<Rightarrow> trade \<Rightarrow> window_command \<times> string \<times> trade" where
  "notification_clicked window_state t = (openfin_bringToFront window_state, ''highlightTradeRow'', t)"

definition sendAllBlotterData :: "string \<Rightarrow> trade_notification list \<Rightarrow> bus_call list" where
  "sendAllBlotterData uuid blotterData = [SendBlotterData uuid blotterData]"

definition sendPositionClosedNotification :: "string \<Rightarrow> string \<Rightarrow> bus_call list" where
  "sendPositionClosedNotification uuid correlationId = [SendPositionClosed uuid correlationId]"

text \<open>The chart application is asked to show the symbol when it runs, and started otherwise.\<close>

record application =
  app_uuid :: string
  app_isRunning :: bool

definition displayCurrencyChart :: "application list \<Rightarrow> string \<Rightarrow> bus_call list" where
  "displayCurrencyChart apps symbol =
     (case find (\<lambda>app. app_isRunning app \<and> app_uuid app = ''ChartIQ'') apps of
        Some app \<Rightarrow> [PublishChartSymbol symbol 5]
      | None \<Rightarrow> [LaunchChart (''http://openfin.chartiq.com/0.5/chartiq-shim.html?symbol='' @ symbol @ ''&period='' @ dec_digits 5)])"

section \<open>Limit checks\<close>

text \<open>The container tells who listens for limit checks. The last one to come is used; whoever leaves, no
  one is.\<close>

datatype listener_event = SubscriberAdded string string | SubscriberRemoved string string

fun limit_listener :: "openfin \<Rightarrow> listener_event \<Rightarrow> openfin" where
  "limit_listener fin (SubscriberAdded uuid topic) =
     (if of_running fin \<and> topic = REQUEST_LIMIT_CHECK_TOPIC then fin\<lparr>of_limitCheckSubscriber := Some uuid\<rparr> else fin)"
| "limit_listener fin (SubscriberRemoved uuid topic) =
     (if of_running fin \<and> topic = REQUEST_LIMIT_CHECK_TOPIC then fin\<lparr>of_limitCheckSubscriber := None\<rparr> else fin)"

record limit_check =
  lc_topic :: "string option"
  lc_stopped :: bool

text \<open>The topic is built with the identifier before it is advanced, the message carries the one after.\<close>

definition checkLimit ::
    "openfin \<Rightarrow> rat \<Rightarrow> rat \<Rightarrow> string \<Rightarrow> (openfin \<times> limit_check) \<times> bus_call list" where
  "checkLimit fin executablePrice notional tradedCurrencyPair =
     (case of_limitCheckSubscriber fin of
        None \<Rightarrow> ((fin, \<lparr>lc_topic = None, lc_stopped = True\<rparr>), [LimitResult True, LimitCompleted])
      | Some sub \<Rightarrow>
          let topic = ''limit-check-response ('' @ dec_digits (of_limitCheckId fin) @ '')'';
              fin' = fin\<lparr>of_limitCheckId := Suc (of_limitCheckId fin)\<rparr>
          in ((fin', \<lparr>lc_topic = Some topic, lc_stopped = False\<rparr>),
              [BusSubscribe (Some sub) topic,
               SendLimitCheck (Some sub) REQUEST_LIMIT_CHECK_TOPIC
                 \<lparr>lm_id = of_limitCheckId fin', lm_responseTopic = topic, lm_tradedCurrencyPair = tradedCurrencyPair,
                  lm_notional = notional, lm_rate = executablePrice\<rparr>]))"

datatype limit_event = LimitResponse bool | LimitDispose

text \<open>Unsubscribing names whoever is the subscriber by then.\<close>

definition limit_dispose :: "openfin \<Rightarrow> limit_check \<Rightarrow> limit_check \<times> bus_call list" where
  "limit_dispose fin lc =
     (lc\<lparr>lc_stopped := True\<rparr>,
      case lc_topic lc of None \<Rightarrow> [] | Some topic \<Rightarrow> [BusUnsubscribe (of_limitCheckSubscriber fin) topic])"

fun limit_step :: "(limit_check, openfin \<times> limit_event, bus_call) handler" where
  "limit_step lc (fin, LimitResponse result) =
     (if lc_stopped lc then (lc, [])
      else (let (lc', calls) = limit_dispose fin lc in (lc', [LimitResult result, LimitCompleted] @ calls)))"
| "limit_step lc (fin, LimitDispose) = (if lc_stopped lc then (lc, []) else limit_dispose fin lc)"

section \<open>Lemmas\<close>

lemma limit_stopped_step:
  "lc_stopped lc \<Longrightarrow> lc_stopped (fst (limit_step lc ev)) \<and> snd (limit_step lc ev) = []"
  by (cases "(lc, ev)" rule: limit_step.cases) auto

lemma limit_silent: "lc_stopped lc \<Longrightarrow> outputs limit_step lc evs = []"
  by (induction evs arbitrary: lc) (simp_all add: limit_stopped_step del: limit_step.simps)

lemma dec_digits_inject [simp]: "dec_digits m = dec_digits n \<longleftrightarrow> m = n"
  by (metis dec_value_digits)

section \<open>Properties\<close>

text \<open>Without a limit checker a trade is let through at once. With one, it is asked once, on a topic no
  other check of this client uses, and the first answer decides; later answers and answers after the
  check was given up count for nothing.\<close>

theorem limit_check_answers_once:
  assumes "checkLimit fin rate notional pair = ((fin', lc), calls)"
  shows "case of_limitCheckSubscriber fin of
      None \<Rightarrow> calls = [LimitResult True, LimitCompleted] \<and> outputs limit_step lc evs = []
    | Some sub \<Rightarrow> (\<exists>topic. lc_topic lc = Some topic \<and> hd calls = BusSubscribe (Some sub) topic
        \<and> (of_limitCheckId later \<ge> of_limitCheckId fin' \<longrightarrow>
             lc_topic (snd (fst (checkLimit later rate' notional' pair'))) \<noteq> Some topic))
        \<and> filter (\<lambda>c. c = LimitResult True \<or> c = LimitResult False) (outputs limit_step lc evs) =
          (case evs of (_, LimitResponse result) # _ \<Rightarrow> [LimitResult result] | _ \<Rightarrow> [])"
proof (cases "of_limitCheckSubscriber fin")
  case None
  with assms show ?thesis by (auto simp: checkLimit_def limit_silent)
next
  case (Some sub)
  then have lc: "lc = \<lparr>lc_topic = Some (''limit-check-response ('' @ dec_digits (of_limitCheckId fin) @ '')''), lc_stopped = False\<rparr>"
    "of_limitCheckId fin' = Suc (of_limitCheckId fin)"
    "hd calls = BusSubscribe (Some sub) (''limit-check-response ('' @ dec_digits (of_limitCheckId fin) @ '')'')"
    using assms by (auto simp: checkLimit_def Let_def)
  have "filter (\<lambda>c. c = LimitResult True \<or> c = LimitResult False) (outputs limit_step lc evs) =
      (case evs of (_, LimitResponse result) # _ \<Rightarrow> [LimitResult result] | _ \<Rightarrow> [])"
    unfolding lc(1)
    by (cases evs; simp; cases "hd evs"; cases "snd (hd evs)"; auto simp: limit_dispose_def limit_silent)
  with lc Some show ?thesis
    by (auto simp: checkLimit_def Let_def split: option.splits)
qed

definition limited_openfin :: openfin where
  "limited_openfin = limit_listener (new_openfin True) (SubscriberAdded ''limits'' REQUEST_LIMIT_CHECK_TOPIC)"

lemma limited_openfin_simps [simp]:
  "of_limitCheckSubscriber limited_openfin = Some ''limits''" "of_limitCheckId limited_openfin = 1"
  by (simp_all add: limited_openfin_def new_openfin_def)

lemma limit_check_answers_once_witness:
  "filter (\<lambda>c. c = LimitResult True \<or> c = LimitResult False)
     (outputs limit_step (snd (fst (checkLimit limited_openfin 1 1 ''EURUSD'')))
       [(limited_openfin, LimitResponse False), (limited_openfin, LimitResponse True)]) = [LimitResult False]"
proof -
  obtain fin' lc calls where c: "checkLimit limited_openfin 1 1 ''EURUSD'' = ((fin', lc), calls)"
    by (metis surj_pair)
  show ?thesis
    using limit_check_answers_once [OF c, of "[(limited_openfin, LimitResponse False), (limited_openfin, LimitResponse True)]"]
    by (simp add: c)
qed

text \<open>The message of a limit check carries the number of the next check, not of the topic it names.\<close>

theorem limit_check_id_off_by_one:
  assumes "of_limitCheckSubscriber fin = Some sub"
  shows "\<exists>m. SendLimitCheck (Some sub) REQUEST_LIMIT_CHECK_TOPIC m \<in> set (snd (checkLimit fin rate notional pair))
    \<and> lm_responseTopic m = ''limit-check-response ('' @ dec_digits (of_limitCheckId fin) @ '')''
    \<and> lm_id m = of_limitCheckId fin + 1"
  using assms by (simp add: checkLimit_def Let_def)

lemma limit_check_id_off_by_one_witness:
  "\<exists>m. SendLimitCheck (Some ''limits'') REQUEST_LIMIT_CHECK_TOPIC m \<in> set (snd (checkLimit limited_openfin 1 1 ''EURUSD''))
    \<and> lm_id m = 2"
  using limit_check_id_off_by_one [of limited_openfin "''limits''" 1 1 "''EURUSD''"] by auto

end
