(* ===== verification/Execution.thy ===== *)
theory Execution imports ServiceOps OpenFinContainer begin

text \<open>
  \<open>services/executionService.js\<close>: one call of \<open>executeTrade\<close> for one subscriber. The limit check comes
  first; once it lets the trade through, the request operation runs against two timers, one that
  tells the subscriber after two seconds that the trade is taking long, and the timeout of thirty
  seconds that gives the request up. The two halves of the \<open>merge\<close> are the flags \<open>ex_request\<close> and
  \<open>ex_clientTimer\<close>; the merged stream completes when both are done.

  The operation answers with a value and the completion in one go (the property of remote calls in
  \<open>Connections\<close>), so \<open>Answered\<close> stands for both.
\<close>

definition EXECUTION_CLIENT_TIMEOUT_MS :: nat where
  "EXECUTION_CLIENT_TIMEOUT_MS = 2000"

definition EXECUTION_REQUEST_TIMEOUT_MS :: nat where
  "EXECUTION_REQUEST_TIMEOUT_MS = 30000"

record execution =
  ex_checked :: bool
  ex_operation :: bool
  ex_request :: bool
  ex_clientTimer :: bool
  ex_stopped :: bool

definition new_execution :: execution where
  "new_execution = \<lparr>ex_checked = False, ex_operation = False, ex_request = False, ex_clientTimer = False, ex_stopped = False\<rparr>"

datatype execution_event =
    LimitChecked bool
  | Answered trade_dto
  | RequestFailed js_error
  | RequestCompleted
  | ClientTimer
  | RequestTimer
  | DisposeExecution

datatype execution_call =
    StartRequest execute_trade_request
  | ScheduleTimer nat
  | DisposeRequest
  | Respond execute_trade_response
  | ExecutionFailed js_error
  | ExecutionCompleted

definition timeout_response :: execute_trade_response where
  "timeout_response = response_createForError ''Trade execution timeout exceeded''"

definition complete_when_done :: "execution \<Rightarrow> execution \<times> execution_call list" where
  "complete_when_done x =
     (if ex_request x \<or> ex_clientTimer x then (x, []) else (x\<lparr>ex_stopped := True\<rparr>, [ExecutionCompleted]))"

definition execution_end :: "execution \<Rightarrow> execution \<times> execution_call list" where
  "execution_end x =
     (x\<lparr>ex_operation := False, ex_request := False, ex_clientTimer := False, ex_stopped := True\<rparr>,
      if ex_operation x then [DisposeRequest] else [])"

definition execution_fail :: "js_error \<Rightarrow> execution \<Rightarrow> execution \<times> execution_call list" where
  "execution_fail e x = (let (x', calls) = execution_end x in (x', ExecutionFailed e # calls))"

text \<open>The operation is shared by the two halves and goes when neither needs it.\<close>

definition release_operation :: "execution \<Rightarrow> execution \<times> execution_call list" where
  "release_operation x =
     (if ex_operation x \<and> \<not> ex_request x \<and> \<not> ex_clientTimer x then (x\<lparr>ex_operation := False\<rparr>, [DisposeRequest])
      else (x, []))"

fun execution_step ::
    "execute_trade_request \<Rightarrow> (string \<Rightarrow> js_date) \<Rightarrow>
     (execution, pair_lookup \<times> execution_event, execution_call) handler" where
  "execution_step request parse_date x (lookup, LimitChecked ok) =
     (if ex_checked x \<or> ex_stopped x then (x, [])
      else if ok
        then (x\<lparr>ex_checked := True, ex_operation := True, ex_request := True, ex_clientTimer := True\<rparr>,
              [StartRequest request, ScheduleTimer EXECUTION_REQUEST_TIMEOUT_MS, ScheduleTimer EXECUTION_CLIENT_TIMEOUT_MS])
        else (x\<lparr>ex_checked := True\<rparr>, [Respond (response_createForError ''Credit limit exceeded'')]))"
| "execution_step request parse_date x (lookup, Answered dto) =
     (if \<not> ex_operation x \<or> ex_stopped x then (x, [])
      else if \<not> ex_request x then complete_when_done (x\<lparr>ex_operation := False, ex_clientTimer := False\<rparr>)
      else case mapFromTradeDto lookup parse_date dto of
        Inl e \<Rightarrow> execution_fail e x
      | Inr trade \<Rightarrow>
          let (x', calls) = complete_when_done (x\<lparr>ex_operation := False, ex_request := False, ex_clientTimer := False\<rparr>)
          in (x', Respond (response_create trade) # calls))"
| "execution_step request parse_date x (lookup, RequestFailed e) =
     (if \<not> ex_operation x \<or> ex_stopped x then (x, []) else execution_fail e (x\<lparr>ex_operation := False\<rparr>))"
| "execution_step request parse_date x (lookup, RequestCompleted) =
     (if \<not> ex_operation x \<or> ex_stopped x then (x, [])
      else complete_when_done (x\<lparr>ex_operation := False, ex_request := False\<rparr>))"
| "execution_step request parse_date x (lookup, ClientTimer) =
     (if \<not> ex_clientTimer x \<or> ex_stopped x then (x, [])
      else
        let (x1, released) = release_operation (x\<lparr>ex_clientTimer := False\<rparr>);
            (x2, calls) = complete_when_done x1
        in (x2, Respond timeout_response # released @ calls))"
| "execution_step request parse_date x (lookup, RequestTimer) =
     (if \<not> ex_request x \<or> ex_stopped x then (x, [])
      else
        let (x1, released) = release_operation (x\<lparr>ex_request := False\<rparr>);
            (x2, calls) = complete_when_done x1
        in (x2, released @ Respond timeout_response # calls))"
| "execution_step request parse_date x (lookup, DisposeExecution) =
     (if ex_stopped x then (x, []) else execution_end x)"

section \<open>Lemmas\<close>

lemmas execution_defs = complete_when_done_def execution_fail_def execution_end_def release_operation_def

text \<open>What the subscriber is sent.\<close>

fun is_reply :: "execution_call \<Rightarrow> bool" where
  "is_reply (Respond r) = True"
| "is_reply (ExecutionFailed e) = True"
| "is_reply ExecutionCompleted = True"
| "is_reply c = False"

abbreviation replies :: "execution_call list \<Rightarrow> execution_call list" where
  "replies calls \<equiv> filter is_reply calls"

lemma execution_stopped_step:
  "ex_stopped x \<Longrightarrow> ex_stopped (fst (execution_step request parse_date x ev)) \<and> snd (execution_step request parse_date x ev) = []"
  by (cases "(request, parse_date, x, ev)" rule: execution_step.cases) auto

lemma execution_silent: "ex_stopped x \<Longrightarrow> outputs (execution_step request parse_date) x evs = []"
  by (induction evs arbitrary: x) (simp_all add: execution_stopped_step del: execution_step.simps)

text \<open>The replies still to come once the limit was checked, by which halves of the merge are left.\<close>

definition answers :: "(string \<Rightarrow> js_date) \<Rightarrow> execution_call list \<Rightarrow> bool" where
  "answers parse_date rs \<longleftrightarrow> (\<exists>lookup dto trade. mapFromTradeDto lookup parse_date dto = Inr trade
     \<and> rs = [Respond (response_create trade), ExecutionCompleted])"

definition fails :: "execution_call list \<Rightarrow> bool" where
  "fails rs \<longleftrightarrow> (\<exists>e. rs = [ExecutionFailed e])"

definition replies_from :: "(string \<Rightarrow> js_date) \<Rightarrow> execution \<Rightarrow> execution_call list \<Rightarrow> bool" where
  "replies_from parse_date x rs \<longleftrightarrow> rs = [] \<or> \<not> ex_stopped x \<and>
     (if ex_request x \<and> ex_clientTimer x then
        answers parse_date rs \<or> fails rs \<or> rs = [Respond timeout_response]
        \<or> (\<exists>rs'. rs = Respond timeout_response # rs' \<and>
            (answers parse_date rs' \<or> fails rs' \<or> rs' \<in> {[ExecutionCompleted], [Respond timeout_response, ExecutionCompleted]}))
      else if ex_request x then
        answers parse_date rs \<or> fails rs \<or> rs \<in> {[ExecutionCompleted], [Respond timeout_response, ExecutionCompleted]}
      else if ex_clientTimer x then
        ex_operation x \<and> (fails rs \<or> rs = [ExecutionCompleted]) \<or> rs = [Respond timeout_response, ExecutionCompleted]
      else False)"

definition execution_inv :: "execution \<Rightarrow> bool" where
  "execution_inv x \<longleftrightarrow> ex_checked x \<and> (ex_operation x \<longrightarrow> ex_request x \<or> ex_clientTimer x)
     \<and> (ex_request x \<longrightarrow> ex_operation x)"

lemma execution_inv_step:
  assumes "execution_inv x"
  shows "execution_inv (fst (execution_step request parse_date x (lookup, e)))"
proof (cases e)
  case (Answered dto)
  with assms show ?thesis
    by (cases "mapFromTradeDto lookup parse_date dto") (auto simp: execution_inv_def execution_defs)
qed (use assms in \<open>auto simp: execution_inv_def execution_defs Let_def\<close>)

lemma execution_replies:
  assumes "execution_inv x"
  shows "replies_from parse_date x (replies (outputs (execution_step request parse_date) x evs))"
  using assms
proof (induction evs arbitrary: x)
  case Nil
  then show ?case by (simp add: replies_from_def)
next
  case (Cons ev evs)
  obtain lookup e where ev: "ev = (lookup, e)" by (cases ev)
  let ?x = "fst (execution_step request parse_date x ev)"
  have "execution_inv ?x" unfolding ev using Cons.prems by (rule execution_inv_step)
  from Cons.IH [OF this]
  have IH: "replies_from parse_date ?x (replies (outputs (execution_step request parse_date) ?x evs))" .
  note inv = Cons.prems [unfolded execution_inv_def]
  show ?case
  proof (cases e)
    case (Answered dto)
    show ?thesis
    proof (cases "mapFromTradeDto lookup parse_date dto")
      case (Inl err)
      with Answered IH inv show ?thesis unfolding ev
        by (auto simp: replies_from_def execution_defs execution_silent fails_def)
    next
      case (Inr trade)
      then have "answers parse_date [Respond (response_create trade), ExecutionCompleted]"
        by (auto simp: answers_def)
      with Inr Answered IH inv show ?thesis unfolding ev
        by (auto simp: replies_from_def execution_defs execution_silent)
    qed
  next
    case (RequestFailed err)
    with IH inv show ?thesis unfolding ev
      by (auto simp: replies_from_def execution_defs execution_silent fails_def)
  qed ((use IH inv in \<open>cases "ex_request x"; cases "ex_clientTimer x"; cases "ex_stopped x"; cases "ex_operation x";
      auto simp: ev replies_from_def execution_defs execution_silent\<close>)+)
qed

text \<open>Before the check nothing goes out.\<close>

lemma execution_unchecked:
  assumes "\<not> ex_checked x" "\<not> ex_operation x" "\<not> ex_request x" "\<not> ex_clientTimer x" "\<forall>l ok. (l, LimitChecked ok) \<notin> set evs"
  shows "outputs (execution_step request parse_date) x evs = []
    \<and> final_state (execution_step request parse_date) x evs = x\<lparr>ex_stopped := ex_stopped (final_state (execution_step request parse_date) x evs)\<rparr>"
  using assms
proof (induction evs arbitrary: x)
  case (Cons ev evs)
  obtain lookup e where ev: "ev = (lookup, e)" by (cases ev)
  have step: "execution_step request parse_date x ev = (x\<lparr>ex_stopped := ex_stopped x \<or> e = DisposeExecution\<rparr>, [])"
    using Cons.prems unfolding ev by (cases e) (auto simp: execution_end_def)
  show ?case using Cons.IH [of "x\<lparr>ex_stopped := ex_stopped x \<or> e = DisposeExecution\<rparr>"] Cons.prems
    by (simp add: step)
qed simp

text \<open>A refused trade has nothing left to do.\<close>

lemma execution_refused:
  "ex_checked x \<Longrightarrow> \<not> ex_operation x \<Longrightarrow> \<not> ex_request x \<Longrightarrow> \<not> ex_clientTimer x \<Longrightarrow>
     outputs (execution_step request parse_date) x evs = []"
proof (induction evs arbitrary: x)
  case (Cons ev evs)
  obtain lookup e where ev: "ev = (lookup, e)" by (cases ev)
  have step: "execution_step request parse_date x ev = (x\<lparr>ex_stopped := ex_stopped x \<or> e = DisposeExecution\<rparr>, [])"
    using Cons.prems unfolding ev by (cases e) (auto simp: execution_end_def)
  then show ?case using Cons by simp
qed simp

lemma new_execution_simps [simp]:
  "\<not> ex_checked new_execution" "\<not> ex_operation new_execution" "\<not> ex_request new_execution"
  "\<not> ex_clientTimer new_execution" "\<not> ex_stopped new_execution"
  by (simp_all add: new_execution_def)

text \<open>Requests are started by the limit check alone.\<close>

fun is_start :: "execution_call \<Rightarrow> bool" where
  "is_start (StartRequest r) = True"
| "is_start c = False"

lemma execution_starts:
  "ex_checked x \<Longrightarrow> filter is_start (outputs (execution_step request parse_date) x evs) = []"
proof (induction evs arbitrary: x)
  case (Cons ev evs)
  obtain lookup e where ev: "ev = (lookup, e)" by (cases ev)
  have "ex_checked (fst (execution_step request parse_date x ev)) \<and> filter is_start (snd (execution_step request parse_date x ev)) = []"
  proof (cases e)
    case (Answered dto)
    then show ?thesis using Cons.prems unfolding ev
      by (cases "mapFromTradeDto lookup parse_date dto") (auto simp: execution_defs)
  qed (use Cons.prems in \<open>auto simp: ev execution_defs Let_def\<close>)
  with Cons.IH show ?case by simp
qed simp

text \<open>A trade the subscriber is told comes from an answer.\<close>

lemma answer_origin_step:
  assumes "Respond (response_create trade) \<in> set (snd (execution_step request parse_date x (lookup, e)))"
  shows "\<exists>dto. e = Answered dto \<and> mapFromTradeDto lookup parse_date dto = Inr trade"
proof (cases e)
  case (Answered dto)
  with assms show ?thesis
    by (auto simp: execution_defs response_create_def response_createForError_def timeout_response_def Let_def
        split: if_splits sum.splits)
qed (use assms in \<open>auto simp: execution_defs response_create_def response_createForError_def timeout_response_def Let_def
        split: if_splits\<close>)

lemma answer_origin:
  "Respond (response_create trade) \<in> set (outputs (execution_step request parse_date) x evs) \<Longrightarrow>
     \<exists>lookup dto. (lookup, Answered dto) \<in> set evs \<and> mapFromTradeDto lookup parse_date dto = Inr trade"
proof (induction evs arbitrary: x)
  case (Cons ev evs)
  obtain lookup e where ev: "ev = (lookup, e)" by (cases ev)
  with Cons answer_origin_step [of trade request parse_date x lookup e] show ?case
    by (auto simp del: execution_step.simps) blast+
qed simp

section \<open>Properties\<close>

text \<open>C21: a trade is requested only after its limit check, and only if that lets it through. Before the check
  nothing happens; a refused trade gets the one reply that the credit limit is exceeded; an accepted
  one makes exactly one request, of the trade asked for.\<close>

theorem execution_needs_limit:
  assumes "\<forall>l b. (l, LimitChecked b) \<notin> set before"
    and "\<not> ex_stopped (final_state (execution_step request parse_date) new_execution before)"
  shows "outputs (execution_step request parse_date) new_execution before = []
    \<and> outputs (execution_step request parse_date) new_execution (before @ (lookup, LimitChecked False) # after) =
        [Respond (response_createForError ''Credit limit exceeded'')]
    \<and> filter is_start (outputs (execution_step request parse_date) new_execution (before @ (lookup, LimitChecked True) # after)) =
        [StartRequest request]"
proof -
  let ?x = "final_state (execution_step request parse_date) new_execution before"
  have x: "?x = new_execution" "outputs (execution_step request parse_date) new_execution before = []"
    using execution_unchecked [OF new_execution_simps(1-4) assms(1), of request parse_date] assms(2)
    by (simp_all add: new_execution_def)
  then show ?thesis
    by (simp add: run_append execution_refused execution_starts)
qed

definition example_request :: execute_trade_request where
  "example_request = \<lparr>rq_CurrencyPair = ''EURUSD'', rq_SpotRate = 1, rq_Direction = ''Buy'', rq_Notional = 1000000, rq_DealtCurrency = ''EUR''\<rparr>"

definition example_trade_dto :: trade_dto where
  "example_trade_dto = \<lparr>trd_TradeId = 1, trd_TraderName = ''LMO'', trd_CurrencyPair = ''EURUSD'', trd_Notional = 1000000,
     trd_DealtCurrency = ''EUR'', trd_Direction = ''Buy'', trd_SpotRate = 1, trd_TradeDate = [], trd_ValueDate = [], trd_Status = ''Done''\<rparr>"

definition any_pair :: pair_lookup where
  "any_pair s = Inr (new_currency_pair s 5 4)"

lemma execution_needs_limit_witness:
  "outputs (execution_step example_request (\<lambda>d. None)) new_execution
     [(any_pair, Answered example_trade_dto), (any_pair, LimitChecked False), (any_pair, Answered example_trade_dto)] =
   [Respond (response_createForError ''Credit limit exceeded'')]"
  using execution_needs_limit [of "[(any_pair, Answered example_trade_dto)]" example_request "\<lambda>d. None"
      any_pair "[(any_pair, Answered example_trade_dto)]"] by simp

text \<open>C2: the subscriber of an accepted trade is told at most twice that it takes too long, then the trade,
  the failure or the completion, once and last. The trade it is told is the backend's answer, and
  it never comes after the second warning, because the request is given up with it.\<close>

theorem execution_outcome:
  "\<exists>k tail. replies (outputs (execution_step request parse_date) new_execution ((lookup, LimitChecked True) # evs)) =
      replicate k (Respond timeout_response) @ tail
    \<and> (tail = [] \<and> k \<le> 1
      \<or> tail = [ExecutionCompleted] \<and> k \<in> {1, 2}
      \<or> (\<exists>e. tail = [ExecutionFailed e] \<and> k \<le> 1)
      \<or> (\<exists>lookup' dto trade. (lookup', Answered dto) \<in> set evs \<and> mapFromTradeDto lookup' parse_date dto = Inr trade
          \<and> tail = [Respond (response_create trade), ExecutionCompleted] \<and> k \<le> 1))"
proof -
  let ?T = "Respond timeout_response"
  define x where "x = fst (execution_step request parse_date new_execution (lookup, LimitChecked True))"
  define rs where "rs = replies (outputs (execution_step request parse_date) x evs)"
  have "execution_inv x" "ex_request x" "ex_clientTimer x" by (simp_all add: x_def execution_inv_def)
  then have "replies_from parse_date x rs" using execution_replies by (simp add: rs_def)
  then consider "rs = []" | "answers parse_date rs" | "fails rs" | "rs = [?T]"
    | rs' where "rs = ?T # rs'" "answers parse_date rs'" | rs' where "rs = ?T # rs'" "fails rs'"
    | "rs = [?T, ExecutionCompleted]" | "rs = [?T, ?T, ExecutionCompleted]"
    using \<open>ex_request x\<close> \<open>ex_clientTimer x\<close> by (auto simp: replies_from_def)
  then have "\<exists>k tail. rs = replicate k ?T @ tail
    \<and> (tail = [] \<and> k \<le> 1 \<or> tail = [ExecutionCompleted] \<and> k \<in> {1, 2} \<or> fails tail \<and> k \<le> 1 \<or> answers parse_date tail \<and> k \<le> 1)"
  proof cases
    case 1 then show ?thesis by (intro exI [of _ 0] exI [of _ rs]) simp
  next
    case 2 then show ?thesis by (intro exI [of _ 0] exI [of _ rs]) simp
  next
    case 3 then show ?thesis by (intro exI [of _ 0] exI [of _ rs]) simp
  next
    case 4 then show ?thesis by (intro exI [of _ 1] exI [of _ "[]"]) simp
  next
    case (5 rs') then show ?thesis by (intro exI [of _ 1] exI [of _ rs']) simp
  next
    case (6 rs') then show ?thesis by (intro exI [of _ 1] exI [of _ rs']) simp
  next
    case 7 then show ?thesis by (intro exI [of _ 1] exI [of _ "[ExecutionCompleted]"]) simp
  next
    case 8 then show ?thesis by (intro exI [of _ 2] exI [of _ "[ExecutionCompleted]"]) (simp add: numeral_2_eq_2)
  qed
  moreover have "replies (outputs (execution_step request parse_date) new_execution ((lookup, LimitChecked True) # evs)) = rs"
    by (simp add: rs_def x_def)
  moreover have "\<exists>lookup' dto. (lookup', Answered dto) \<in> set evs \<and> mapFromTradeDto lookup' parse_date dto = Inr trade"
    if "rs = replicate k ?T @ [Respond (response_create trade), ExecutionCompleted]" for k trade
  proof (rule answer_origin)
    have "Respond (response_create trade) \<in> set rs" using that by simp
    then show "Respond (response_create trade) \<in> set (outputs (execution_step request parse_date) x evs)" by (simp add: rs_def)
  qed
  ultimately show ?thesis unfolding fails_def answers_def by (metis (no_types, lifting))
qed

end
