(* ===== verification/SpotTile.thy ===== *)
theory SpotTile imports OpenFinContainer begin

text \<open>
  \<open>ui/spotTile/model\<close>: the model behind one tile (\<open>spotTileModel.js\<close>) and its notifications
  (\<open>notifications.js\<close>, \<open>notificationType.js\<close>). The tile is a handler: it sees the router's events, the
  prices and their staleness, the connection of the two services, the responses to a trade, the
  requests of the container to close a position, and the settled promise of the chart.

  The serial disposable of the execution holds one subscription: \<open>stl_execution\<close> is its number and what
  it is for, and only the subscription it holds delivers. An exception of the source leaves the
  handler as the call \<open>Throw\<close>.
\<close>

section \<open>Notifications\<close>

datatype notification_type = TradeType | TextType

fun notification_type_name :: "notification_type \<Rightarrow> string" where
  "notification_type_name TradeType = ''Trade''"
| "notification_type_name TextType = ''Text''"

text \<open>The fields of a trade notification, absent for an error; \<open>error\<close> is undefined for a trade.\<close>

record trade_fields =
  tf_direction :: string
  tf_notional :: string
  tf_status :: trade_status
  tf_dealtCurrency :: string
  tf_termsCurrency :: string
  tf_spotRate :: rat
  tf_formattedValueDate :: string
  tf_tradeId :: int

datatype notification =
    TextNotification string
  | TradeExecutionNotification "trade_fields option" "string option"

fun notificationType :: "notification \<Rightarrow> notification_type" where
  "notificationType (TextNotification message) = TextType"
| "notificationType (TradeExecutionNotification tf err) = TradeType"

definition new_trade_fields :: "formats \<Rightarrow> trade \<Rightarrow> trade_fields" where
  "new_trade_fields fmt t =
     \<lparr>tf_direction = (if tr_direction t = Sell then ''Sold'' else ''Bought''),
      tf_notional = fmt_notional fmt (tr_notional t),
      tf_status = tr_status t,
      tf_dealtCurrency = cp_base (tr_currencyPair t),
      tf_termsCurrency = cp_terms (tr_currencyPair t),
      tf_spotRate = tr_spotRate t,
      tf_formattedValueDate = ''SP. '' @ fmt_valueDate fmt (tr_valueDate t),
      tf_tradeId = tr_tradeId t\<rparr>"

definition notification_createForSuccess :: "formats \<Rightarrow> trade \<Rightarrow> notification" where
  "notification_createForSuccess fmt t = TradeExecutionNotification (Some (new_trade_fields fmt t)) None"

definition notification_createForError :: "string \<Rightarrow> notification" where
  "notification_createForError e = TradeExecutionNotification None (Some e)"

section \<open>The tile\<close>

definition DISMISS_NOTIFICATION_AFTER_X_IN_MS :: nat where "DISMISS_NOTIFICATION_AFTER_X_IN_MS = 4000"
definition MAX_NOTIONAL_VALUE :: rat where "MAX_NOTIONAL_VALUE = 1000000000"
definition PRICE_STALE_AFTER_X_IN_MS :: nat where "PRICE_STALE_AFTER_X_IN_MS = 6000"

text \<open>A request of the container: the symbol, the signed amount, who asks and under which id.\<close>

record close_position =
  cl_symbol :: string
  cl_amount :: rat
  cl_uuid :: string
  cl_correlationId :: string

datatype execution_purpose = UserTrade | ClosePosition close_position

record spot_tile =
  stl_modelId :: string
  stl_currencyPair :: currency_pair
  stl_tileTitle :: string
  stl_tileName :: "string option"
  stl_notification :: "notification option"
  stl_notional :: rat
  stl_maxNotional :: rat
  stl_currentSpotPrice :: "spot_price option"
  stl_pricingConnected :: bool
  stl_executionConnected :: bool
  stl_priceStale :: bool
  stl_isTradeExecutionInFlight :: bool
  stl_currencyChartIsOpening :: bool
  stl_execution :: "(nat \<times> execution_purpose) option"
  stl_nextExecution :: nat

definition new_spot_tile :: "string \<Rightarrow> currency_pair \<Rightarrow> spot_tile" where
  "new_spot_tile modelId currencyPair =
     \<lparr>stl_modelId = modelId, stl_currencyPair = currencyPair,
      stl_tileTitle = cp_base currencyPair @ '' / '' @ cp_terms currencyPair, stl_tileName = None,
      stl_notification = None, stl_notional = 1000000, stl_maxNotional = MAX_NOTIONAL_VALUE,
      stl_currentSpotPrice = None, stl_pricingConnected = False, stl_executionConnected = False,
      stl_priceStale = False, stl_isTradeExecutionInFlight = False, stl_currencyChartIsOpening = False,
      stl_execution = None, stl_nextExecution = 0\<rparr>"

datatype tile_event =
    TileInit
  | TileClosed
  | PopOutTile
  | UndockTile
  | DisplayCurrencyChart
  | ChartSettled
  | TradeNotificationDismissed
  | NotionalChanged rat
  | ExecuteTrade direction
  | ExecutionResponse nat execute_trade_response
  | ExecutionError nat js_error
  | ClosePositionRequest close_position
  | Price spot_price
  | PriceStale
  | PriceError js_error
  | ServicesConnected bool bool

datatype tile_call =
    SubscribePrices string
  | SubscribeConnection
  | RegionInit
  | RemoveFromRegion
  | RegionPopout
  | UndockPopout "string option"
  | Bus bus_call
  | AskChart string
  | StartExecution nat execute_trade_request
  | DropExecution nat
  | ScheduleDismiss nat
  | ReportCloseFailed string string
  | Throw js_error

definition updatePricingDownStatusNotification :: "spot_tile \<Rightarrow> spot_tile" where
  "updatePricingDownStatusNotification t =
     (if (case stl_notification t of None \<Rightarrow> True | Some n \<Rightarrow> notificationType n = TextType)
      then if stl_pricingConnected t \<and> \<not> stl_priceStale t
           then t\<lparr>stl_notification := None\<rparr>
           else t\<lparr>stl_notification := Some (TextNotification ''Pricing is unavailable'')\<rparr>
      else t)"

definition createTradeRequest :: "spot_tile \<Rightarrow> direction \<Rightarrow> rat \<Rightarrow> execute_trade_request result" where
  "createTradeRequest t direction notional =
     (case stl_currentSpotPrice t of
        None \<Rightarrow> Inl (TypeError (''Cannot read property '' @ (if direction = Buy then ''ask'' else ''bid'') @ '' of null''))
      | Some price \<Rightarrow>
          Inr \<lparr>rq_CurrencyPair = cp_symbol (stl_currencyPair t),
               rq_SpotRate = rt_rawRate (if direction = Buy then px_ask price else px_bid price),
               rq_Direction = direction_name direction,
               rq_Notional = notional,
               rq_DealtCurrency = (if direction = Buy then cp_base else cp_terms) (stl_currencyPair t)\<rparr>)"

text \<open>\<open>_executionDisposable.setDisposable\<close> of a new execution.\<close>

definition start_execution ::
    "execution_purpose \<Rightarrow> execute_trade_request \<Rightarrow> spot_tile \<Rightarrow> spot_tile \<times> tile_call list" where
  "start_execution purpose request t =
     (t\<lparr>stl_execution := Some (stl_nextExecution t, purpose), stl_nextExecution := Suc (stl_nextExecution t)\<rparr>,
      StartExecution (stl_nextExecution t) request #
      (case stl_execution t of None \<Rightarrow> [] | Some (i, _) \<Rightarrow> [DropExecution i]))"

definition tile_executeTrade :: "direction \<Rightarrow> spot_tile \<Rightarrow> spot_tile \<times> tile_call list" where
  "tile_executeTrade direction t =
     (if stl_pricingConnected t \<and> stl_executionConnected t \<and> \<not> stl_isTradeExecutionInFlight t
      then case createTradeRequest t direction (stl_notional t) of
          Inl e \<Rightarrow> (t, [Throw e])
        | Inr request \<Rightarrow> start_execution UserTrade request (t\<lparr>stl_isTradeExecutionInFlight := True\<rparr>)
      else (t, []))"

definition closePositionRequestCallback :: "close_position \<Rightarrow> spot_tile \<Rightarrow> spot_tile \<times> tile_call list" where
  "closePositionRequestCallback msg t =
     (if cl_symbol msg \<noteq> cp_symbol (stl_currencyPair t) then (t, [])
      else case createTradeRequest t (if cl_amount msg > 0 then Sell else Buy) \<bar>cl_amount msg\<bar> of
          Inl e \<Rightarrow> (t, [Throw e])
        | Inr request \<Rightarrow> start_execution (ClosePosition msg) request t)"

definition trade_response ::
    "formats \<Rightarrow> execute_trade_response \<Rightarrow> spot_tile \<Rightarrow> spot_tile \<times> tile_call list" where
  "trade_response fmt response t =
     (let t' = t\<lparr>stl_isTradeExecutionInFlight := False\<rparr>
      in if rs_hasError response
         then (t'\<lparr>stl_notification := Some (notification_createForError (rs_error response))\<rparr>, [])
         else case rs_trade response of
             None \<Rightarrow> (t'\<lparr>stl_notification := Some (TradeExecutionNotification None None)\<rparr>,
               [Throw (TypeError ''Cannot read property status of null'')])
           | Some trade \<Rightarrow>
               (t'\<lparr>stl_notification := Some (notification_createForSuccess fmt trade)\<rparr>,
                if tr_status trade = Done then [ScheduleDismiss DISMISS_NOTIFICATION_AFTER_X_IN_MS] else []))"

text \<open>The prices of the tile's stream, and the statuses of both services once each has sent one (\<open>combineLatest\<close>).\<close>

definition receivePrice :: "openfin \<Rightarrow> spot_price \<Rightarrow> spot_tile \<Rightarrow> spot_tile \<times> tile_call list" where
  "receivePrice fin price t =
     (let t1 = (if stl_isTradeExecutionInFlight t then t else t\<lparr>stl_currentSpotPrice := Some price\<rparr>);
          t2 = (if stl_priceStale t1 then updatePricingDownStatusNotification (t1\<lparr>stl_priceStale := False\<rparr>) else t1)
      in (t2, map Bus (publishPrice fin price)))"

definition receiveStatuses :: "bool \<Rightarrow> bool \<Rightarrow> spot_tile \<Rightarrow> spot_tile \<times> tile_call list" where
  "receiveStatuses pricing execution t =
     (updatePricingDownStatusNotification (t\<lparr>stl_pricingConnected := pricing, stl_executionConnected := execution\<rparr>), [])"

lemmas tile_streams [simp] = receivePrice_def receiveStatuses_def

text \<open>The popout service is looked up when the tile starts, so undocking an earlier tile throws.\<close>

fun tile_step :: "formats \<Rightarrow> openfin \<Rightarrow> (spot_tile, tile_event, tile_call) handler" where
  "tile_step fmt fin t TileInit =
     (t\<lparr>stl_tileName := Some (cp_symbol (stl_currencyPair t) @ '' Spot'')\<rparr>,
      [SubscribePrices (cp_symbol (stl_currencyPair t)), SubscribeConnection] @
      map Bus (openfin_addSubscription fin ''close-position'') @ [RegionInit])"
| "tile_step fmt fin t TileClosed = (t, [RemoveFromRegion])"
| "tile_step fmt fin t PopOutTile = (t, [RegionPopout])"
| "tile_step fmt fin t UndockTile =
     (if stl_tileName t = None then (t, [Throw (TypeError ''Cannot read property undockPopout of undefined'')])
      else (t, [UndockPopout (stl_tileName t)]))"
| "tile_step fmt fin t DisplayCurrencyChart =
     (t\<lparr>stl_currencyChartIsOpening := True\<rparr>, [AskChart (cp_symbol (stl_currencyPair t))])"
| "tile_step fmt fin t ChartSettled = (t\<lparr>stl_currencyChartIsOpening := False\<rparr>, [])"
| "tile_step fmt fin t TradeNotificationDismissed =
     (updatePricingDownStatusNotification (t\<lparr>stl_notification := None\<rparr>), [])"
| "tile_step fmt fin t (NotionalChanged n) = (t\<lparr>stl_notional := n\<rparr>, [])"
| "tile_step fmt fin t (ExecuteTrade direction) = tile_executeTrade direction t"
| "tile_step fmt fin t (ExecutionResponse i response) =
     (case stl_execution t of
        None \<Rightarrow> (t, [])
      | Some (j, purpose) \<Rightarrow>
          if i \<noteq> j then (t, [])
          else (case purpose of
              UserTrade \<Rightarrow> trade_response fmt response t
            | ClosePosition msg \<Rightarrow> (t, map Bus (sendPositionClosedNotification (cl_uuid msg) (cl_correlationId msg)))))"
| "tile_step fmt fin t (ExecutionError i e) =
     (case stl_execution t of
        None \<Rightarrow> (t, [])
      | Some (j, purpose) \<Rightarrow>
          if i \<noteq> j then (t, [])
          else (case purpose of
              UserTrade \<Rightarrow>
                (t\<lparr>stl_isTradeExecutionInFlight := False,
                   stl_notification := Some (notification_createForError ''Unknown stream error'')\<rparr>, [])
            | ClosePosition msg \<Rightarrow> (t, [ReportCloseFailed (cl_uuid msg) (cl_correlationId msg)])))"
| "tile_step fmt fin t (ClosePositionRequest msg) = closePositionRequestCallback msg t"
| "tile_step fmt fin t (Price price) =
     receivePrice fin price t"
| "tile_step fmt fin t PriceStale = (updatePricingDownStatusNotification (t\<lparr>stl_priceStale := True\<rparr>), [])"
| "tile_step fmt fin t (PriceError e) = (t, [])"
| "tile_step fmt fin t (ServicesConnected pricing execution) =
     receiveStatuses pricing execution t"

section \<open>Lemmas\<close>

lemmas tile_defs = tile_executeTrade_def closePositionRequestCallback_def start_execution_def trade_response_def
  updatePricingDownStatusNotification_def createTradeRequest_def

text \<open>What the notification says about the prices, from the first news of the services on.\<close>

definition notice_ok :: "spot_tile \<Rightarrow> bool" where
  "notice_ok t \<longleftrightarrow>
     (case stl_notification t of
        None \<Rightarrow> stl_pricingConnected t \<and> \<not> stl_priceStale t
      | Some (TextNotification m) \<Rightarrow> m = ''Pricing is unavailable'' \<and> \<not> (stl_pricingConnected t \<and> \<not> stl_priceStale t)
      | Some (TradeExecutionNotification f e) \<Rightarrow> True)"

lemma notice_update [simp]: "notice_ok (updatePricingDownStatusNotification t)"
  by (auto simp: notice_ok_def updatePricingDownStatusNotification_def split: option.split notification.split)

lemma notice_ok_fields [simp]:
  "notice_ok (t\<lparr>stl_tileName := n\<rparr>) = notice_ok t" "notice_ok (t\<lparr>stl_currencyChartIsOpening := c\<rparr>) = notice_ok t"
  "notice_ok (t\<lparr>stl_notional := q\<rparr>) = notice_ok t" "notice_ok (t\<lparr>stl_currentSpotPrice := p\<rparr>) = notice_ok t"
  "notice_ok (t\<lparr>stl_isTradeExecutionInFlight := f\<rparr>) = notice_ok t"
  "notice_ok (t\<lparr>stl_execution := x, stl_nextExecution := k\<rparr>) = notice_ok t"
  "notice_ok (t\<lparr>stl_notification := Some (TradeExecutionNotification tf err)\<rparr>)"
  by (auto simp: notice_ok_def split: option.split notification.split)

lemma notice_start_execution [simp]: "notice_ok (fst (start_execution p r t)) = notice_ok t"
  by (simp add: start_execution_def)

lemma notice_step: "notice_ok t \<Longrightarrow> notice_ok (fst (tile_step fmt fin t ev))"
proof (cases ev)
  case (ExecutionResponse i response)
  assume "notice_ok t"
  then show ?thesis using ExecutionResponse
    by (auto simp: trade_response_def Let_def notification_createForError_def notification_createForSuccess_def
        split: option.split execution_purpose.split)
next
  case (ExecutionError i e)
  assume "notice_ok t"
  then show ?thesis using ExecutionError
    by (auto simp: notification_createForError_def split: option.split execution_purpose.split)
next
  case (ExecuteTrade d)
  assume "notice_ok t"
  then show ?thesis using ExecuteTrade by (auto simp: tile_executeTrade_def split: sum.split)
next
  case (ClosePositionRequest msg)
  assume "notice_ok t"
  then show ?thesis using ClosePositionRequest by (auto simp: closePositionRequestCallback_def split: sum.split)
qed (auto simp: Let_def)

interpretation notices: guarded_handler "tile_step fmt fin" notice_ok "\<lambda>call. True" for fmt fin
  by unfold_locales (simp_all add: notice_step)

text \<open>A tile whose trade is in flight keeps the price it traded on.\<close>

lemma price_frozen_step:
  assumes "stl_isTradeExecutionInFlight t"
  shows "stl_currentSpotPrice (fst (tile_step fmt fin t ev)) = stl_currentSpotPrice t"
  using assms
  by (cases ev) (auto simp: tile_defs Let_def split: option.split sum.split execution_purpose.split)

lemma in_flight_step:
  "stl_isTradeExecutionInFlight (fst (tile_step fmt fin t ev)) \<Longrightarrow> \<not> stl_isTradeExecutionInFlight t \<Longrightarrow>
     \<exists>d. ev = ExecuteTrade d"
  by (cases ev) (auto simp: tile_defs Let_def split: option.splits sum.splits execution_purpose.splits if_splits)

text \<open>What starts an execution.\<close>

lemma start_step:
  assumes "StartExecution i request \<in> set (snd (tile_step fmt fin t ev))"
  shows "(\<exists>d price. ev = ExecuteTrade d \<and> stl_pricingConnected t \<and> stl_executionConnected t
        \<and> \<not> stl_isTradeExecutionInFlight t \<and> stl_isTradeExecutionInFlight (fst (tile_step fmt fin t ev))
        \<and> stl_currentSpotPrice t = Some price \<and> createTradeRequest t d (stl_notional t) = Inr request)
    \<or> (\<exists>msg. ev = ClosePositionRequest msg \<and> cl_symbol msg = cp_symbol (stl_currencyPair t)
        \<and> createTradeRequest t (if cl_amount msg > 0 then Sell else Buy) \<bar>cl_amount msg\<bar> = Inr request)"
  using assms
proof (cases ev)
  case (ExecuteTrade d)
  with assms show ?thesis
    by (auto simp: tile_executeTrade_def start_execution_def createTradeRequest_def split: if_splits option.splits)
next
  case (ClosePositionRequest msg)
  with assms show ?thesis
    by (auto simp: closePositionRequestCallback_def start_execution_def split: if_splits option.splits sum.splits)
next
  case (ExecutionResponse j response)
  with assms show ?thesis
    by (auto simp: trade_response_def Let_def split: if_splits option.splits execution_purpose.splits)
qed (auto simp: Let_def split: option.splits execution_purpose.splits if_splits)

text \<open>A trade stays in flight until its own execution is heard of.\<close>

fun is_outcome :: "tile_event \<Rightarrow> bool" where
  "is_outcome (ExecutionResponse i r) = True"
| "is_outcome (ExecutionError i e) = True"
| "is_outcome ev = False"

lemma in_flight_kept:
  "stl_isTradeExecutionInFlight t \<Longrightarrow> \<not> is_outcome ev \<Longrightarrow> stl_isTradeExecutionInFlight (fst (tile_step fmt fin t ev))"
  by (cases ev) (auto simp: tile_defs Let_def split: option.split sum.split)

lemma in_flight_run:
  assumes "stl_isTradeExecutionInFlight t" "\<forall>ev \<in> set evs. \<not> is_outcome ev"
  shows "stl_isTradeExecutionInFlight (final_state (tile_step fmt fin) t evs)
    \<and> stl_currentSpotPrice (final_state (tile_step fmt fin) t evs) = stl_currentSpotPrice t"
  using assms
proof (induction evs arbitrary: t)
  case (Cons ev evs)
  then show ?case
    using in_flight_kept [of t ev fmt fin] price_frozen_step [of t fmt fin ev]
    by (simp del: tile_step.simps)
qed simp

text \<open>A tile whose trade lost its execution to a request to close a position.\<close>

definition orphaned :: "spot_tile \<Rightarrow> bool" where
  "orphaned t \<longleftrightarrow> stl_isTradeExecutionInFlight t \<and> (\<exists>i msg. stl_execution t = Some (i, ClosePosition msg))"


lemma orphaned_step: "orphaned t \<Longrightarrow> orphaned (fst (tile_step fmt fin t ev))"
  by (cases ev) (auto simp: orphaned_def tile_defs Let_def split: option.split sum.split)

interpretation orphaned: guarded_handler "tile_step fmt fin" orphaned "\<lambda>call. True" for fmt fin
  by unfold_locales (simp_all add: orphaned_step)

lemma orphaned_price:
  "orphaned t \<Longrightarrow> stl_currentSpotPrice (final_state (tile_step fmt fin) t evs) = stl_currentSpotPrice t"
proof (induction evs arbitrary: t)
  case (Cons ev evs)
  then show ?case using orphaned_step [of t fmt fin ev] price_frozen_step [of t fmt fin ev]
    by (simp add: orphaned_def del: tile_step.simps)
qed simp

section \<open>Properties\<close>

text \<open>C1: a user's trade is executed only while both services are connected and no other trade is in
  flight, and it is marked in flight at once. Its request is for the price on the screen, the ask to
  buy and the bid to sell, in the base or the terms currency, and for the notional on the tile.\<close>

theorem tile_trades_when_ready:
  assumes "StartExecution i request \<in> set (snd (tile_step fmt fin t (ExecuteTrade d)))"
  shows "stl_pricingConnected t \<and> stl_executionConnected t \<and> \<not> stl_isTradeExecutionInFlight t
    \<and> stl_isTradeExecutionInFlight (fst (tile_step fmt fin t (ExecuteTrade d)))
    \<and> (\<exists>price. stl_currentSpotPrice t = Some price
        \<and> rq_SpotRate request = rt_rawRate (if d = Buy then px_ask price else px_bid price))
    \<and> rq_CurrencyPair request = cp_symbol (stl_currencyPair t) \<and> rq_Notional request = stl_notional t
    \<and> rq_Direction request = direction_name d
    \<and> rq_DealtCurrency request = (if d = Buy then cp_base (stl_currencyPair t) else cp_terms (stl_currencyPair t))"
  using start_step [OF assms] by (auto simp: createTradeRequest_def)

definition example_rate :: "rat \<Rightarrow> rate" where
  "example_rate x = \<lparr>rt_rawRate = x, rt_bigFigure = Num 1, rt_pips = Num 0, rt_pipFraction = Num 0\<rparr>"

definition example_spot :: spot_price where
  "example_spot = \<lparr>px_symbol = ''EURUSD'', px_ratePrecision = 5, px_bid = example_rate 1, px_ask = example_rate 2,
     px_mid = example_rate (3 / 2), px_valueDate = [], px_creationTimestamp = 0, px_priceMovementType = NoMovement,
     px_spread = \<lparr>sp_value = Num 1, sp_formattedValue = ''1''\<rparr>, px_isTradable = True\<rparr>"

definition example_formats :: formats where
  "example_formats = \<lparr>fmt_notional = (\<lambda>n. []), fmt_tradeDate = (\<lambda>d. []), fmt_valueDate = (\<lambda>d. [])\<rparr>"

definition ready_tile :: spot_tile where
  "ready_tile = (new_spot_tile ''spotTile-EURUSD'' (new_currency_pair ''EURUSD'' 5 4))
     \<lparr>stl_pricingConnected := True, stl_executionConnected := True, stl_currentSpotPrice := Some example_spot\<rparr>"

lemma ready_tile_starts:
  "tile_step fmt fin ready_tile (ExecuteTrade Buy) =
     (ready_tile\<lparr>stl_isTradeExecutionInFlight := True, stl_execution := Some (0, UserTrade), stl_nextExecution := 1\<rparr>,
      [StartExecution 0 \<lparr>rq_CurrencyPair = ''EURUSD'', rq_SpotRate = 2, rq_Direction = ''Buy'', rq_Notional = 1000000,
         rq_DealtCurrency = ''EUR''\<rparr>])"
  by (simp add: ready_tile_def new_spot_tile_def tile_defs example_spot_def example_rate_def new_currency_pair_def
      js_substr_def Let_def)

lemma tile_trades_when_ready_witness:
  "stl_isTradeExecutionInFlight (fst (tile_step example_formats (new_openfin False) ready_tile (ExecuteTrade Buy)))"
  using tile_trades_when_ready [of 0 "\<lparr>rq_CurrencyPair = ''EURUSD'', rq_SpotRate = 2, rq_Direction = ''Buy'',
      rq_Notional = 1000000, rq_DealtCurrency = ''EUR''\<rparr>" example_formats "new_openfin False" ready_tile Buy]
  by (simp only: ready_tile_starts) simp

text \<open>While a trade is in flight and has not been heard of, whatever else happens to the tile, the price
  it shows stays the one traded on and no second trade of the user starts.\<close>

theorem tile_frozen_in_flight:
  assumes "stl_isTradeExecutionInFlight t" "\<forall>ev \<in> set evs. \<not> is_outcome ev"
    and "t' = final_state (tile_step fmt fin) t evs"
  shows "stl_currentSpotPrice t' = stl_currentSpotPrice t \<and> snd (tile_step fmt fin t' (ExecuteTrade d)) = []"
  using in_flight_run [OF assms(1,2), of fmt fin] by (simp add: assms(3) tile_executeTrade_def)

lemma tile_frozen_in_flight_witness:
  "stl_currentSpotPrice (final_state (tile_step example_formats (new_openfin False))
     (ready_tile\<lparr>stl_isTradeExecutionInFlight := True\<rparr>) [Price (example_spot\<lparr>px_isTradable := False\<rparr>), PriceStale]) = Some example_spot"
  using tile_frozen_in_flight [of "ready_tile\<lparr>stl_isTradeExecutionInFlight := True\<rparr>"
      "[Price (example_spot\<lparr>px_isTradable := False\<rparr>), PriceStale]" _ example_formats "new_openfin False", OF _ _ refl]
  by (simp add: ready_tile_def)

text \<open>C28: from the first news of the services on, the tile shows that pricing is unavailable exactly when it
  has no trade to show and pricing is disconnected or the price stale, and shows nothing when it is
  neither.\<close>

theorem tile_shows_pricing_down:
  assumes "t = final_state (tile_step fmt fin) start (before @ ServicesConnected pricing execution # after)"
  shows "(stl_notification t = None \<longrightarrow> stl_pricingConnected t \<and> \<not> stl_priceStale t)
    \<and> (\<forall>m. stl_notification t = Some (TextNotification m) \<longrightarrow>
         m = ''Pricing is unavailable'' \<and> (\<not> stl_pricingConnected t \<or> stl_priceStale t))"
proof -
  have "notice_ok t" unfolding assms run_append(1) by (simp add: notices.run_inv)
  then show ?thesis by (auto simp: notice_ok_def split: option.splits)
qed

lemma tile_shows_pricing_down_witness:
  "stl_notification (final_state (tile_step example_formats (new_openfin False)) ready_tile
     [ServicesConnected False True, Price example_spot]) \<noteq> None"
  using tile_shows_pricing_down [of _ example_formats "new_openfin False" ready_tile "[]" False True "[Price example_spot]", OF refl]
  by (auto simp: ready_tile_def new_spot_tile_def updatePricingDownStatusNotification_def Let_def)

text \<open>C29: a request of the container to close a position that arrives while the user's trade is in flight
  takes over the execution's subscription. The trade's outcome is dropped, and from then on the tile
  is in flight for ever: no later event clears the flag, moves the price or lets the user trade.\<close>

theorem tile_stuck_after_close_position:
  assumes "stl_isTradeExecutionInFlight t" "stl_currentSpotPrice t \<noteq> None" "cl_symbol msg = cp_symbol (stl_currencyPair t)"
    and "t' = final_state (tile_step fmt fin) t (ClosePositionRequest msg # evs)"
  shows "stl_isTradeExecutionInFlight t' \<and> stl_currentSpotPrice t' = stl_currentSpotPrice t
    \<and> tile_step fmt fin t' (ExecuteTrade d) = (t', [])"
proof -
  let ?t = "fst (tile_step fmt fin t (ClosePositionRequest msg))"
  have "orphaned ?t" "stl_currentSpotPrice ?t = stl_currentSpotPrice t"
    using assms(1-3) by (auto simp: orphaned_def tile_defs)
  then have "orphaned t'" "stl_currentSpotPrice t' = stl_currentSpotPrice t"
    using orphaned.run_inv orphaned_price unfolding assms(4) run_Cons by metis+
  then show ?thesis by (simp add: orphaned_def tile_executeTrade_def)
qed

lemma tile_stuck_after_close_position_witness:
  "stl_isTradeExecutionInFlight (final_state (tile_step example_formats (new_openfin True))
     (fst (tile_step example_formats (new_openfin True) ready_tile (ExecuteTrade Buy)))
     [ClosePositionRequest \<lparr>cl_symbol = ''EURUSD'', cl_amount = 5, cl_uuid = ''excel'', cl_correlationId = ''1''\<rparr>,
      ExecutionResponse 0 (response_createForError ''late''), ExecutionResponse 1 (response_createForError ''refused'')])"
  using tile_stuck_after_close_position [of "fst (tile_step example_formats (new_openfin True) ready_tile (ExecuteTrade Buy))"
      "\<lparr>cl_symbol = ''EURUSD'', cl_amount = 5, cl_uuid = ''excel'', cl_correlationId = ''1''\<rparr>" _ example_formats "new_openfin True"
      "[ExecutionResponse 0 (response_createForError ''late''), ExecutionResponse 1 (response_createForError ''refused'')]",
      OF _ _ _ refl]
  unfolding ready_tile_starts by (simp add: ready_tile_def new_spot_tile_def del: tile_step.simps)

end
