(* ===== verification/Views.thy ===== *)
theory Views imports SpotTile Runtime Mappers begin

text \<open>
  What the spot tile's views compute from the model and send back to it: the notional field
  (\<open>notionalInput.jsx\<close>), the price button (\<open>priceButton.jsx\<close>), the price movement
  (\<open>priceMovementIndicator.jsx\<close>), the tile itself (\<open>spotTileView.jsx\<close>, \<open>tradeNotification.jsx\<close>), and the
  pop-up of a trade (\<open>tradeNotificationView.jsx\<close>). React, \<open>numeral\<close> and \<open>classnames\<close> are not under \<open>src\<close>:
  a class list is the list of names with the conditions the view hands to \<open>classnames\<close>, the formats are parameters.
\<close>

section \<open>The notional field\<close>

definition CHAR_CODE_DOT :: nat where "CHAR_CODE_DOT = 46"
definition CHAR_CODE_0 :: nat where "CHAR_CODE_0 = 48"
definition CHAR_CODE_9 :: nat where "CHAR_CODE_9 = 57"
definition CHAR_CODE_UNIT_SEP :: nat where "CHAR_CODE_UNIT_SEP = 31"
definition SHORTCUT_CHAR_CODES :: "nat list" where "SHORTCUT_CHAR_CODES = [75, 77, 107, 109]"

definition is_blank :: "char \<Rightarrow> bool" where
  "is_blank c \<longleftrightarrow> (of_char c :: nat) \<in> {9, 10, 11, 12, 13, 32, 160}"

definition js_trim :: "string \<Rightarrow> string" where
  "js_trim s = rev (dropWhile is_blank (rev (dropWhile is_blank s)))"

text \<open>What the field does: send the notional to its parent, write the text back, or keep a key from
  being typed. The second argument of the format says that the point just typed is to be restored.\<close>

datatype input_call =
    SendNotional rat
  | SetInputValue string
  | PreventKey

definition restores_dot :: "string \<Rightarrow> bool" where
  "restores_dot inputValue \<longleftrightarrow>
     (case find_index (\<lambda>c. c = CHR ''.'') inputValue of
        None \<Rightarrow> inputValue = ''''
      | Some i \<Rightarrow> i = length inputValue - 1)"

definition processNotional :: "(rat \<Rightarrow> bool \<Rightarrow> string) \<Rightarrow> rat \<Rightarrow> string \<Rightarrow> input_call list" where
  "processNotional numeral_format maxValue inputValue =
     (let entered = convertNotionalShorthandToNumericValue inputValue;
          notional = (if entered \<ge> maxValue then 0 else entered)
      in [SendNotional notional, SetInputValue (numeral_format notional (restores_dot inputValue))])"

definition inputIsAllowed :: "nat \<Rightarrow> bool" where
  "inputIsAllowed charCode \<longleftrightarrow>
     charCode \<le> CHAR_CODE_UNIT_SEP \<or> charCode \<in> set SHORTCUT_CHAR_CODES
     \<or> charCode \<ge> CHAR_CODE_0 \<and> charCode \<le> CHAR_CODE_9"

text \<open>\<open>match\<close> gives \<open>null\<close> for a text without a point.\<close>

datatype input_event =
    InputBlur string
  | InputKeyPress string nat string
  | InputChange string string

fun input_step :: "(rat \<Rightarrow> bool \<Rightarrow> string) \<Rightarrow> rat \<Rightarrow> input_event \<Rightarrow> input_call list result" where
  "input_step numeral_format maxValue (InputBlur text) = Inr (processNotional numeral_format maxValue text)"
| "input_step numeral_format maxValue (InputKeyPress key charCode text) =
     (if key = ''Enter'' then Inr (processNotional numeral_format maxValue text)
      else if charCode = CHAR_CODE_DOT then
        (case length (filter (\<lambda>c. c = CHR ''.'') text) of
           0 \<Rightarrow> Inl (TypeError ''Cannot read property 'length' of null'')
         | Suc numDots \<Rightarrow> Inr [PreventKey])
      else if \<not> inputIsAllowed charCode then Inr [PreventKey]
      else Inr [])"
| "input_step numeral_format maxValue (InputChange ref_text text) =
     (let rawValue = js_trim (if ref_text = '''' then text else ref_text)
      in if hasShorthandInput rawValue then Inr (processNotional numeral_format maxValue rawValue) else Inr [])"

text \<open>The tile behind its notional field: the field is the only sender of \<open>notionalChanged\<close>, and the tile hands it
  its largest notional.\<close>

definition notional_events :: "input_call list result \<Rightarrow> tile_event list" where
  "notional_events r =
     (case r of Inl e \<Rightarrow> []
      | Inr calls \<Rightarrow> List.map_filter (\<lambda>c. case c of SendNotional n \<Rightarrow> Some (NotionalChanged n) | _ \<Rightarrow> None) calls)"

fun tile_with_field ::
    "(rat \<Rightarrow> bool \<Rightarrow> string) \<Rightarrow> formats \<Rightarrow> openfin \<Rightarrow> (spot_tile, tile_event + input_event, tile_call) handler" where
  "tile_with_field numeral_format fmt fin t (Inl (NotionalChanged n)) = (t, [])"
| "tile_with_field numeral_format fmt fin t (Inl ev) = tile_step fmt fin t ev"
| "tile_with_field numeral_format fmt fin t (Inr iev) =
     run (tile_step fmt fin) t (notional_events (input_step numeral_format (stl_maxNotional t) iev))"

section \<open>The price button\<close>

text \<open>A number as text: the fewest decimals that read back as the number. It is the language's conversion for
  the numbers of a rate, which are zero or at least a millionth and have at most twelve digits.\<close>

definition decimals_of :: "rat \<Rightarrow> nat" where
  "decimals_of x = (case find (\<lambda>f. fl (of_nat (scaled x f) / 10 ^ f) = \<bar>x\<bar>) [0..<21] of Some f \<Rightarrow> f | None \<Rightarrow> 20)"

fun js_String :: "jsnum \<Rightarrow> string" where
  "js_String NaN = ''NaN''"
| "js_String (Num x) =
     (if x < 0 then ''-'' else '''') @ fixed_string (scaled x (decimals_of x)) (decimals_of x)"

record price_button =
  pb_bigFigure :: string
  pb_pips :: string
  pb_pipFraction :: string

definition paddedPips :: "rate \<Rightarrow> string" where
  "paddedPips r =
     (let s = js_String (rt_pips r) in if length s = 1 then CHR ''0'' # s else s)"

definition bigFigureDisplay :: "rate \<Rightarrow> string" where
  "bigFigureDisplay r =
     (let s = (if rt_bigFigure r = Num (of_int \<lfloor>rt_rawRate r\<rfloor>) then js_String (rt_bigFigure r) @ ''.''
               else js_String (rt_bigFigure r))
      in if length s = 3 then s @ ''0'' else s)"

definition priceButton :: "rate \<Rightarrow> price_button" where
  "priceButton r =
     \<lparr>pb_bigFigure = bigFigureDisplay r, pb_pips = paddedPips r, pb_pipFraction = js_String (rt_pipFraction r)\<rparr>"

section \<open>The tile's views\<close>

type_synonym class_list = "(string \<times> bool) list"

definition upDirectionClasses :: "price_movement \<Rightarrow> class_list" where
  "upDirectionClasses m = [(''price-movement__icon--up fa fa-lg'', True),
     (''fa-caret-up'', m = Up), (''price-movement__icon--inactive'', m = Down)]"

definition downDirectionClasses :: "price_movement \<Rightarrow> class_list" where
  "downDirectionClasses m = [(''price-movement__icon--down fa fa-lg'', True),
     (''fa-caret-down'', m = Down), (''price-movement__icon--inactive'', m = Up)]"

definition tile_hasNotification :: "spot_tile \<Rightarrow> bool" where
  "tile_hasNotification t \<longleftrightarrow> stl_notification t \<noteq> None"

definition notification_error :: "notification \<Rightarrow> string option" where
  "notification_error n = (case n of TextNotification m \<Rightarrow> None | TradeExecutionNotification fs e \<Rightarrow> e)"

definition spotTileClasses :: "spot_tile \<Rightarrow> class_list" where
  "spotTileClasses t =
     [(''spot-tile'', True),
      (''spot-tile--stale'', (\<not> stl_pricingConnected t \<or> stl_priceStale t)
         \<and> \<not> (case stl_notification t of None \<Rightarrow> False | Some n \<Rightarrow> notificationType n = TradeType)),
      (''spot-tile--readonly'', \<not> stl_executionConnected t),
      (''spot-tile--executing'', stl_isTradeExecutionInFlight t),
      (''spot-tile--error'', case stl_notification t of None \<Rightarrow> False
         | Some n \<Rightarrow> (case notification_error n of None \<Rightarrow> False | Some e \<Rightarrow> e \<noteq> ''''))]"

definition chartIQIconClasses :: "openfin \<Rightarrow> spot_tile \<Rightarrow> class_list" where
  "chartIQIconClasses fin t =
     [(''spot-tile__icon--hidden'', \<not> of_running fin),
      (''glyphicon glyphicon-refresh spot-tile__icon--rotate'', stl_currencyChartIsOpening t),
      (''spot-tile__icon--chart glyphicon glyphicon-stats'', \<not> stl_currencyChartIsOpening t)]"

definition newWindowClasses :: "bool \<Rightarrow> class_list" where
  "newWindowClasses canPopout =
     [(''popout__controls  glyphicon glyphicon-new-window'', True),
      (''spot-tile__icon--tearoff'', \<not> canPopout), (''spot-tile__icon--hidden'', canPopout)]"

text \<open>A click on a price button, and what the tile shows in place of the prices.\<close>

definition onExecuteTrade :: "spot_tile \<Rightarrow> direction \<Rightarrow> tile_event list" where
  "onExecuteTrade t d = (if stl_executionConnected t then [ExecuteTrade d] else [])"

datatype tile_content = Prices "price_button option \<times> price_button option" | TradeSummary notification | Message string

definition tile_content :: "spot_tile \<Rightarrow> tile_content" where
  "tile_content t =
     (case stl_notification t of
        None \<Rightarrow> Prices (case stl_currentSpotPrice t of
            None \<Rightarrow> (None, None)
          | Some p \<Rightarrow> (Some (priceButton (px_bid p)), Some (priceButton (px_ask p))))
      | Some (TextNotification m) \<Rightarrow> Message m
      | Some n \<Rightarrow> TradeSummary n)"

text \<open>The summary of a trade on the tile: the text of an error, or whether it has the rejected class and its status. A
  summary without error reads the status of the trade.\<close>

definition tradeSummary :: "trade_fields option \<Rightarrow> string option \<Rightarrow> (string + bool \<times> string) result" where
  "tradeSummary trade err =
     (case err of
        Some e \<Rightarrow> Inr (Inl (e @ ''. The execution status is unknown. Please contact your sales rep.''))
      | None \<Rightarrow>
          (case trade of
             None \<Rightarrow> Inl (TypeError ''Cannot read property 'name' of undefined'')
           | Some f \<Rightarrow> Inr (Inr (tf_status f = Rejected, trade_status_name (tf_status f)))))"

section \<open>The pop-up of a trade\<close>

text \<open>The container hands over the fields as strings; a string is never identical to an object of \<open>TradeStatus\<close>.\<close>

definition identical_to_object :: "string \<Rightarrow> trade_status \<Rightarrow> bool" where
  "identical_to_object s status = False"

record trade_popup =
  pop_statusClasses :: class_list
  pop_summaryClasses :: class_list
  pop_status :: string
  pop_direction :: string

definition tradeNotificationView :: "trade_notification \<Rightarrow> trade_popup" where
  "tradeNotificationView tn =
     \<lparr>pop_statusClasses = [(''notification__status'', True), (''notification__status--done'', tn_tradeStatus tn = ''Done''),
        (''notification__status--rejected'', tn_tradeStatus tn \<noteq> ''Done'')],
      pop_summaryClasses = [(''notification__summary-items'', True),
        (''notification__summary-items--rejected'', tn_tradeStatus tn = ''Rejected'')],
      pop_status = (if identical_to_object (tn_tradeStatus tn) Done then tn_tradeStatus tn else map to_upper ''Rejected''),
      pop_direction = (if tn_direction tn = direction_name Buy then ''Bought'' else ''Sold'')\<rparr>"

section \<open>Lemmas\<close>

lemma shorthand_number_nonneg:
  assumes "list_all is_number_char g" and "g \<noteq> []"
  shows "0 \<le> shorthand_number (Some g)"
proof -
  have "hd g \<noteq> CHR ''-''" using assms by (cases g) (auto simp: is_number_char_def is_digit_def)
  then have "js_Number g = (case decimal g of Some x \<Rightarrow> Num (fl x) | None \<Rightarrow> NaN)"
    using assms(2) by (simp add: js_Number_def)
  moreover have "0 \<le> x" if "decimal g = Some x" for x
    using that by (auto simp: decimal_def split: list.splits if_splits)
  then have "0 \<le> fl x" if "decimal g = Some x" for x using fl_mono(2) [of 0] that by simp
  ultimately show ?thesis by (cases "decimal g") (simp_all add: shorthand_number_def)
qed

lemma match_shorthand_group:
  assumes "match_shorthand s = Some (g, c)"
  shows "0 \<le> shorthand_number g"
proof (cases "takeWhile is_number_char s = []")
  case True
  then have "g = None" using assms by (simp add: match_shorthand_def Let_def split: list.splits if_splits)
  then show ?thesis by (simp add: shorthand_number_def)
next
  case False
  then have "g = Some (takeWhile is_number_char s)"
    using assms by (simp add: match_shorthand_def Let_def split: list.splits if_splits)
  moreover have "list_all is_number_char (takeWhile is_number_char s)" by (auto simp: list_all_iff dest: set_takeWhileD)
  ultimately show ?thesis using shorthand_number_nonneg [OF _ False] by simp
qed

lemma entered_nonneg: "0 \<le> convertNotionalShorthandToNumericValue entry"
proof -
  have "0 \<le> fl (shorthand_number g * (if u then 1000 else 1000000))" if "match_shorthand s = Some (g, c)" for s g c u
    using fl_mono(2) [of 0] match_shorthand_group [OF that] by simp
  with match_shorthand_group show ?thesis
    unfolding convertNotionalShorthandToNumericValue_def Let_def by (simp split: option.split prod.split)
qed

lemma processNotional_sends:
  assumes "SendNotional n \<in> set (processNotional fmt maxValue entry)" and "0 < maxValue"
  shows "0 \<le> n \<and> n < maxValue"
  using assms entered_nonneg [of entry] by (auto simp: processNotional_def Let_def split: if_splits)

lemma input_step_sends:
  assumes "input_step fmt maxValue ev = Inr calls" and "SendNotional n \<in> set calls" and "0 < maxValue"
  shows "0 \<le> n \<and> n < maxValue"
proof -
  have "\<exists>entry. SendNotional n \<in> set (processNotional fmt maxValue entry)"
    using assms(1,2) by (cases ev) (auto simp: Let_def split: if_splits nat.splits)
  then show ?thesis using processNotional_sends assms(3) by blast
qed

definition notional_ok :: "spot_tile \<Rightarrow> bool" where
  "notional_ok t \<longleftrightarrow> 0 \<le> stl_notional t \<and> stl_notional t < stl_maxNotional t \<and> stl_maxNotional t = MAX_NOTIONAL_VALUE"

lemma notional_unchanged:
  assumes "\<nexists>n. ev = NotionalChanged n"
  shows "stl_notional (fst (tile_step fmt fin t ev)) = stl_notional t
    \<and> stl_maxNotional (fst (tile_step fmt fin t ev)) = stl_maxNotional t"
  using assms
  by (cases ev) (auto simp: tile_defs Let_def split: option.split sum.split execution_purpose.split)

lemma notional_events_step:
  assumes "notional_ok t" and "\<forall>ev \<in> set evs. \<exists>n. ev = NotionalChanged n \<and> 0 \<le> n \<and> n < MAX_NOTIONAL_VALUE"
  shows "notional_ok (final_state (tile_step fmt fin) t evs)"
  using assms
proof (induction evs arbitrary: t)
  case (Cons ev evs)
  then obtain n where "ev = NotionalChanged n" "0 \<le> n" "n < MAX_NOTIONAL_VALUE" by auto
  then have "notional_ok (fst (tile_step fmt fin t ev))" using Cons.prems(1) by (simp add: notional_ok_def)
  with Cons show ?case by simp
qed simp

lemma tile_with_field_ok:
  assumes "notional_ok t"
  shows "notional_ok (fst (tile_with_field nfmt fmt fin t e))"
proof (cases e)
  case (Inl ev)
  show ?thesis
  proof (cases "\<exists>n. ev = NotionalChanged n")
    case True
    then show ?thesis using Inl assms by auto
  next
    case False
    then have "tile_with_field nfmt fmt fin t e = tile_step fmt fin t ev" by (cases ev) (simp_all add: Inl del: tile_step.simps)
    then show ?thesis using notional_unchanged [OF False, of fmt fin t] assms by (simp add: notional_ok_def)
  qed
next
  case (Inr iev)
  have "0 < stl_maxNotional t" using assms by (simp add: notional_ok_def MAX_NOTIONAL_VALUE_def)
  then have "\<forall>ev \<in> set (notional_events (input_step nfmt (stl_maxNotional t) iev)).
      \<exists>n. ev = NotionalChanged n \<and> 0 \<le> n \<and> n < MAX_NOTIONAL_VALUE"
    using assms input_step_sends [of nfmt "stl_maxNotional t" iev]
    by (cases "input_step nfmt (stl_maxNotional t) iev")
      (auto simp: notional_events_def notional_ok_def map_filter_def split: input_call.splits)
  from notional_events_step [OF assms this] show ?thesis by (simp add: Inr)
qed

interpretation notional_field: guarded_handler "tile_with_field nfmt fmt fin" notional_ok "\<lambda>call. True" for nfmt fmt fin
  by unfold_locales (simp_all add: tile_with_field_ok)

section \<open>Numbers of a rate as text\<close>

lemma find_skip: "(\<And>x. x \<in> set xs \<Longrightarrow> \<not> P x) \<Longrightarrow> P y \<Longrightarrow> find P (xs @ y # ys) = Some y"
  by (induction xs) auto

text \<open>A decimal without a trailing zero prints with its own digits: no shorter one is read as the same double.\<close>

lemma decimals_of_decimal:
  assumes "k \<le> 10 ^ 12" and "f \<le> 20" and "f = 0 \<or> k mod 10 \<noteq> 0"
  shows "decimals_of (fl (of_nat k / 10 ^ f)) = f"
proof -
  let ?x = "fl (of_nat k / 10 ^ f)"
  let ?p = "\<lambda>g. fl (of_nat (scaled ?x g) / 10 ^ g) = \<bar>?x\<bar>"
  have grid: "scaled ?x f = k" "0 \<le> ?x" using scaled_on_grid [OF assms(1,2)] by simp_all
  have at: "?p f" using grid by simp
  have shorter: "\<not> ?p g" if "g < f" for g
  proof
    assume "?p g"
    then have same: "fl (of_nat (scaled ?x g) / 10 ^ g) = ?x" using grid(2) by simp
    define m where "m = scaled ?x g * 10 ^ (f - g)"
    have "(10 :: rat) ^ f = 10 ^ g * 10 ^ (f - g)" using that by (simp flip: power_add)
    then have "(of_nat (scaled ?x g) / 10 ^ g :: rat) = of_nat m / 10 ^ f" by (simp add: m_def)
    with same have m: "fl (of_nat m / 10 ^ f) = ?x" by simp
    have "m \<le> 10 ^ 12 \<Longrightarrow> m = k" using scaled_on_grid(1) [OF _ assms(2), of m] grid(1) unfolding m by metis
    moreover have "m mod 10 = 0" using that by (cases "f - g") (auto simp: m_def)
    moreover have "f \<noteq> 0" using that by simp
    ultimately have "10 ^ 12 < m" using assms(3) by (metis not_le)
    then have "(of_nat (10 ^ 12) :: rat) \<le> of_nat m" by (simp only: of_nat_le_iff)
    then have le: "(of_nat (10 ^ 12) / 10 ^ f :: rat) \<le> of_nat m / 10 ^ f" by (rule divide_right_mono) simp
    have ge: "(of_nat k / 10 ^ f :: rat) \<le> of_nat (10 ^ 12) / 10 ^ f"
      using of_nat_mono [OF assms(1), where 'a = rat] by (rule divide_right_mono) simp
    have "fl (of_nat (10 ^ 12) / 10 ^ f) \<le> ?x" using fl_mono(1) [OF _ le] unfolding m by simp
    moreover have "?x \<le> fl (of_nat (10 ^ 12) / 10 ^ f)" using fl_mono(1) [OF _ ge] by simp
    ultimately have "fl (of_nat (10 ^ 12) / 10 ^ f) = ?x" by (rule antisym)
    then have "k = 10 ^ 12" using scaled_on_grid(1) [OF order_refl assms(2)] grid(1) by metis
    then show False using assms(3) that by simp
  qed
  have "[0..<21] = [0..<f] @ [f..<21]" using assms(2) upt_add_eq_append [of 0 f "21 - f"] by simp
  also have "[f..<21] = f # [Suc f..<21]" using assms(2) by (simp add: upt_conv_Cons)
  finally have range: "[0..<21] = [0..<f] @ f # [Suc f..<21]" .
  have "find ?p [0..<21] = Some f"
    unfolding range by (rule find_skip) (use at shorter in simp_all)
  then show ?thesis by (simp add: decimals_of_def)
qed

lemma js_String_decimal:
  assumes "k \<le> 10 ^ 12" and "f \<le> 20" and "f = 0 \<or> k mod 10 \<noteq> 0"
  shows "js_String (Num (fl (of_nat k / 10 ^ f))) = fixed_string k f"
  using scaled_on_grid [OF assms(1,2)] by (simp add: decimals_of_decimal [OF assms] not_less)

lemma fl_nat: "k \<le> 10 ^ 12 \<Longrightarrow> fl (of_nat k) = of_nat k"
  using fl_of_int [of "int k"] by simp

lemma js_String_nat: "k \<le> 10 ^ 12 \<Longrightarrow> js_String (Num (of_nat k)) = dec_digits k"
  using js_String_decimal [of k 0] fl_nat [of k]
  by (simp add: fixed_string_def padded_digits_def Let_def Suc_le_eq del: js_String.simps)

text \<open>The digits of small numbers.\<close>

lemma dec_digits_small:
  "n < 10 \<Longrightarrow> dec_digits n = [digit_char n]"
  "10 \<le> n \<Longrightarrow> n < 100 \<Longrightarrow> dec_digits n = [digit_char (n div 10), digit_char (n mod 10)]"
  "100 \<le> n \<Longrightarrow> n < 1000 \<Longrightarrow> dec_digits n = [digit_char (n div 100), digit_char (n div 10 mod 10), digit_char (n mod 10)]"
proof -
  have more: "dec_digits n = dec_digits (n div 10) @ [digit_char (n mod 10)]" if "10 \<le> n" for n
    using that by (simp add: dec_digits.simps [of n])
  show one: "n < 10 \<Longrightarrow> dec_digits n = [digit_char n]" for n by (simp add: dec_digits.simps)
  show two: "10 \<le> n \<Longrightarrow> n < 100 \<Longrightarrow> dec_digits n = [digit_char (n div 10), digit_char (n mod 10)]" for n
    using more [of n] one [of "n div 10"] by simp
  show "100 \<le> n \<Longrightarrow> n < 1000 \<Longrightarrow> dec_digits n = [digit_char (n div 100), digit_char (n div 10 mod 10), digit_char (n mod 10)]"
    using more [of n] two [of "n div 10"] by (simp add: div_mult2_eq [of n 10 10, symmetric])
qed

lemma dec_digits_long: "100 \<le> n \<Longrightarrow> 3 \<le> length (dec_digits n)"
proof -
  assume "100 \<le> n"
  have len: "dec_digits n = dec_digits (n div 10) @ [digit_char (n mod 10)]" if "10 \<le> n" for n
    using that by (simp add: dec_digits.simps [of n])
  have "1 \<le> length (dec_digits m)" for m by (cases "dec_digits m") simp_all
  from this [of "n div 10 div 10"] show ?thesis using \<open>100 \<le> n\<close> len [of n] len [of "n div 10"] by simp
qed

lemma zero_char: "CHR ''0'' = digit_char 0"
  by code_simp

lemma fixed_string_small:
  "c < 100 \<Longrightarrow> fixed_string c 1 = [digit_char (c div 10), CHR ''.'', digit_char (c mod 10)]"
  "b < 1000 \<Longrightarrow> fixed_string b 2 = [digit_char (b div 100), CHR ''.'', digit_char (b div 10 mod 10), digit_char (b mod 10)]"
proof -
  note z = zero_char
  show "c < 100 \<Longrightarrow> fixed_string c 1 = [digit_char (c div 10), CHR ''.'', digit_char (c mod 10)]"
    by (cases "c < 10") (simp_all add: fixed_string_def padded_digits_def dec_digits_small z Let_def)
  consider "b < 10" | "10 \<le> b" "b < 100" | "100 \<le> b" by linarith
  then show "b < 1000 \<Longrightarrow> fixed_string b 2 = [digit_char (b div 100), CHR ''.'', digit_char (b div 10 mod 10), digit_char (b mod 10)]"
    by cases (simp_all add: fixed_string_def padded_digits_def dec_digits_small z Let_def numeral_2_eq_2)
qed

lemma floor_on_grid:
  assumes "k \<le> 10 ^ 12" and "r \<le> 20"
  shows "\<lfloor>fl (of_nat k / 10 ^ r)\<rfloor> = int (k div 10 ^ r)"
proof -
  define b where "b = k div 10 ^ r"
  have "k mod 10 ^ r < 10 ^ r" by simp
  then have k: "b * 10 ^ r \<le> k" "k < (b + 1) * 10 ^ r"
    using div_mult_mod_eq [of k "10 ^ r"] unfolding b_def distrib_right mult_1 by linarith+
  have b: "b \<le> 10 ^ 12" unfolding b_def by (rule le_trans [OF div_le_dividend assms(1)])
  let ?x = "of_nat k / 10 ^ r :: rat"
  have R: "0 < (10::rat) ^ r" by simp
  have kq: "(of_nat b :: rat) * 10 ^ r \<le> of_nat k"
    using of_nat_mono [OF k(1), where 'a = rat] by simp
  then have "of_nat b \<le> ?x" using R by (simp add: le_divide_eq)
  from fl_mono(1) [OF _ this] have lo: "of_nat b \<le> fl ?x" by (simp add: fl_nat [OF b])
  have "fl ?x < of_nat b + 1"
  proof -
    have "(of_nat k :: rat) + 1 \<le> (of_nat b + 1) * 10 ^ r"
      using of_nat_mono [of "k + 1" "(b + 1) * 10 ^ r", where 'a = rat] k(2) by (simp add: algebra_simps)
    moreover have "fl ?x * 10 ^ r \<le> of_nat k + 1 / 2"
    proof -
      have "0 \<le> \<lfloor>\<bar>fl ?x\<bar> * 10 ^ r + 1 / 2\<rfloor>" by simp
      then have "\<lfloor>\<bar>fl ?x\<bar> * 10 ^ r + 1 / 2\<rfloor> = int k"
        using scaled_on_grid(1) [OF assms] unfolding scaled_def by linarith
      then show ?thesis using scaled_on_grid(2) [OF assms] by linarith
    qed
    ultimately have "fl ?x * 10 ^ r < (of_nat b + 1) * 10 ^ r" by linarith
    then show ?thesis using R by (simp add: mult_less_cancel_right)
  qed
  with lo have "\<lfloor>fl ?x\<rfloor> = int b" by (intro floor_unique) simp_all
  then show ?thesis by (simp add: b_def)
qed

text \<open>The two pip digits and the fraction.\<close>

lemma paddedPips_digits:
  "rt_pips r = Num (of_nat q) \<Longrightarrow> q < 100 \<Longrightarrow> paddedPips r = [digit_char (q div 10), digit_char (q mod 10)]"
proof -
  assume "rt_pips r = Num (of_nat q)" and "q < 100"
  moreover note zero_char
  ultimately show ?thesis
    by (cases "q < 10") (simp_all add: paddedPips_def js_String_nat dec_digits_small Let_def del: js_String.simps)
qed

lemma bigFigure_whole:
  assumes "rt_bigFigure r = Num (of_nat b)" and "\<lfloor>rt_rawRate r\<rfloor> = int b" and "b \<le> 10 ^ 12"
  shows "bigFigureDisplay r = (if 10 \<le> b \<and> b < 100 then dec_digits b @ ''.0'' else dec_digits b @ ''.'')"
proof -
  have eq: "rt_bigFigure r = Num (of_int \<lfloor>rt_rawRate r\<rfloor>)" using assms(1,2) by simp
  have "js_String (rt_bigFigure r) = dec_digits b" unfolding assms(1) by (rule js_String_nat [OF assms(3)])
  moreover have "length (dec_digits b) = 2 \<longleftrightarrow> 10 \<le> b \<and> b < 100"
    using dec_digits_small(1,2) [of b] dec_digits_long [of b] by (cases "b < 10"; cases "b < 100") simp_all
  ultimately show ?thesis unfolding bigFigureDisplay_def eq [symmetric] by (simp add: Let_def del: js_String.simps)
qed

lemma fixed_string_long: "4 \<le> length (fixed_string b 2)" if "100 \<le> b"
  using dec_digits_long [OF that] by (simp add: fixed_string_def padded_digits_def Let_def)

lemma bigFigure_cents:
  assumes "rt_bigFigure r = Num (fl (of_nat b / 10 ^ 2))" and "b \<le> 10 ^ 12" and "b < 1000 \<or> b mod 10 \<noteq> 0" and "b mod 100 \<noteq> 0"
  shows "bigFigureDisplay r = fixed_string b 2"
proof -
  note b = assms(2)
  have not_whole: "fl (of_nat b / 10 ^ 2) \<noteq> of_int z" for z
  proof
    assume z: "fl (of_nat b / 10 ^ 2) = of_int z"
    have "0 \<le> z" "scaled (of_int z) 2 = b" using scaled_on_grid [OF b, of 2] unfolding z by simp_all
    have "\<lfloor>\<bar>of_int z\<bar> * 10 ^ 2 + 1 / 2 :: rat\<rfloor> = z * 100"
      by (rule floor_unique) (use \<open>0 \<le> z\<close> in simp_all)
    with \<open>scaled (of_int z) 2 = b\<close> have "b = 100 * nat z"
      unfolding scaled_def using \<open>0 \<le> z\<close> by (simp only: nat_mult_distrib) simp
    then show False using assms(4) by simp
  qed
  have shown: "bigFigureDisplay r = (let s = js_String (Num (fl (of_nat b / 10 ^ 2))) in if length s = 3 then s @ ''0'' else s)"
    using not_whole by (simp add: bigFigureDisplay_def assms(1) del: js_String.simps)
  show ?thesis
  proof (cases "b mod 10 = 0")
    case False
    then have "js_String (Num (fl (of_nat b / 10 ^ 2))) = fixed_string b 2"
      using js_String_decimal [OF b, of 2] by (simp del: js_String.simps)
    moreover have "length (fixed_string b 2) \<noteq> 3"
      using fixed_string_long [of b] by (cases "b < 1000") (simp_all add: fixed_string_small)
    ultimately show ?thesis unfolding shown by (simp only: Let_def if_False)
  next
    case True
    define c where "c = b div 10"
    have small: "b < 1000" using True assms(3) by simp
    then have c: "b = 10 * c" "c < 100" using True by (auto simp: c_def)
    have "c mod 10 \<noteq> 0" using assms(4) unfolding c(1) by presburger
    moreover have "(of_nat b / 10 ^ 2 :: rat) = of_nat c / 10 ^ 1" by (simp add: c(1))
    ultimately have "js_String (Num (fl (of_nat b / 10 ^ 2))) = fixed_string c 1"
      using js_String_decimal [of c 1] c(2) by (simp only:) simp
    moreover have "fixed_string b 2 = fixed_string c 1 @ ''0''"
      using c small by (simp only: fixed_string_small zero_char) simp
    moreover have "length (fixed_string c 1) = 3" using c(2) by (simp only: fixed_string_small) simp
    ultimately show ?thesis unfolding shown by (simp del: js_String.simps)
  qed
qed

section \<open>Properties\<close>

text \<open>C15: whatever is typed into the notional field of a tile, and whatever else happens, the notional on the tile is
  neither negative nor its largest notional or more, and neither is that of a trade the user then starts. (A trade that
  closes a position is for the amount the container asks for, not for the notional of the tile.)\<close>

theorem notional_in_bounds:
  assumes "t = final_state (tile_with_field nfmt fmt fin) (new_spot_tile modelId pair) evs"
  shows "0 \<le> stl_notional t \<and> stl_notional t < MAX_NOTIONAL_VALUE \<and> stl_maxNotional t = MAX_NOTIONAL_VALUE
    \<and> (\<forall>d i request. StartExecution i request \<in> set (snd (tile_with_field nfmt fmt fin t (Inl (ExecuteTrade d)))) \<longrightarrow>
         0 \<le> rq_Notional request \<and> rq_Notional request < MAX_NOTIONAL_VALUE)"
proof -
  have "notional_ok (new_spot_tile modelId pair)" by (simp add: notional_ok_def new_spot_tile_def MAX_NOTIONAL_VALUE_def)
  from notional_field.run_inv [OF this, of nfmt fmt fin evs]
  have ok: "0 \<le> stl_notional t \<and> stl_notional t < MAX_NOTIONAL_VALUE \<and> stl_maxNotional t = MAX_NOTIONAL_VALUE"
    by (simp add: notional_ok_def assms)
  have "rq_Notional request = stl_notional t"
    if "StartExecution i request \<in> set (snd (tile_with_field nfmt fmt fin t (Inl (ExecuteTrade d))))" for d i request
    using start_step [of i request fmt fin t "ExecuteTrade d"] that by (auto simp: createTradeRequest_def)
  with ok show ?thesis by simp
qed

lemma notional_in_bounds_witness:
  "let step = tile_with_field (\<lambda>x b. ''0'') example_formats (new_openfin False);
       t = final_state step (new_spot_tile ''spotTile-EURUSD'' (new_currency_pair ''EURUSD'' 5 4))
             [Inl (ServicesConnected True True), Inl (Price example_spot)]
   in \<exists>i request. StartExecution i request \<in> set (snd (step t (Inl (ExecuteTrade Buy)))) \<and> rq_Notional request < MAX_NOTIONAL_VALUE"
proof -
  let ?step = "tile_with_field (\<lambda>x b. ''0'') example_formats (new_openfin False)"
  let ?t = "final_state ?step (new_spot_tile ''spotTile-EURUSD'' (new_currency_pair ''EURUSD'' 5 4))
    [Inl (ServicesConnected True True), Inl (Price example_spot)]"
  have "\<exists>i request. StartExecution i request \<in> set (snd (?step ?t (Inl (ExecuteTrade Buy))))"
    by (simp add: new_spot_tile_def tile_defs example_spot_def example_rate_def new_currency_pair_def js_substr_def Let_def)
  with notional_in_bounds [OF refl] show ?thesis unfolding Let_def by blast
qed

text \<open>C14: a price button shows a quote digit for digit, the big figure, the two pip digits and the fraction, in these
  cases: for a pair quoted in hundredths whose whole part does not have two digits, the big figure is the whole part; for
  a pair quoted in ten-thousandths it is the number with its two decimals, unless these are both zero or, from ten on, end
  in a zero. The other quotes lose or gain a zero; most of them are those of the next property.\<close>

theorem price_button_shows_quote:
  assumes "k \<le> 10 ^ 12" "p < r" "r \<le> 20" and "b = k div 10 ^ (r - p + 2)" and "q = k div 10 ^ (r - p) mod 100"
    and "p = 4 \<and> b mod 100 \<noteq> 0 \<and> (b < 1000 \<or> b mod 10 \<noteq> 0) \<or> p = 2 \<and> (b < 10 \<or> 100 \<le> b)"
  shows "\<exists>rate. new_rate (fl (of_nat k / 10 ^ r)) (int r) (int p) = Inr rate
    \<and> priceButton rate = \<lparr>pb_bigFigure = (if p = 4 then fixed_string b 2 else dec_digits b @ ''.''),
        pb_pips = [digit_char (q div 10), digit_char (q mod 10)],
        pb_pipFraction = [digit_char (k div 10 ^ (r - p - 1) mod 10)]\<rparr>"
proof -
  have "2 \<le> p" using assms(6) by auto
  note shown = rate_of_quote [OF assms(1) this assms(2,3), folded assms(4) assms(5)]
  obtain rate where rate: "new_rate (fl (of_nat k / 10 ^ r)) (int r) (int p) = Inr rate"
      "rt_rawRate rate = fl (of_nat k / 10 ^ r)" "rt_bigFigure rate = Num (fl (of_nat b / 10 ^ (p - 2)))"
      "rt_pips rate = Num (of_nat q)" "rt_pipFraction rate = Num (of_nat (k div 10 ^ (r - p - 1) mod 10))"
    using that [OF shown] by simp
  have "q < 100" using assms(5) by simp
  have fraction: "js_String (rt_pipFraction rate) = [digit_char (k div 10 ^ (r - p - 1) mod 10)]"
    unfolding rate(5) by (subst js_String_nat) (simp_all add: dec_digits_small(1) less_imp_le_nat)
  have "bigFigureDisplay rate = (if p = 4 then fixed_string b 2 else dec_digits b @ ''.'')"
  proof (cases "p = 4")
    case True
    have "b \<le> 10 ^ 12" using assms(4) by (simp only: le_trans [OF div_le_dividend assms(1)])
    with True show ?thesis using bigFigure_cents [of rate b] rate(3) assms(6) by simp
  next
    case False
    then have p: "p = 2" "b < 10 \<or> 100 \<le> b" using assms(6) by auto
    have "r - p + 2 = r" using p(1) assms(2) by simp
    then have b: "b = k div 10 ^ r" using assms(4) by simp
    then have le: "b \<le> 10 ^ 12" by (simp only: le_trans [OF div_le_dividend assms(1)])
    have "rt_bigFigure rate = Num (of_nat b)" using rate(3) p(1) fl_nat [OF le] by simp
    moreover have "\<lfloor>rt_rawRate rate\<rfloor> = int b" unfolding rate(2) b by (rule floor_on_grid [OF assms(1,3)])
    ultimately show ?thesis using bigFigure_whole [OF _ _ le] p by auto
  qed
  then show ?thesis
    using rate(1) paddedPips_digits [OF rate(4) \<open>q < 100\<close>] fraction by (simp add: priceButton_def del: js_String.simps)
qed

lemma price_button_shows_quote_witness:
  "\<exists>rate. new_rate (fl (110453 / 10 ^ 5)) 5 4 = Inr rate
    \<and> priceButton rate = \<lparr>pb_bigFigure = ''1.10'', pb_pips = ''45'', pb_pipFraction = ''3''\<rparr>"
proof -
  have digits: "fixed_string 110 2 = ''1.10''" "[digit_char 4, digit_char 5] = ''45''" "[digit_char 3] = ''3''" by code_simp+
  show ?thesis using price_button_shows_quote [of 110453 4 5 110 45] by (simp add: digits)
qed



text \<open>The pop-up of a trade reads \<open>REJECTED\<close> whatever became of the trade, in the colours of its real status.\<close>

lemma popup_always_rejected:
  "let pop = tradeNotificationView (new_trade_notification fmt t)
   in pop_status pop = ''REJECTED'' \<and> pop_statusClasses pop ! 1 = (''notification__status--done'', tr_status t = Done)"
proof -
  have "map to_upper ''Rejected'' = ''REJECTED''" by code_simp
  then show ?thesis
    by (cases "tr_status t") (simp_all add: tradeNotificationView_def new_trade_notification_def identical_to_object_def Let_def)
qed

text \<open>The first point typed into the notional field raises an exception, and every later one is kept out.\<close>

lemma point_key:
  "input_step nfmt maxValue (InputKeyPress ''.'' CHAR_CODE_DOT entry) =
     (if CHR ''.'' \<in> set entry then Inr [PreventKey] else Inl (TypeError ''Cannot read property 'length' of null''))"
proof (cases "filter (\<lambda>c. c = CHR ''.'') entry")
  case Nil
  then have "CHR ''.'' \<notin> set entry" by (auto simp: filter_empty_conv)
  with Nil show ?thesis by simp
next
  case (Cons c cs)
  then have "c \<in> set (filter (\<lambda>c. c = CHR ''.'') entry)" by simp
  then have "CHR ''.'' \<in> set entry" by auto
  with Cons show ?thesis by simp
qed

end
