(* ===== verification/TradeFlow.thy ===== *)
theory TradeFlow imports Execution Views begin

text \<open>
  A tile at work: the tile of \<open>SpotTile\<close> behind its notional field and the executions of \<open>executionService.js\<close> that
  \<open>_onExecuteTrade\<close> and \<open>_closePositionRequestCallback\<close> start. The executions are numbered as the tile numbers them;
  what one of them sends its subscriber goes back to the tile under its number (\<open>subscribeWithRouter\<close>), and the tile's
  serial disposable drops the one before. Limit checks, answers of the backend and timers are the environment.
\<close>

section \<open>State and steps\<close>

record trading =
  tg_tile :: spot_tile
  tg_executions :: "(execute_trade_request \<times> execution) list"

datatype trading_event =
    TileEvent "tile_event + input_event"
  | ExecutionEvent nat pair_lookup execution_event

datatype trading_call =
    TileCall tile_call
  | ExecutionCall nat execution_call

definition new_trading :: "string \<Rightarrow> currency_pair \<Rightarrow> trading" where
  "new_trading modelId pair = \<lparr>tg_tile = new_spot_tile modelId pair, tg_executions = []\<rparr>"

text \<open>What a call of the tile does to the executions: \<open>executeTrade(request)\<close> is subscribed to, or the subscription
  before is disposed of.\<close>

fun launch :: "(string \<Rightarrow> js_date) \<Rightarrow> ((execute_trade_request \<times> execution) list, tile_call, trading_call) handler" where
  "launch parse_date xs (StartExecution i request) = (xs @ [(request, new_execution)], [TileCall (StartExecution i request)])"
| "launch parse_date xs (DropExecution i) =
     (if i < length xs
      then let (request, x) = xs ! i;
               (x', calls) = execution_step request parse_date x (\<lambda>s. Inl (Error ''''), DisposeExecution)
           in (xs[i := (request, x')], TileCall (DropExecution i) # map (ExecutionCall i) calls)
      else (xs, [TileCall (DropExecution i)]))"
| "launch parse_date xs call = (xs, [TileCall call])"

text \<open>What an execution sends its subscriber, as the tile gets it.\<close>

fun to_tile :: "nat \<Rightarrow> execution_call \<Rightarrow> tile_event option" where
  "to_tile i (Respond response) = Some (ExecutionResponse i response)"
| "to_tile i (ExecutionFailed e) = Some (ExecutionError i e)"
| "to_tile i call = None"

fun from_environment :: "tile_event + input_event \<Rightarrow> bool" where
  "from_environment (Inl ev) = (\<not> is_outcome ev)"
| "from_environment (Inr ev) = True"

fun trading_step ::
    "(rat \<Rightarrow> bool \<Rightarrow> string) \<Rightarrow> formats \<Rightarrow> openfin \<Rightarrow> (string \<Rightarrow> js_date) \<Rightarrow> (trading, trading_event, trading_call) handler" where
  "trading_step nfmt fmt fin parse_date s (TileEvent ev) =
     (if from_environment ev
      then let (t, calls) = tile_with_field nfmt fmt fin (tg_tile s) ev;
               (xs, calls') = run (launch parse_date) (tg_executions s) calls
           in (\<lparr>tg_tile = t, tg_executions = xs\<rparr>, calls')
      else (s, []))"
| "trading_step nfmt fmt fin parse_date s (ExecutionEvent i lookup ev) =
     (if i < length (tg_executions s) \<and> ev \<noteq> DisposeExecution
      then let (request, x) = tg_executions s ! i;
               (x', calls) = execution_step request parse_date x (lookup, ev);
               (t, tile_calls) = run (tile_step fmt fin) (tg_tile s) (List.map_filter (to_tile i) calls)
           in (\<lparr>tg_tile = t, tg_executions = (tg_executions s)[i := (request, x')]\<rparr>,
               map (ExecutionCall i) calls @ map TileCall tile_calls)
      else (s, []))"

section \<open>Lemmas\<close>

text \<open>Only a click on a price, or the container, launches an execution.\<close>

fun is_launch :: "tile_call \<Rightarrow> bool" where
  "is_launch (StartExecution i request) = True"
| "is_launch (DropExecution i) = True"
| "is_launch call = False"

fun asks_to_close :: "tile_event + input_event \<Rightarrow> bool" where
  "asks_to_close (Inl (ClosePositionRequest msg)) = True"
| "asks_to_close ev = False"

definition tile_kept :: "spot_tile \<Rightarrow> spot_tile \<Rightarrow> bool" where
  "tile_kept t t' \<longleftrightarrow> stl_execution t' = stl_execution t \<and> stl_nextExecution t' = stl_nextExecution t
     \<and> stl_currencyPair t' = stl_currencyPair t"

lemma tile_kept_trans: "tile_kept t t' \<Longrightarrow> tile_kept t' t'' \<Longrightarrow> tile_kept t t''"
  by (simp add: tile_kept_def)

definition launches :: "spot_tile \<Rightarrow> execution_purpose \<Rightarrow> execute_trade_request \<Rightarrow> spot_tile \<times> tile_call list \<Rightarrow> bool" where
  "launches t purpose request r \<longleftrightarrow>
     snd r = StartExecution (stl_nextExecution t) request # (case stl_execution t of None \<Rightarrow> [] | Some (i, _) \<Rightarrow> [DropExecution i])
     \<and> stl_execution (fst r) = Some (stl_nextExecution t, purpose) \<and> stl_nextExecution (fst r) = Suc (stl_nextExecution t)
     \<and> stl_currencyPair (fst r) = stl_currencyPair t \<and> rq_CurrencyPair request = cp_symbol (stl_currencyPair t)"

lemma tile_step_launches:
  assumes "\<not> is_outcome ev"
  shows "(\<forall>call \<in> set (snd (tile_step fmt fin t ev)). \<not> is_launch call) \<and> tile_kept t (fst (tile_step fmt fin t ev))
      \<and> stl_isTradeExecutionInFlight (fst (tile_step fmt fin t ev)) = stl_isTradeExecutionInFlight t
    \<or> (\<exists>d request. ev = ExecuteTrade d \<and> \<not> stl_isTradeExecutionInFlight t \<and> rq_Notional request = stl_notional t
        \<and> launches t UserTrade request (tile_step fmt fin t ev))
    \<or> (\<exists>msg request. ev = ClosePositionRequest msg \<and> launches t (ClosePosition msg) request (tile_step fmt fin t ev))"
proof (cases ev)
  case (ExecuteTrade d)
  then show ?thesis
    by (cases "stl_currentSpotPrice t") (auto simp: tile_defs tile_kept_def launches_def)
next
  case (ClosePositionRequest msg)
  then show ?thesis
    by (cases "stl_currentSpotPrice t") (auto simp: tile_defs tile_kept_def launches_def)
qed (use assms in \<open>auto simp: tile_kept_def updatePricingDownStatusNotification_def Let_def\<close>)

lemma notional_run:
  "\<forall>e \<in> set evs. \<exists>n. e = NotionalChanged n \<Longrightarrow>
     (\<forall>call \<in> set (outputs (tile_step fmt fin) t evs). \<not> is_launch call)
     \<and> tile_kept t (final_state (tile_step fmt fin) t evs)
     \<and> stl_isTradeExecutionInFlight (final_state (tile_step fmt fin) t evs) = stl_isTradeExecutionInFlight t"
proof (induction evs arbitrary: t)
  case (Cons e evs)
  then obtain n where "e = NotionalChanged n" by auto
  with Cons.prems Cons.IH [of "fst (tile_step fmt fin t e)"] show ?case by (simp add: tile_kept_def)
qed (simp add: tile_kept_def)

lemma field_step_launches:
  assumes "from_environment ev"
  shows "(\<forall>call \<in> set (snd (tile_with_field nfmt fmt fin t ev)). \<not> is_launch call) \<and> tile_kept t (fst (tile_with_field nfmt fmt fin t ev))
      \<and> stl_isTradeExecutionInFlight (fst (tile_with_field nfmt fmt fin t ev)) = stl_isTradeExecutionInFlight t
    \<or> (\<exists>d request. ev = Inl (ExecuteTrade d) \<and> \<not> stl_isTradeExecutionInFlight t \<and> rq_Notional request = stl_notional t
        \<and> launches t UserTrade request (tile_with_field nfmt fmt fin t ev))
    \<or> (\<exists>msg request. ev = Inl (ClosePositionRequest msg) \<and> launches t (ClosePosition msg) request (tile_with_field nfmt fmt fin t ev))"
proof (cases ev)
  case (Inl tev)
  show ?thesis
  proof (cases "\<exists>n. tev = NotionalChanged n")
    case True
    then show ?thesis using Inl by (auto simp: tile_kept_def)
  next
    case False
    then have "tile_with_field nfmt fmt fin t ev = tile_step fmt fin t tev" unfolding Inl by (cases tev) simp_all
    moreover have "\<not> is_outcome tev" using assms Inl by simp
    ultimately show ?thesis using tile_step_launches [of tev fmt fin t] Inl by simp
  qed
next
  case (Inr iev)
  let ?evs = "notional_events (input_step nfmt (stl_maxNotional t) iev)"
  have "\<forall>e \<in> set ?evs. \<exists>n. e = NotionalChanged n"
    by (cases "input_step nfmt (stl_maxNotional t) iev")
      (auto simp: notional_events_def map_filter_def split: input_call.splits)
  from notional_run [OF this] show ?thesis by (simp add: Inr)
qed

lemma launch_none: "\<forall>call \<in> set calls. \<not> is_launch call \<Longrightarrow> run (launch parse_date) xs calls = (xs, map TileCall calls)"
proof (induction calls arbitrary: xs)
  case (Cons call calls)
  then have "launch parse_date xs call = (xs, [TileCall call])" by (cases call) simp_all
  with Cons show ?case by (simp add: run.simps(2))
qed simp

lemma launch_run:
  assumes "launches t purpose request (t', calls)" "length xs = stl_nextExecution t"
    and "\<forall>j p. stl_execution t = Some (j, p) \<longrightarrow> j < length xs"
  obtains ys calls' where "run (launch parse_date) xs calls = (ys @ [(request, new_execution)], TileCall (StartExecution (length xs) request) # calls')"
    "map fst ys = map fst xs" "\<forall>j < length xs. ex_checked (snd (ys ! j)) = ex_checked (snd (xs ! j))"
    "\<forall>i r. ExecutionCall i (StartRequest r) \<notin> set calls'"
proof (cases "stl_execution t")
  case None
  with assms that [of xs "[]"] show ?thesis by (simp add: launches_def run.simps(2))
next
  case (Some e)
  obtain j p where e: "e = (j, p)" by (cases e)
  with Some assms(3) have j: "j < length xs" by blast
  obtain r x where x: "xs ! j = (r, x)" by (cases "xs ! j")
  let ?step = "execution_step r parse_date x (\<lambda>s. Inl (Error ''''), DisposeExecution)"
  have same: "ex_checked (fst ?step) = ex_checked x" "StartRequest q \<notin> set (snd ?step)" for q
    by (simp_all add: execution_end_def)
  have "run (launch parse_date) xs calls = (xs[j := (r, fst ?step)] @ [(request, new_execution)],
      TileCall (StartExecution (length xs) request) # TileCall (DropExecution j) # map (ExecutionCall j) (snd ?step))"
    using assms(1,2) Some e j x
    by (simp add: launches_def run.simps(2) nth_append list_update_append split_beta Let_def del: execution_step.simps)
  then show ?thesis
    by (rule that) (use j x same in \<open>auto simp: map_update nth_list_update list_update_same_conv simp del: execution_step.simps\<close>)
qed

text \<open>What executions send the tile.\<close>

definition outcome_of :: "nat \<Rightarrow> tile_event \<Rightarrow> bool" where
  "outcome_of i ev \<longleftrightarrow> (\<exists>r. ev = ExecutionResponse i r) \<or> (\<exists>e. ev = ExecutionError i e)"

lemma to_tile_outcome: "\<forall>ev \<in> set (List.map_filter (to_tile i) calls). outcome_of i ev"
proof (induction calls)
  case (Cons call calls)
  then show ?case by (cases call) (auto simp: map_filter_simps outcome_of_def)
qed (simp add: map_filter_simps)

lemma outcome_step:
  assumes "outcome_of i ev"
  shows "tile_kept t (fst (tile_step fmt fin t ev))" "notional_ok (fst (tile_step fmt fin t ev)) = notional_ok t"
    "stl_isTradeExecutionInFlight (fst (tile_step fmt fin t ev)) =
       (stl_isTradeExecutionInFlight t \<and> stl_execution t \<noteq> Some (i, UserTrade))"
  using assms
  by (cases "stl_execution t"; auto simp: outcome_of_def tile_kept_def notional_ok_def trade_response_def Let_def
      split: option.splits execution_purpose.splits if_splits)+

lemma outcome_run:
  assumes "\<forall>ev \<in> set evs. outcome_of i ev"
  shows "tile_kept t (final_state (tile_step fmt fin) t evs) \<and> notional_ok (final_state (tile_step fmt fin) t evs) = notional_ok t
    \<and> stl_isTradeExecutionInFlight (final_state (tile_step fmt fin) t evs) =
       (stl_isTradeExecutionInFlight t \<and> (evs = [] \<or> stl_execution t \<noteq> Some (i, UserTrade)))"
  using assms
proof (induction evs arbitrary: t)
  case (Cons ev evs)
  then have ev: "outcome_of i ev" by simp
  from Cons.prems Cons.IH [of "fst (tile_step fmt fin t ev)"] outcome_step [OF ev, where t = t and fmt = fmt and fin = fin] show ?case
    by (auto simp: tile_kept_def simp del: tile_step.simps)
qed (simp add: tile_kept_def)

text \<open>An execution that still owes the tile an answer: its limit check is out, or the timer that speaks up after two
  seconds is running.\<close>

definition awaiting :: "execution \<Rightarrow> bool" where
  "awaiting x \<longleftrightarrow> \<not> ex_stopped x \<and>
     (if ex_checked x then ex_clientTimer x \<and> (ex_request x \<or> \<not> ex_operation x)
      else \<not> ex_operation x \<and> \<not> ex_request x \<and> \<not> ex_clientTimer x)"

lemma awaiting_new: "awaiting new_execution"
  by (simp add: awaiting_def)

lemma awaiting_step:
  assumes "awaiting x" "ev \<noteq> DisposeExecution"
  shows "awaiting (fst (execution_step request parse_date x (lookup, ev)))
    \<or> List.map_filter (to_tile i) (snd (execution_step request parse_date x (lookup, ev))) \<noteq> []"
proof (cases ev)
  case (Answered dto)
  with assms show ?thesis
    by (cases "mapFromTradeDto lookup parse_date dto") (auto simp: awaiting_def execution_defs map_filter_simps split: if_splits)
qed (use assms in \<open>auto simp: awaiting_def execution_defs map_filter_simps split: if_splits\<close>)

lemma client_timer_answers:
  assumes "awaiting x" "ex_checked x"
  shows "List.map_filter (to_tile i) (snd (execution_step request parse_date x (lookup, ClientTimer))) \<noteq> []"
  using assms by (auto simp: awaiting_def execution_defs map_filter_simps)

definition flight_kept :: "trading \<Rightarrow> bool" where
  "flight_kept s \<longleftrightarrow> length (tg_executions s) = stl_nextExecution (tg_tile s)
     \<and> (\<forall>j p. stl_execution (tg_tile s) = Some (j, p) \<longrightarrow> j < length (tg_executions s))
     \<and> (stl_isTradeExecutionInFlight (tg_tile s) \<longrightarrow>
         (\<exists>j. stl_execution (tg_tile s) = Some (j, UserTrade) \<and> awaiting (snd (tg_executions s ! j))))"

fun closes_position :: "trading_event \<Rightarrow> bool" where
  "closes_position (TileEvent ev) = asks_to_close ev"
| "closes_position (ExecutionEvent i lookup ev) = False"

lemma flight_kept_step:
  assumes "flight_kept s" "\<not> closes_position ev"
  shows "flight_kept (fst (trading_step nfmt fmt fin parse_date s ev))"
proof (cases ev)
  case (TileEvent tev)
  show ?thesis
  proof (cases "from_environment tev")
    case False
    then show ?thesis using TileEvent assms(1) by simp
  next
    case True
    obtain t calls where r: "tile_with_field nfmt fmt fin (tg_tile s) tev = (t, calls)" by fastforce
    from field_step_launches [OF True, of nfmt fmt fin "tg_tile s"] assms(2) TileEvent r
    consider "\<forall>call \<in> set calls. \<not> is_launch call" "tile_kept (tg_tile s) t"
        "stl_isTradeExecutionInFlight t = stl_isTradeExecutionInFlight (tg_tile s)"
      | request where "launches (tg_tile s) UserTrade request (t, calls)" by fastforce
    then show ?thesis
    proof cases
      case 1
      then show ?thesis using assms(1) TileEvent True r by (auto simp: launch_none flight_kept_def tile_kept_def)
    next
      case 2
      obtain ys calls' where "run (launch parse_date) (tg_executions s) calls =
          (ys @ [(request, new_execution)], TileCall (StartExecution (length (tg_executions s)) request) # calls')"
        "map fst ys = map fst (tg_executions s)"
        using launch_run [OF 2] assms(1) unfolding flight_kept_def by metis
      moreover from this(2) have "length ys = length (tg_executions s)" by (metis length_map)
      ultimately show ?thesis
        using assms(1) TileEvent True r 2 by (simp add: flight_kept_def launches_def awaiting_new nth_append)
    qed
  qed
next
  case (ExecutionEvent i lookup e)
  show ?thesis
  proof (cases "i < length (tg_executions s) \<and> e \<noteq> DisposeExecution")
    case False
    then show ?thesis using ExecutionEvent assms(1) by (auto simp del: execution_step.simps)
  next
    case True
    obtain request x where x: "tg_executions s ! i = (request, x)" by (cases "tg_executions s ! i")
    define r where "r = execution_step request parse_date x (lookup, e)"
    define evs where "evs = List.map_filter (to_tile i) (snd r)"
    have step: "tg_tile (fst (trading_step nfmt fmt fin parse_date s ev)) = final_state (tile_step fmt fin) (tg_tile s) evs"
      "tg_executions (fst (trading_step nfmt fmt fin parse_date s ev)) = (tg_executions s)[i := (request, fst r)]"
      using True x by (simp_all add: ExecutionEvent r_def evs_def split_beta Let_def del: execution_step.simps)
    have run: "tile_kept (tg_tile s) (final_state (tile_step fmt fin) (tg_tile s) evs)"
      "stl_isTradeExecutionInFlight (final_state (tile_step fmt fin) (tg_tile s) evs) =
       (stl_isTradeExecutionInFlight (tg_tile s) \<and> (evs = [] \<or> stl_execution (tg_tile s) \<noteq> Some (i, UserTrade)))"
      using outcome_run [of evs i "tg_tile s" fmt fin] to_tile_outcome by (simp_all add: evs_def)
    have "awaiting x \<Longrightarrow> awaiting (fst r) \<or> evs \<noteq> []"
      using awaiting_step True unfolding r_def evs_def by blast
    with run True x assms(1) show ?thesis
      unfolding flight_kept_def step by (auto simp: tile_kept_def nth_list_update)
  qed
qed

section \<open>Properties\<close>

text \<open>C17: as long as the container does not ask to close a position, a tile whose trade is in flight has a running
  execution of the user's trade that owes it an answer: its limit check is out, or its timer of two seconds is
  running, and when that goes off the tile is no longer in flight. So no sequence of clicks, prices, disconnections,
  answers, failures and timers leaves a tile frozen for longer than its limit check and two seconds.\<close>

theorem trade_in_flight_is_answered:
  assumes "\<forall>ev \<in> set evs. \<not> closes_position ev"
    and "s = final_state (trading_step nfmt fmt fin parse_date) (new_trading modelId pair) evs"
    and "stl_isTradeExecutionInFlight (tg_tile s)"
  shows "\<exists>j x. stl_execution (tg_tile s) = Some (j, UserTrade) \<and> j < length (tg_executions s) \<and> x = snd (tg_executions s ! j)
    \<and> \<not> ex_stopped x \<and> (ex_checked x \<longrightarrow> ex_clientTimer x \<and>
        \<not> stl_isTradeExecutionInFlight (tg_tile (fst (trading_step nfmt fmt fin parse_date s (ExecutionEvent j lookup ClientTimer)))))"
proof -
  have run: "flight_kept (final_state (trading_step nfmt fmt fin parse_date) s0 evs)"
    if "flight_kept s0" "\<forall>ev \<in> set evs. \<not> closes_position ev" for s0
    using that by (induction evs arbitrary: s0) (simp_all add: flight_kept_step del: trading_step.simps)
  have "flight_kept (new_trading modelId pair)" by (simp add: flight_kept_def new_trading_def new_spot_tile_def)
  then have ok: "flight_kept s" using run assms(1,2) by simp
  with assms(3) obtain j where j: "stl_execution (tg_tile s) = Some (j, UserTrade)" "awaiting (snd (tg_executions s ! j))"
    "j < length (tg_executions s)" by (auto simp: flight_kept_def)
  obtain request x where x: "tg_executions s ! j = (request, x)" by (cases "tg_executions s ! j")
  define evs' where "evs' = List.map_filter (to_tile j) (snd (execution_step request parse_date x (lookup, ClientTimer)))"
  have "tg_tile (fst (trading_step nfmt fmt fin parse_date s (ExecutionEvent j lookup ClientTimer))) =
      final_state (tile_step fmt fin) (tg_tile s) evs'"
    using j(3) x by (simp add: evs'_def split_beta Let_def del: execution_step.simps)
  moreover have "ex_checked x \<Longrightarrow> evs' \<noteq> []" using j(2) x client_timer_answers unfolding evs'_def by simp
  ultimately show ?thesis
    using j x outcome_run [of evs' j "tg_tile s" fmt fin] to_tile_outcome [of j]
    by (auto simp: evs'_def awaiting_def simp del: trading_step.simps execution_step.simps)
qed

lemma trade_in_flight_is_answered_witness:
  "\<exists>(s :: trading) x. stl_isTradeExecutionInFlight (tg_tile s) \<and> x = snd (tg_executions s ! 0) \<and> ex_checked x \<and> ex_clientTimer x"
proof -
  let ?step = "trading_step (\<lambda>n d. []) example_formats (new_openfin False) (\<lambda>d. None)"
  let ?evs = "[TileEvent (Inl (ServicesConnected True True)), TileEvent (Inl (Price example_spot)),
      TileEvent (Inl (ExecuteTrade Buy)), ExecutionEvent 0 any_pair (LimitChecked True)]"
  define s where "s = final_state ?step (new_trading ''spotTile-EURUSD'' (new_currency_pair ''EURUSD'' 5 4)) ?evs"
  have flight: "stl_isTradeExecutionInFlight (tg_tile s)" "ex_checked (snd (tg_executions s ! 0))" "stl_execution (tg_tile s) = Some (0, UserTrade)"
    by (simp_all add: s_def new_trading_def new_spot_tile_def new_currency_pair_def tile_defs example_spot_def
        publishPrice_def new_openfin_def run.simps(2) split_beta Let_def map_filter_simps)
  have "\<exists>j x. stl_execution (tg_tile s) = Some (j, UserTrade) \<and> x = snd (tg_executions s ! j) \<and> (ex_checked x \<longrightarrow> ex_clientTimer x)"
    using trade_in_flight_is_answered [OF _ s_def flight(1), of any_pair] by auto
  with flight have "ex_clientTimer (snd (tg_executions s ! 0))" by auto
  with flight show ?thesis by (intro exI [of _ s] exI [of _ "snd (tg_executions s ! 0)"]) simp
qed

text \<open>What a tile shows of a trade, and where it comes from.\<close>

definition shown_trade :: "spot_tile \<Rightarrow> trade_fields option" where
  "shown_trade t = (case stl_notification t of Some (TradeExecutionNotification tf e) \<Rightarrow> tf | _ \<Rightarrow> None)"

lemma shown_update [simp]: "shown_trade (updatePricingDownStatusNotification t) = shown_trade t"
  by (auto simp: shown_trade_def updatePricingDownStatusNotification_def split: option.split notification.split)

lemma shown_fields [simp]:
  "shown_trade (t\<lparr>stl_tileName := n\<rparr>) = shown_trade t" "shown_trade (t\<lparr>stl_currencyChartIsOpening := c\<rparr>) = shown_trade t"
  "shown_trade (t\<lparr>stl_notional := q\<rparr>) = shown_trade t" "shown_trade (t\<lparr>stl_currentSpotPrice := p\<rparr>) = shown_trade t"
  "shown_trade (t\<lparr>stl_isTradeExecutionInFlight := f\<rparr>) = shown_trade t" "shown_trade (t\<lparr>stl_priceStale := b\<rparr>) = shown_trade t"
  "shown_trade (t\<lparr>stl_pricingConnected := b, stl_executionConnected := b'\<rparr>) = shown_trade t"
  "shown_trade (t\<lparr>stl_execution := x, stl_nextExecution := k\<rparr>) = shown_trade t"
  "shown_trade (t\<lparr>stl_notification := None\<rparr>) = None"
  "shown_trade (t\<lparr>stl_notification := Some (TradeExecutionNotification tf e)\<rparr>) = tf"
  by (simp_all add: shown_trade_def)

lemma shown_step:
  assumes "\<not> is_outcome ev"
  shows "shown_trade (fst (tile_step fmt fin t ev)) \<in> {None, shown_trade t}"
proof (cases ev)
  case (ExecuteTrade d)
  then show ?thesis by (simp add: tile_executeTrade_def start_execution_def split: sum.split)
next
  case (ClosePositionRequest msg)
  then show ?thesis by (simp add: closePositionRequestCallback_def start_execution_def split: sum.split)
qed (use assms in \<open>simp_all add: Let_def\<close>)

lemma shown_outcome:
  assumes "outcome_of i ev" "shown_trade (fst (tile_step fmt fin t ev)) = Some tf"
  shows "shown_trade t = Some tf
    \<or> (\<exists>response trade. ev = ExecutionResponse i response \<and> \<not> rs_hasError response \<and> rs_trade response = Some trade
        \<and> tf = new_trade_fields fmt trade \<and> stl_execution t = Some (i, UserTrade))"
proof (cases "\<exists>r trade. ev = ExecutionResponse i r \<and> \<not> rs_hasError r \<and> rs_trade r = Some trade \<and> stl_execution t = Some (i, UserTrade)")
  case True
  with assms(2) show ?thesis
    by (auto simp: trade_response_def notification_createForSuccess_def Let_def)
next
  case False
  with assms have "shown_trade (fst (tile_step fmt fin t ev)) \<in> {None, shown_trade t}"
    by (cases "stl_execution t"; cases "snd (the (stl_execution t))"; cases "i = fst (the (stl_execution t))")
      (auto simp: outcome_of_def trade_response_def notification_createForError_def Let_def
        split: option.split_asm if_splits)
  with assms(2) show ?thesis by simp
qed

lemma shown_field:
  assumes "from_environment ev"
  shows "shown_trade (fst (tile_with_field nfmt fmt fin t ev)) \<in> {None, shown_trade t}"
proof (cases ev)
  case (Inl tev)
  then show ?thesis using assms shown_step [of tev fmt fin t] by (cases tev) (simp_all del: tile_step.simps)
next
  case (Inr iev)
  have "shown_trade (final_state (tile_step fmt fin) t evs) = shown_trade t" if "\<forall>e \<in> set evs. \<exists>n. e = NotionalChanged n" for evs
    using that by (induction evs arbitrary: t) auto
  moreover have "\<forall>e \<in> set (notional_events (input_step nfmt (stl_maxNotional t) iev)). \<exists>n. e = NotionalChanged n"
    by (cases "input_step nfmt (stl_maxNotional t) iev")
      (auto simp: notional_events_def map_filter_def split: input_call.splits)
  ultimately show ?thesis by (simp add: Inr)
qed

lemma outcome_shown_run:
  assumes "\<forall>ev \<in> set evs. outcome_of i ev" "shown_trade (final_state (tile_step fmt fin) t evs) = Some tf"
  shows "shown_trade t = Some tf
    \<or> (\<exists>response trade. ExecutionResponse i response \<in> set evs \<and> \<not> rs_hasError response \<and> rs_trade response = Some trade
        \<and> tf = new_trade_fields fmt trade \<and> stl_execution t = Some (i, UserTrade))"
  using assms
proof (induction evs arbitrary: t)
  case (Cons ev evs)
  then have ev: "outcome_of i ev" by simp
  have "stl_execution (fst (tile_step fmt fin t ev)) = stl_execution t"
    using outcome_step(1) [OF ev, of t fmt fin] by (simp add: tile_kept_def)
  with Cons.IH [of "fst (tile_step fmt fin t ev)"] Cons.prems shown_outcome [OF ev, of fmt fin t tf] show ?case
    by (auto simp del: tile_step.simps)
qed simp

text \<open>A response with a trade is the mapped answer of the backend.\<close>

lemma response_with_trade:
  assumes "Respond response \<in> set (snd (execution_step request parse_date x (lookup, ev)))" "\<not> rs_hasError response"
  shows "\<exists>dto trade. ev = Answered dto \<and> mapFromTradeDto lookup parse_date dto = Inr trade \<and> response = response_create trade"
proof (cases ev)
  case (Answered dto)
  with assms show ?thesis
    by (auto simp: execution_defs response_createForError_def timeout_response_def Let_def split: if_splits sum.splits)
qed (use assms in \<open>auto simp: execution_defs response_createForError_def timeout_response_def Let_def split: if_splits\<close>)

lemma to_tile_response:
  "ExecutionResponse i response \<in> set (List.map_filter (to_tile j) calls) \<Longrightarrow> i = j \<and> Respond response \<in> set calls"
proof (induction calls)
  case (Cons call calls)
  then show ?case by (cases call) (auto simp: map_filter_simps)
qed (simp add: map_filter_simps)

lemma shown_trading_step:
  assumes "shown_trade (tg_tile (fst (trading_step nfmt fmt fin parse_date s ev))) = Some tf"
  shows "shown_trade (tg_tile s) = Some tf \<or> (\<exists>i lookup dto trade. ev = ExecutionEvent i lookup (Answered dto)
    \<and> mapFromTradeDto lookup parse_date dto = Inr trade \<and> tf = new_trade_fields fmt trade
    \<and> stl_execution (tg_tile s) = Some (i, UserTrade))"
proof (cases ev)
  case (TileEvent tev)
  then show ?thesis using assms shown_field [of tev nfmt fmt fin "tg_tile s"]
    by (auto simp: split_beta Let_def split: if_splits)
next
  case (ExecutionEvent i lookup e)
  show ?thesis
  proof (cases "i < length (tg_executions s) \<and> e \<noteq> DisposeExecution")
    case False
    then show ?thesis using ExecutionEvent assms by (auto simp del: execution_step.simps split: if_splits)
  next
    case True
    obtain request x where x: "tg_executions s ! i = (request, x)" by (cases "tg_executions s ! i")
    let ?calls = "snd (execution_step request parse_date x (lookup, e))"
    have "shown_trade (final_state (tile_step fmt fin) (tg_tile s) (List.map_filter (to_tile i) ?calls)) = Some tf"
      using assms True x by (simp add: ExecutionEvent split_beta Let_def del: execution_step.simps)
    from outcome_shown_run [OF to_tile_outcome this] consider "shown_trade (tg_tile s) = Some tf"
      | response trade where "ExecutionResponse i response \<in> set (List.map_filter (to_tile i) ?calls)" "\<not> rs_hasError response"
        "rs_trade response = Some trade" "tf = new_trade_fields fmt trade" "stl_execution (tg_tile s) = Some (i, UserTrade)" by blast
    then show ?thesis
    proof cases
      case 2
      from response_with_trade [OF to_tile_response [OF 2(1), THEN conjunct2] 2(2)] obtain dto trade' where
        "e = Answered dto" "mapFromTradeDto lookup parse_date dto = Inr trade'" "response = response_create trade'" by blast
      with 2 show ?thesis by (auto simp: ExecutionEvent response_create_def)
    qed blast
  qed
qed

text \<open>C4: the trade a tile shows as executed is always an answer of the backend to an execution of the user's own trade:
  not of a request to close a position, not of an earlier trade the tile has given up, and not a warning or an error
  that came in between.\<close>

theorem shown_trade_is_the_answer:
  assumes "shown_trade (tg_tile (final_state (trading_step nfmt fmt fin parse_date) (new_trading modelId pair) evs)) = Some tf"
  shows "\<exists>before i lookup dto after trade. evs = before @ ExecutionEvent i lookup (Answered dto) # after
    \<and> mapFromTradeDto lookup parse_date dto = Inr trade \<and> tf = new_trade_fields fmt trade
    \<and> stl_execution (tg_tile (final_state (trading_step nfmt fmt fin parse_date) (new_trading modelId pair) before)) = Some (i, UserTrade)"
  using assms
proof (induction evs rule: rev_induct)
  case Nil
  then show ?case by (simp add: new_trading_def new_spot_tile_def shown_trade_def)
next
  case (snoc ev evs)
  let ?s = "final_state (trading_step nfmt fmt fin parse_date) (new_trading modelId pair) evs"
  from snoc.prems have "shown_trade (tg_tile (fst (trading_step nfmt fmt fin parse_date ?s ev))) = Some tf"
    by (simp add: run_append del: trading_step.simps)
  from shown_trading_step [OF this] show ?case
  proof
    assume "shown_trade (tg_tile ?s) = Some tf"
    from snoc.IH [OF this] obtain before i lookup dto after trade where "evs = before @ ExecutionEvent i lookup (Answered dto) # after"
      "mapFromTradeDto lookup parse_date dto = Inr trade" "tf = new_trade_fields fmt trade"
      "stl_execution (tg_tile (final_state (trading_step nfmt fmt fin parse_date) (new_trading modelId pair) before)) = Some (i, UserTrade)"
      by blast
    then show ?thesis by (intro exI [of _ before] exI [of _ i] exI [of _ lookup] exI [of _ dto] exI [of _ "after @ [ev]"] exI [of _ trade]) simp
  qed blast
qed

lemma shown_trade_is_the_answer_witness:
  "\<exists>(lookup :: pair_lookup) dto trade (s :: trading). mapFromTradeDto lookup (\<lambda>d. None) dto = Inr trade
     \<and> shown_trade (tg_tile s) = Some (new_trade_fields example_formats trade)"
proof -
  let ?step = "trading_step (\<lambda>n d. []) example_formats (new_openfin False) (\<lambda>d. None)"
  let ?evs = "[TileEvent (Inl (ServicesConnected True True)), TileEvent (Inl (Price example_spot)),
      TileEvent (Inl (ExecuteTrade Buy)), ExecutionEvent 0 any_pair (LimitChecked True), ExecutionEvent 0 any_pair (Answered example_trade_dto)]"
  define s where "s = final_state ?step (new_trading ''spotTile-EURUSD'' (new_currency_pair ''EURUSD'' 5 4)) ?evs"
  obtain trade where answer: "mapFromTradeDto any_pair (\<lambda>d. None) example_trade_dto = Inr trade"
    by (simp add: mapFromTradeDto_def mapDirectionFromDto_def mapTradeStatusFromDto_def example_trade_dto_def any_pair_def)
  have "shown_trade (tg_tile s) = Some (new_trade_fields example_formats trade)"
    by (simp add: s_def answer shown_trade_def trade_response_def response_create_def notification_createForSuccess_def new_trading_def new_spot_tile_def new_currency_pair_def tile_defs example_spot_def execution_defs
        publishPrice_def new_openfin_def run.simps(2) split_beta Let_def map_filter_simps)
  note shown = this
  from shown_trade_is_the_answer [OF shown [unfolded s_def]] shown show ?thesis by metis
qed

text \<open>What goes to the backend.\<close>

definition sent :: "trading_call list \<Rightarrow> (nat \<times> execute_trade_request) list" where
  "sent calls = List.map_filter (\<lambda>c. case c of ExecutionCall i (StartRequest r) \<Rightarrow> Some (i, r) | _ \<Rightarrow> None) calls"

lemma sent_simps [simp]:
  "sent [] = []" "sent (xs @ ys) = sent xs @ sent ys" "sent (map TileCall cs) = []" "sent (TileCall c # calls) = sent calls"
  by (simp_all add: sent_def map_filter_def comp_def)

lemma in_sent: "(i, r) \<in> set (sent calls) \<longleftrightarrow> ExecutionCall i (StartRequest r) \<in> set calls"
  by (force simp: sent_def map_filter_def split: trading_call.splits execution_call.splits)

lemma sent_by_execution:
  "sent (map (ExecutionCall i) (snd (execution_step request parse_date x (lookup, ev)))) =
     (if ev = LimitChecked True \<and> \<not> ex_checked x \<and> \<not> ex_stopped x then [(i, request)] else [])
   \<and> (ex_checked x \<or> ev = LimitChecked True \<and> \<not> ex_stopped x \<longrightarrow> ex_checked (fst (execution_step request parse_date x (lookup, ev))))"
proof (cases ev)
  case (Answered dto)
  then show ?thesis
    by (cases "mapFromTradeDto lookup parse_date dto") (simp_all add: execution_defs sent_def map_filter_simps)
qed (simp_all add: execution_defs sent_def map_filter_simps Let_def)

text \<open>What the executions of a tile and its calls have to do with each other after a run.\<close>

definition requests_ok :: "string \<Rightarrow> trading_event list \<Rightarrow> trading \<Rightarrow> trading_call list \<Rightarrow> bool" where
  "requests_ok symbol evs s calls \<longleftrightarrow> (\<forall>j < length (tg_executions s).
     rq_CurrencyPair (fst (tg_executions s ! j)) = symbol \<and> TileCall (StartExecution j (fst (tg_executions s ! j))) \<in> set calls
     \<and> ((\<forall>ev \<in> set evs. \<not> closes_position ev) \<longrightarrow>
         0 \<le> rq_Notional (fst (tg_executions s ! j)) \<and> rq_Notional (fst (tg_executions s ! j)) < MAX_NOTIONAL_VALUE))"

definition sends_ok :: "trading_event list \<Rightarrow> trading \<Rightarrow> trading_call list \<Rightarrow> bool" where
  "sends_ok evs s calls \<longleftrightarrow> distinct (map fst (sent calls))
     \<and> (\<forall>(i, r) \<in> set (sent calls). i < length (tg_executions s) \<and> r = fst (tg_executions s ! i) \<and> ex_checked (snd (tg_executions s ! i))
         \<and> (\<exists>lookup. ExecutionEvent i lookup (LimitChecked True) \<in> set evs))"

definition tile_numbers_ok :: "string \<Rightarrow> trading \<Rightarrow> bool" where
  "tile_numbers_ok symbol s \<longleftrightarrow> length (tg_executions s) = stl_nextExecution (tg_tile s)
     \<and> (\<forall>j p. stl_execution (tg_tile s) = Some (j, p) \<longrightarrow> j < length (tg_executions s))
     \<and> cp_symbol (stl_currencyPair (tg_tile s)) = symbol \<and> notional_ok (tg_tile s)"

definition sent_ok :: "string \<Rightarrow> trading_event list \<Rightarrow> trading \<Rightarrow> trading_call list \<Rightarrow> bool" where
  "sent_ok symbol evs s calls \<longleftrightarrow> tile_numbers_ok symbol s \<and> requests_ok symbol evs s calls \<and> sends_ok evs s calls"

text \<open>The executions keep their requests and whether they are checked; the list may grow.\<close>

definition executions_grow :: "trading \<Rightarrow> trading \<Rightarrow> bool" where
  "executions_grow s s' \<longleftrightarrow> (\<forall>j < length (tg_executions s). j < length (tg_executions s')
     \<and> fst (tg_executions s' ! j) = fst (tg_executions s ! j)
     \<and> (ex_checked (snd (tg_executions s ! j)) \<longrightarrow> ex_checked (snd (tg_executions s' ! j))))"

lemma sends_ok_grow:
  assumes "sends_ok evs s calls" "executions_grow s s'" "sent cs = []"
  shows "sends_ok (evs @ [ev]) s' (calls @ cs)"
  using assms by (fastforce simp: sends_ok_def executions_grow_def)

lemma requests_ok_grow:
  assumes "requests_ok symbol evs s calls" "executions_grow s s'" "j < length (tg_executions s)"
  shows "rq_CurrencyPair (fst (tg_executions s' ! j)) = symbol \<and> TileCall (StartExecution j (fst (tg_executions s' ! j))) \<in> set (calls @ cs)
     \<and> ((\<forall>ev \<in> set (evs @ [ev]). \<not> closes_position ev) \<longrightarrow>
         0 \<le> rq_Notional (fst (tg_executions s' ! j)) \<and> rq_Notional (fst (tg_executions s' ! j)) < MAX_NOTIONAL_VALUE)"
  using assms by (simp add: requests_ok_def executions_grow_def)

lemma requests_ok_same:
  assumes "requests_ok symbol evs s calls" "executions_grow s s'" "length (tg_executions s') = length (tg_executions s)"
  shows "requests_ok symbol (evs @ [ev]) s' (calls @ cs)"
  unfolding requests_ok_def assms(3) by (intro allI impI requests_ok_grow [OF assms(1,2)])

lemma sent_ok_tile:
  assumes "sent_ok symbol evs s calls" "ev = TileEvent tev" "from_environment tev"
  shows "sent_ok symbol (evs @ [ev]) (fst (trading_step nfmt fmt fin parse_date s ev))
    (calls @ snd (trading_step nfmt fmt fin parse_date s ev))"
proof -
  obtain t cs where r: "tile_with_field nfmt fmt fin (tg_tile s) tev = (t, cs)" by fastforce
  have ok: "tile_numbers_ok symbol s" "requests_ok symbol evs s calls" "sends_ok evs s calls"
    using assms(1) by (simp_all add: sent_ok_def)
  have notional: "notional_ok t"
    using tile_with_field_ok [of "tg_tile s" nfmt fmt fin tev] ok(1) r by (simp add: tile_numbers_ok_def)
  from field_step_launches [OF assms(3), of nfmt fmt fin "tg_tile s"] r
  consider "\<forall>call \<in> set cs. \<not> is_launch call" "tile_kept (tg_tile s) t"
    | purpose request where "launches (tg_tile s) purpose request (t, cs)"
        "asks_to_close tev \<or> rq_Notional request = stl_notional (tg_tile s)" by fastforce
  then show ?thesis
  proof cases
    case 1
    let ?s = "\<lparr>tg_tile = t, tg_executions = tg_executions s\<rparr>"
    have step: "trading_step nfmt fmt fin parse_date s ev = (?s, map TileCall cs)"
      using assms(2,3) r 1(1) by (simp add: launch_none)
    have "tile_numbers_ok symbol ?s" using ok(1) notional 1(2) by (auto simp: tile_numbers_ok_def tile_kept_def)
    then show ?thesis unfolding step sent_ok_def
      using requests_ok_same [OF ok(2), of ?s] sends_ok_grow [OF ok(3), of ?s] by (simp add: executions_grow_def)
  next
    case 2
    let ?n = "length (tg_executions s)"
    obtain ys cs' where l: "run (launch parse_date) (tg_executions s) cs =
        (ys @ [(request, new_execution)], TileCall (StartExecution ?n request) # cs')"
      "map fst ys = map fst (tg_executions s)" "\<forall>j < ?n. ex_checked (snd (ys ! j)) = ex_checked (snd (tg_executions s ! j))"
      "\<forall>i r. ExecutionCall i (StartRequest r) \<notin> set cs'"
      using launch_run [OF 2(1), of "tg_executions s" parse_date] ok(1) unfolding tile_numbers_ok_def by metis
    let ?s = "\<lparr>tg_tile = t, tg_executions = ys @ [(request, new_execution)]\<rparr>"
    have ys: "length ys = ?n" "j < ?n \<Longrightarrow> fst (ys ! j) = fst (tg_executions s ! j)" for j
      using l(2) by (metis length_map, metis length_map nth_map)
    have grow: "executions_grow s ?s" using ys l(3) by (simp add: executions_grow_def nth_append)
    have none: "sent cs' = []" using l(4) in_sent [of _ _ cs'] by (metis list.set_intros(1) neq_Nil_conv surj_pair)
    have step: "trading_step nfmt fmt fin parse_date s ev = (?s, TileCall (StartExecution ?n request) # cs')"
      using assms(2,3) r l(1) by simp
    have "tile_numbers_ok symbol ?s" using ok(1) notional 2(1) ys(1) by (auto simp: tile_numbers_ok_def launches_def)
    moreover have "requests_ok symbol (evs @ [ev]) ?s (calls @ TileCall (StartExecution ?n request) # cs')"
      unfolding requests_ok_def
    proof (intro allI impI)
      fix j
      assume "j < length (tg_executions ?s)"
      then consider "j < ?n" | "j = ?n" using ys(1) by fastforce
      then show "rq_CurrencyPair (fst (tg_executions ?s ! j)) = symbol
          \<and> TileCall (StartExecution j (fst (tg_executions ?s ! j))) \<in> set (calls @ TileCall (StartExecution ?n request) # cs')
          \<and> ((\<forall>ev \<in> set (evs @ [ev]). \<not> closes_position ev) \<longrightarrow>
             0 \<le> rq_Notional (fst (tg_executions ?s ! j)) \<and> rq_Notional (fst (tg_executions ?s ! j)) < MAX_NOTIONAL_VALUE)"
      proof cases
        case 1
        then show ?thesis by (rule requests_ok_grow [OF ok(2) grow])
      next
        case at: 2
        have "rq_CurrencyPair request = symbol" using ok(1) 2(1) by (simp add: launches_def tile_numbers_ok_def)
        moreover have "tg_executions ?s ! j = (request, new_execution)" using at ys(1) by (metis nth_append_length trading.select_convs(2))
        ultimately show ?thesis using at 2(2) ok(1) assms(2) by (auto simp: tile_numbers_ok_def notional_ok_def)
      qed
    qed
    moreover have "sends_ok (evs @ [ev]) ?s (calls @ TileCall (StartExecution ?n request) # cs')"
      using sends_ok_grow [OF ok(3) grow] none by simp
    ultimately show ?thesis unfolding step sent_ok_def by simp
  qed
qed

lemma sent_ok_execution:
  assumes "sent_ok symbol evs s calls" "ev = ExecutionEvent i lookup e" "i < length (tg_executions s)" "e \<noteq> DisposeExecution"
  shows "sent_ok symbol (evs @ [ev]) (fst (trading_step nfmt fmt fin parse_date s ev))
    (calls @ snd (trading_step nfmt fmt fin parse_date s ev))"
proof -
  obtain request x where x: "tg_executions s ! i = (request, x)" by (cases "tg_executions s ! i")
  have ok: "tile_numbers_ok symbol s" "requests_ok symbol evs s calls" "sends_ok evs s calls"
    using assms(1) by (simp_all add: sent_ok_def)
  define r where "r = execution_step request parse_date x (lookup, e)"
  define tevs where "tevs = List.map_filter (to_tile i) (snd r)"
  let ?s = "\<lparr>tg_tile = final_state (tile_step fmt fin) (tg_tile s) tevs, tg_executions = (tg_executions s)[i := (request, fst r)]\<rparr>"
  let ?calls = "map (ExecutionCall i) (snd r) @ map TileCall (outputs (tile_step fmt fin) (tg_tile s) tevs)"
  have step: "trading_step nfmt fmt fin parse_date s ev = (?s, ?calls)"
    using assms(2-4) x by (simp add: r_def tevs_def split_beta Let_def del: execution_step.simps)
  have "tile_numbers_ok symbol ?s"
    using outcome_run [of tevs i "tg_tile s" fmt fin] to_tile_outcome ok(1) by (auto simp: tevs_def tile_numbers_ok_def tile_kept_def)
  moreover have new: "sent (map (ExecutionCall i) (snd r)) =
      (if e = LimitChecked True \<and> \<not> ex_checked x \<and> \<not> ex_stopped x then [(i, request)] else [])"
    "ex_checked x \<or> e = LimitChecked True \<and> \<not> ex_stopped x \<longrightarrow> ex_checked (fst r)"
    using sent_by_execution [of i request parse_date x lookup e] unfolding r_def by blast+
  have grow: "executions_grow s ?s"
    unfolding executions_grow_def
  proof (intro allI impI)
    fix j
    assume "j < length (tg_executions s)"
    then show "j < length (tg_executions ?s) \<and> fst (tg_executions ?s ! j) = fst (tg_executions s ! j)
        \<and> (ex_checked (snd (tg_executions s ! j)) \<longrightarrow> ex_checked (snd (tg_executions ?s ! j)))"
      using x new(2) by (cases "i = j") simp_all
  qed
  moreover have "sends_ok (evs @ [ev]) ?s (calls @ ?calls)"
  proof (cases "e = LimitChecked True \<and> \<not> ex_checked x \<and> \<not> ex_stopped x")
    case True
    have "i \<notin> set (map fst (sent calls))" using True ok(3) x by (fastforce simp: sends_ok_def)
    moreover have "sends_ok (evs @ [ev]) ?s (calls @ [])" by (rule sends_ok_grow [OF ok(3) grow]) simp
    ultimately show ?thesis using True new x assms(2,3) by (auto simp: sends_ok_def)
  next
    case False
    then show ?thesis using sends_ok_grow [OF ok(3) grow, of ?calls] new(1) by simp
  qed
  ultimately show ?thesis unfolding step sent_ok_def
    using requests_ok_same [OF ok(2) grow] by simp
qed

text \<open>C3: whatever happens to a tile and its executions, each trade that goes to the backend is one the tile asked for, goes
  out at most once, after the limit check of that very trade let it through, and in the tile's currency pair; and as
  long as the container does not ask to close a position, its notional is at least zero and below the largest one,
  whatever was typed.\<close>

theorem trades_sent_as_asked:
  assumes "(s, calls) = run (trading_step nfmt fmt fin parse_date) (new_trading modelId pair) evs"
  shows "distinct (map fst (sent calls))
    \<and> (\<forall>(i, r) \<in> set (sent calls). TileCall (StartExecution i r) \<in> set calls
        \<and> (\<exists>lookup. ExecutionEvent i lookup (LimitChecked True) \<in> set evs) \<and> rq_CurrencyPair r = cp_symbol pair
        \<and> ((\<forall>ev \<in> set evs. \<not> closes_position ev) \<longrightarrow> 0 \<le> rq_Notional r \<and> rq_Notional r < MAX_NOTIONAL_VALUE))"
proof -
  let ?step = "trading_step nfmt fmt fin parse_date"
  have "sent_ok (cp_symbol pair) evs (final_state ?step (new_trading modelId pair) evs) (outputs ?step (new_trading modelId pair) evs)"
  proof (induction evs rule: rev_induct)
    case Nil
    then show ?case
      by (simp add: sent_ok_def tile_numbers_ok_def requests_ok_def sends_ok_def new_trading_def new_spot_tile_def
          notional_ok_def MAX_NOTIONAL_VALUE_def)
  next
    case (snoc ev evs)
    let ?s = "final_state ?step (new_trading modelId pair) evs"
    have idle: "sent_ok symbol (evs @ [ev]) s calls" if "sent_ok symbol evs s calls" for symbol s calls
      using that requests_ok_same [of symbol evs s calls s ev "[]"] sends_ok_grow [of evs s calls s "[]" ev]
      by (simp add: sent_ok_def executions_grow_def)
    show ?case
    proof (cases ev)
      case (TileEvent tev)
      with snoc sent_ok_tile [OF snoc TileEvent, of nfmt fmt fin parse_date] idle show ?thesis
        by (cases "from_environment tev") (auto simp: run_append)
    next
      case (ExecutionEvent i lookup e)
      with snoc sent_ok_execution [OF snoc ExecutionEvent, of nfmt fmt fin parse_date] idle show ?thesis
        by (cases "i < length (tg_executions ?s) \<and> e \<noteq> DisposeExecution")
          (auto simp: run_append simp del: execution_step.simps)
    qed
  qed
  with assms have "sent_ok (cp_symbol pair) evs s calls" by (metis fst_conv snd_conv)
  then show ?thesis by (fastforce simp: sent_ok_def sends_ok_def requests_ok_def)
qed

lemma trades_sent_as_asked_witness:
  "\<exists>request :: execute_trade_request. rq_CurrencyPair request = ''EURUSD'' \<and> 0 \<le> rq_Notional request \<and> rq_Notional request < MAX_NOTIONAL_VALUE"
proof -
  let ?step = "trading_step (\<lambda>n d. []) example_formats (new_openfin False) (\<lambda>d. None)"
  let ?evs = "[TileEvent (Inl (ServicesConnected True True)), TileEvent (Inl (Price example_spot)),
      TileEvent (Inl (ExecuteTrade Buy)), ExecutionEvent 0 any_pair (LimitChecked True)]"
  obtain s calls where run: "(s, calls) = run ?step (new_trading ''spotTile-EURUSD'' (new_currency_pair ''EURUSD'' 5 4)) ?evs"
    by (metis surj_pair)
  then have "calls = outputs ?step (new_trading ''spotTile-EURUSD'' (new_currency_pair ''EURUSD'' 5 4)) ?evs"
    by (metis snd_conv)
  then obtain request where member: "(0, request) \<in> set (sent calls)"
    by (simp add: in_sent new_trading_def new_spot_tile_def new_currency_pair_def tile_defs example_spot_def
        publishPrice_def new_openfin_def run.simps(2) split_beta Let_def map_filter_simps)
  show ?thesis
    using trades_sent_as_asked [OF run, THEN conjunct2, THEN bspec, OF member]
    by (intro exI [of _ request]) (simp add: new_currency_pair_def Let_def)
qed

end
