(* ===== verification/Blotter.thy ===== *)
theory Blotter imports OpenFinContainer "HOL-Library.Multiset" begin

text \<open>
  \<open>ui/blotter/model/blotterModel.js\<close>: the list of the user's trades. The rows are an array that the
  stream of trade updates, the service's status and the highlighting of a row change in place.
  \<open>sortBy\<close> of lodash is a parameter; \<open>sorts_by_key\<close> is what its documentation promises.
\<close>

section \<open>State and events\<close>

record blotter =
  bl_trades :: "trade_row list"
  bl_isConnected :: bool

definition new_blotter :: blotter where
  "new_blotter = \<lparr>bl_trades = [], bl_isConnected = False\<rparr>"

definition HIGHLIGHT_TRADE_FOR_IN_MS :: nat where
  "HIGHLIGHT_TRADE_FOR_IN_MS = 200"

datatype blotter_event =
    BlotterInit
  | BlotterReferenceDataLoaded
  | TearOffBlotter
  | HighlightTradeRow trade
  | EndHighlightTradeRow trade
  | BlotterTrades trades_update
  | BlotterTradesError string
  | BlotterStatus bool
  | FetchBlotter string

datatype blotter_call =
    SubscribeBlotterStatus
  | InitBlotterRegion
  | SubscribeTradesStream
  | PopoutBlotter
  | ScheduleEndHighlight nat trade
  | BlotterBus bus_call

type_synonym sort_by = "(trade \<Rightarrow> int) \<Rightarrow> trade list \<Rightarrow> trade list"

section \<open>Operations\<close>

definition row_index :: "int \<Rightarrow> trade_row list \<Rightarrow> nat option" where
  "row_index k rows = find_index (\<lambda>row. tr_tradeId (row_trade row) = k) rows"

definition highlightTradeRow :: "blotter \<Rightarrow> trade \<Rightarrow> blotter \<times> blotter_call list" where
  "highlightTradeRow b t =
     (case row_index (tr_tradeId t) (bl_trades b) of
        None \<Rightarrow> (b, [])
      | Some i \<Rightarrow> (b\<lparr>bl_trades := (bl_trades b)[i := (bl_trades b ! i)\<lparr>row_isInFocus := True\<rparr>]\<rparr>,
                  [ScheduleEndHighlight HIGHLIGHT_TRADE_FOR_IN_MS t]))"

definition endHighlightTradeRow :: "blotter \<Rightarrow> trade \<Rightarrow> blotter" where
  "endHighlightTradeRow b t =
     (case row_index (tr_tradeId t) (bl_trades b) of
        None \<Rightarrow> b
      | Some i \<Rightarrow> b\<lparr>bl_trades := (bl_trades b)[i := (bl_trades b ! i)\<lparr>row_isInFocus := False\<rparr>]\<rparr>)"

definition stateOfTheWorldRows :: "sort_by \<Rightarrow> trade list \<Rightarrow> trade_row list" where
  "stateOfTheWorldRows sortBy ts = map new_trade_row (rev (sortBy tr_tradeId ts))"

definition upsert_row :: "trade_row list \<Rightarrow> trade \<Rightarrow> trade_row list" where
  "upsert_row rows t =
     (case row_index (tr_tradeId t) rows of
        Some i \<Rightarrow> rows[i := new_trade_row t]
      | None \<Rightarrow> (new_trade_row t)\<lparr>row_isNew := True\<rparr> # rows)"

definition notify_final :: "openfin \<Rightarrow> formats \<Rightarrow> trade \<Rightarrow> blotter_call list" where
  "notify_final fin fmt t =
     (if tr_status t = Done \<or> tr_status t = Rejected then map BlotterBus (openTradeNotification fin fmt t) else [])"

definition blotter_trades ::
    "sort_by \<Rightarrow> openfin \<Rightarrow> formats \<Rightarrow> blotter \<Rightarrow> trades_update \<Rightarrow> blotter \<times> blotter_call list" where
  "blotter_trades sortBy fin fmt b u =
     (if tu_isStateOfTheWorld u then (b\<lparr>bl_trades := stateOfTheWorldRows sortBy (tu_trades u)\<rparr>, [])
      else (b\<lparr>bl_trades := foldl upsert_row (bl_trades b) (tu_trades u)\<rparr>,
            concat (map (notify_final fin fmt) (tu_trades u))))"

fun blotter_step :: "sort_by \<Rightarrow> openfin \<Rightarrow> formats \<Rightarrow> (blotter, blotter_event, blotter_call) handler" where
  "blotter_step sortBy fin fmt b BlotterInit =
     (b, [SubscribeBlotterStatus, InitBlotterRegion] @ map BlotterBus (openfin_addSubscription fin ''fetch-blotter''))"
| "blotter_step sortBy fin fmt b BlotterReferenceDataLoaded = (b, [SubscribeTradesStream])"
| "blotter_step sortBy fin fmt b TearOffBlotter = (b, [PopoutBlotter])"
| "blotter_step sortBy fin fmt b (HighlightTradeRow t) = highlightTradeRow b t"
| "blotter_step sortBy fin fmt b (EndHighlightTradeRow t) = (endHighlightTradeRow b t, [])"
| "blotter_step sortBy fin fmt b (BlotterTrades u) = blotter_trades sortBy fin fmt b u"
| "blotter_step sortBy fin fmt b (BlotterTradesError e) = (b, [])"
| "blotter_step sortBy fin fmt b (BlotterStatus up) =
     (let b' = b\<lparr>bl_isConnected := up\<rparr> in (if \<not> up then b'\<lparr>bl_trades := []\<rparr> else b', []))"
| "blotter_step sortBy fin fmt b (FetchBlotter uuid) =
     (b, map BlotterBus (sendAllBlotterData uuid
        (map (\<lambda>row. new_trade_notification fmt (row_trade row)) (bl_trades b))))"

section \<open>The trades by identifier\<close>

text \<open>What the blotter promises: the last trade heard of under each identifier, since the last state of
  the world or loss of the connection.\<close>

fun trade_map_step :: "(int \<Rightarrow> trade option) \<Rightarrow> blotter_event \<Rightarrow> (int \<Rightarrow> trade option)" where
  "trade_map_step m (BlotterTrades u) =
     foldl (\<lambda>m t. m(tr_tradeId t \<mapsto> t)) (if tu_isStateOfTheWorld u then Map.empty else m) (tu_trades u)"
| "trade_map_step m (BlotterStatus up) = (if up then m else Map.empty)"
| "trade_map_step m ev = m"

definition trade_map :: "trade_row list \<Rightarrow> int \<Rightarrow> trade option" where
  "trade_map rows = map_of (map (\<lambda>row. (tr_tradeId (row_trade row), row_trade row)) rows)"

abbreviation row_ids :: "trade_row list \<Rightarrow> int list" where
  "row_ids rows \<equiv> map (\<lambda>row. tr_tradeId (row_trade row)) rows"

definition sorts_by_key :: "sort_by \<Rightarrow> bool" where
  "sorts_by_key sortBy \<longleftrightarrow> (\<forall>key ts. sorted (map key (sortBy key ts))
     \<and> (\<forall>k. filter (\<lambda>t. key t = k) (sortBy key ts) = filter (\<lambda>t. key t = k) ts))"

lemma sort_key_sorts: "sorts_by_key sort_key"
  by (simp add: sorts_by_key_def sort_key_stable)

lemma map_of_by_filter:
  "map_of (map (\<lambda>t. (key t, t)) ts) k = (case filter (\<lambda>t. key t = k) ts of [] \<Rightarrow> None | t # _ \<Rightarrow> Some t)"
  by (induction ts) auto

lemma map_of_rev_foldl:
  "map_of (map (\<lambda>t. (key t, t)) (rev ts)) = foldl (\<lambda>m t. m(key t \<mapsto> t)) Map.empty ts"
  by (induction ts rule: rev_induct) auto

lemma sow_map:
  assumes "sorts_by_key sortBy"
  shows "trade_map (stateOfTheWorldRows sortBy ts) = foldl (\<lambda>m t. m(tr_tradeId t \<mapsto> t)) Map.empty ts"
proof -
  have "map_of (map (\<lambda>t. (tr_tradeId t, t)) (rev (sortBy tr_tradeId ts))) k
      = map_of (map (\<lambda>t. (tr_tradeId t, t)) (rev ts)) k" for k
    using assms unfolding map_of_by_filter sorts_by_key_def rev_filter [symmetric] by simp
  then have "map_of (map (\<lambda>t. (tr_tradeId t, t)) (rev (sortBy tr_tradeId ts)))
      = map_of (map (\<lambda>t. (tr_tradeId t, t)) (rev ts))" by blast
  then show ?thesis
    by (simp add: trade_map_def stateOfTheWorldRows_def o_def new_trade_row_def map_of_rev_foldl)
qed

section \<open>Updating rows\<close>

lemma row_index_None: "row_index k rows = None \<longleftrightarrow> k \<notin> set (row_ids rows)"
  by (auto simp: row_index_def find_index_None_iff)

lemma row_index_Cons:
  "row_index k (row # rows) =
     (if tr_tradeId (row_trade row) = k then Some 0 else map_option Suc (row_index k rows))"
  by (simp add: row_index_def)

lemma row_index_Some:
  "row_index k rows = Some i \<Longrightarrow> i < length rows \<and> tr_tradeId (row_trade (rows ! i)) = k"
  unfolding row_index_def by (auto dest: find_index_Some)

lemma new_trade_row_simps [simp]: "row_trade (new_trade_row t) = t" "\<not> row_isNew (new_trade_row t)"
    "\<not> row_isInFocus (new_trade_row t)"
  by (simp_all add: new_trade_row_def)

lemma trade_map_Cons: "trade_map (row # rows) = (trade_map rows)(tr_tradeId (row_trade row) \<mapsto> row_trade row)"
  by (simp add: trade_map_def)

lemma trade_map_replace:
  assumes "row_index k rows = Some i" "tr_tradeId (row_trade row) = k"
  shows "trade_map (rows[i := row]) = (trade_map rows)(k \<mapsto> row_trade row)"
  using assms
proof (induction rows arbitrary: i)
  case Nil
  then show ?case by (simp add: row_index_def)
next
  case (Cons r rows)
  then show ?case by (cases i) (auto simp: row_index_Cons trade_map_Cons split: if_splits)
qed

lemma trade_map_upsert: "trade_map (upsert_row rows t) = (trade_map rows)(tr_tradeId t \<mapsto> t)"
  by (auto simp: upsert_row_def trade_map_replace trade_map_Cons split: option.split)

lemma trade_map_upserts:
  "trade_map (foldl upsert_row rows ts) = foldl (\<lambda>m t. m(tr_tradeId t \<mapsto> t)) (trade_map rows) ts"
  by (induction ts arbitrary: rows) (simp_all add: trade_map_upsert)

text \<open>Highlighting changes no trade.\<close>

lemma map_focus: "i < length rows \<Longrightarrow> map row_trade (rows[i := (rows ! i)\<lparr>row_isInFocus := f\<rparr>]) = map row_trade rows"
  by (simp add: map_update list_update_same_conv)

lemma trade_map_trades: "trade_map rows = map_of (map (\<lambda>t. (tr_tradeId t, t)) (map row_trade rows))"
  by (simp add: trade_map_def o_def)

lemma highlight_trades:
  "map row_trade (bl_trades (fst (highlightTradeRow b t))) = map row_trade (bl_trades b)"
  "map row_trade (bl_trades (endHighlightTradeRow b t)) = map row_trade (bl_trades b)"
  by (auto simp: highlightTradeRow_def endHighlightTradeRow_def map_focus dest: row_index_Some split: option.split)

lemma row_ids_trades: "row_ids rows = map tr_tradeId (map row_trade rows)"
  by simp

lemma blotter_step_map:
  assumes "sorts_by_key sortBy"
  shows "trade_map (bl_trades (fst (blotter_step sortBy fin fmt b ev))) = trade_map_step (trade_map (bl_trades b)) ev"
proof (cases ev)
  case (BlotterTrades u)
  then show ?thesis by (simp add: blotter_trades_def sow_map [OF assms] trade_map_upserts)
next
  case (HighlightTradeRow t)
  then show ?thesis by (simp add: trade_map_trades highlight_trades)
next
  case (EndHighlightTradeRow t)
  then show ?thesis by (simp add: trade_map_trades highlight_trades)
next
  case (BlotterStatus up)
  then show ?thesis by (simp add: Let_def trade_map_def)
qed simp_all

lemma blotter_run_map:
  "sorts_by_key sortBy \<Longrightarrow>
     trade_map (bl_trades (final_state (blotter_step sortBy fin fmt) b evs)) = foldl trade_map_step (trade_map (bl_trades b)) evs"
  by (induction evs arbitrary: b) (simp_all add: blotter_step_map del: blotter_step.simps)

section \<open>Distinct rows\<close>

definition distinct_rows :: "blotter \<Rightarrow> bool" where
  "distinct_rows b \<longleftrightarrow> distinct (row_ids (bl_trades b))"

fun distinct_world :: "blotter_event \<Rightarrow> bool" where
  "distinct_world (BlotterTrades u) \<longleftrightarrow> tu_isStateOfTheWorld u \<longrightarrow> distinct (map tr_tradeId (tu_trades u))"
| "distinct_world ev = True"

lemma upsert_ids:
  "row_ids (upsert_row rows t) =
     (if tr_tradeId t \<in> set (row_ids rows) then row_ids rows else tr_tradeId t # row_ids rows)"
proof (cases "row_index (tr_tradeId t) rows")
  case None
  then show ?thesis using row_index_None [of "tr_tradeId t" rows] by (simp add: upsert_row_def)
next
  case (Some i)
  moreover have "tr_tradeId t \<in> set (row_ids rows)" using Some row_index_None [of "tr_tradeId t" rows] by simp
  ultimately show ?thesis
    using row_index_Some [OF Some] by (simp add: upsert_row_def map_update list_update_same_conv)
qed

lemma upserts_distinct: "distinct (row_ids rows) \<Longrightarrow> distinct (row_ids (foldl upsert_row rows ts))"
  by (induction ts arbitrary: rows) (simp_all add: upsert_ids)

lemma sorts_mset:
  assumes "sorts_by_key sortBy"
  shows "mset (map key (sortBy key ts)) = mset (map key ts)"
proof (rule multiset_eqI)
  fix k
  have "count (mset (map key xs)) k = length (filter (\<lambda>t. key t = k) xs)" for xs
    by (induction xs) auto
  then show "count (mset (map key (sortBy key ts))) k = count (mset (map key ts)) k"
    using assms by (simp add: sorts_by_key_def)
qed

lemma sow_ids:
  assumes "sorts_by_key sortBy"
  shows "row_ids (stateOfTheWorldRows sortBy ts) = rev (sort (map tr_tradeId ts))"
proof -
  have "map tr_tradeId (sortBy tr_tradeId ts) = sort (map tr_tradeId ts)"
    using assms sorts_mset [OF assms] by (intro properties_for_sort [symmetric]) (auto simp: sorts_by_key_def)
  then show ?thesis by (simp add: stateOfTheWorldRows_def o_def flip: rev_map)
qed

lemma distinct_rows_step:
  assumes "sorts_by_key sortBy" "distinct_rows b" "distinct_world ev"
  shows "distinct_rows (fst (blotter_step sortBy fin fmt b ev))"
proof (cases ev)
  case (BlotterTrades u)
  with assms show ?thesis by (simp add: blotter_trades_def distinct_rows_def sow_ids upserts_distinct)
next
  case (HighlightTradeRow t)
  with assms show ?thesis by (simp add: distinct_rows_def row_ids_trades highlight_trades del: map_map)
next
  case (EndHighlightTradeRow t)
  with assms show ?thesis by (simp add: distinct_rows_def row_ids_trades highlight_trades del: map_map)
next
  case (BlotterStatus up)
  with assms show ?thesis by (simp add: distinct_rows_def Let_def)
qed (use assms in simp_all)

lemma distinct_rows_run:
  "sorts_by_key sortBy \<Longrightarrow> distinct_rows b \<Longrightarrow> \<forall>ev \<in> set evs. distinct_world ev \<Longrightarrow>
     distinct_rows (final_state (blotter_step sortBy fin fmt) b evs)"
  by (induction evs arbitrary: b) (simp_all add: distinct_rows_step del: blotter_step.simps)

lemma upserts_ids:
  "row_ids (foldl upsert_row rows ts) =
     remdups (rev (filter (\<lambda>k. k \<notin> set (row_ids rows)) (map tr_tradeId ts))) @ row_ids rows"
proof (induction ts rule: rev_induct)
  case (snoc t ts)
  have "tr_tradeId t \<in> set (row_ids (foldl upsert_row rows ts)) \<longleftrightarrow>
      tr_tradeId t \<in> set (row_ids rows) \<or> tr_tradeId t \<in> set (map tr_tradeId ts)"
    unfolding snoc by auto
  then show ?case by (simp add: upsert_ids snoc del: set_map)
qed simp

lemma distinct_rows_ran:
  assumes "distinct (row_ids rows)"
  shows "ran (trade_map rows) = row_trade ` set rows"
  using assms unfolding trade_map_def by (subst ran_distinct) (force simp: o_def)+

section \<open>Notifications\<close>

text \<open>The trades of the updates that have come to an end.\<close>

fun final_trades :: "blotter_event \<Rightarrow> trade list" where
  "final_trades (BlotterTrades u) =
     (if tu_isStateOfTheWorld u then []
      else filter (\<lambda>t. tr_status t = Done \<or> tr_status t = Rejected) (tu_trades u))"
| "final_trades ev = []"

definition is_notification :: "blotter_call \<Rightarrow> bool" where
  "is_notification c \<longleftrightarrow> (\<exists>n. c = BlotterBus (ShowNotification n))"

lemma notify_final_filter:
  "filter is_notification (notify_final fin fmt t) =
     (if of_running fin \<and> (tr_status t = Done \<or> tr_status t = Rejected)
      then [BlotterBus (ShowNotification (new_trade_notification fmt t))] else [])"
  by (simp add: notify_final_def openTradeNotification_def is_notification_def Let_def)

lemma notifications_of:
  "filter is_notification (concat (map (notify_final fin fmt) ts)) =
     (if of_running fin
      then map (\<lambda>t. BlotterBus (ShowNotification (new_trade_notification fmt t)))
             (filter (\<lambda>t. tr_status t = Done \<or> tr_status t = Rejected) ts)
      else [])"
  by (induction ts) (auto simp: notify_final_filter)

lemma notifications_step:
  "filter is_notification (snd (blotter_step sortBy fin fmt b ev)) =
     (if of_running fin
      then map (\<lambda>t. BlotterBus (ShowNotification (new_trade_notification fmt t))) (final_trades ev) else [])"
  by (cases ev) (simp_all add: openfin_addSubscription_def highlightTradeRow_def blotter_trades_def
      notifications_of sendAllBlotterData_def is_notification_def Let_def split: option.split)

section \<open>Properties\<close>

text \<open>C8: the blotter's rows are a map from trade identifiers to trades: whatever the order of updates,
  states of the world, highlights and status changes, the rows are exactly the last trade received
  under each identifier since the last state of the world or disconnection, each shown once.\<close>

theorem blotter_shows_latest_trades:
  assumes "sorts_by_key sortBy" "\<forall>ev \<in> set evs. distinct_world ev"
    and "rows = bl_trades (final_state (blotter_step sortBy fin fmt) new_blotter evs)"
  shows "trade_map rows = foldl trade_map_step Map.empty evs
    \<and> distinct (row_ids rows) \<and> row_trade ` set rows = ran (foldl trade_map_step Map.empty evs)"
proof -
  have "distinct_rows new_blotter" "trade_map (bl_trades new_blotter) = Map.empty"
    by (simp_all add: distinct_rows_def new_blotter_def trade_map_def)
  then have "distinct (row_ids rows)" "trade_map rows = foldl trade_map_step Map.empty evs"
    using distinct_rows_run [OF assms(1) _ assms(2)] blotter_run_map [OF assms(1), of fin fmt new_blotter evs]
    by (simp_all add: assms(3) distinct_rows_def)
  with distinct_rows_ran show ?thesis by metis
qed

definition example_trade :: "int \<Rightarrow> trade_status \<Rightarrow> trade" where
  "example_trade i st = \<lparr>tr_tradeId = i, tr_traderName = ''TRD'', tr_currencyPair = new_currency_pair ''EURUSD'' 5 4,
     tr_notional = 1000000, tr_dealtCurrency = ''EUR'', tr_direction = Buy, tr_spotRate = 1, tr_tradeDate = None,
     tr_valueDate = None, tr_status = st\<rparr>"

definition example_events :: "blotter_event list" where
  "example_events =
     [BlotterTrades \<lparr>tu_isStateOfTheWorld = True, tu_isStale = False, tu_trades = [example_trade 1 Done, example_trade 2 Pending]\<rparr>,
      HighlightTradeRow (example_trade 2 Pending),
      BlotterTrades \<lparr>tu_isStateOfTheWorld = False, tu_isStale = False, tu_trades = [example_trade 2 Done, example_trade 3 Pending]\<rparr>]"

lemma blotter_shows_latest_trades_witness:
  "trade_map (bl_trades (final_state (blotter_step sort_key (new_openfin False)
       \<lparr>fmt_notional = \<lambda>n. [], fmt_tradeDate = \<lambda>d. [], fmt_valueDate = \<lambda>d. []\<rparr>) new_blotter example_events)) 2
     = Some (example_trade 2 Done)"
  using blotter_shows_latest_trades [OF sort_key_sorts, of example_events _ "new_openfin False"
      "\<lparr>fmt_notional = \<lambda>n. [], fmt_tradeDate = \<lambda>d. [], fmt_valueDate = \<lambda>d. []\<rparr>", OF _ refl]
  by (simp add: example_events_def example_trade_def)

text \<open>The blotter shows the newest trade first. A state of the world is shown with its identifiers
  descending; an update leaves every known trade where it is and puts the others in front, the last
  one to appear on top.\<close>

theorem blotter_newest_first:
  assumes "sorts_by_key sortBy"
  shows "row_ids (bl_trades (fst (blotter_step sortBy fin fmt b (BlotterTrades u)))) =
    (if tu_isStateOfTheWorld u then rev (sort (map tr_tradeId (tu_trades u)))
     else remdups (rev (filter (\<lambda>k. k \<notin> set (row_ids (bl_trades b))) (map tr_tradeId (tu_trades u))))
          @ row_ids (bl_trades b))"
  by (simp add: blotter_trades_def sow_ids [OF assms] upserts_ids del: set_map)

lemma blotter_newest_first_witness:
  "row_ids (bl_trades (fst (blotter_step sort_key (new_openfin False)
       \<lparr>fmt_notional = \<lambda>n. [], fmt_tradeDate = \<lambda>d. [], fmt_valueDate = \<lambda>d. []\<rparr> new_blotter
       (BlotterTrades \<lparr>tu_isStateOfTheWorld = False, tu_isStale = False,
          tu_trades = [example_trade 1 Done, example_trade 3 Done, example_trade 2 Pending, example_trade 3 Pending]\<rparr>)))) = [2, 3, 1]"
  by (subst blotter_newest_first [OF sort_key_sorts]) (simp add: example_trade_def new_blotter_def)

text \<open>The container shows one notification for each trade of an update that is done or rejected, in
  the order they came, and none for a state of the world, for a pending trade or outside the
  container.\<close>

theorem blotter_notifies_final_trades:
  "filter is_notification (outputs (blotter_step sortBy fin fmt) b evs) =
     (if of_running fin
      then map (\<lambda>t. BlotterBus (ShowNotification (new_trade_notification fmt t))) (concat (map final_trades evs))
      else [])"
  by (induction evs arbitrary: b) (simp_all add: notifications_step del: blotter_step.simps)

end
