(* ===== verification/Analytics.thy ===== *)
theory Analytics imports OpenFinContainer begin

text \<open>
  The analytics panel: \<open>ui/analytics/model\<close> (\<open>analyticsModel.js\<close>, \<open>pnlChartModel.js\<close>,
  \<open>positionsChartModel.js\<close>, \<open>pricePoint.js\<close>) and what its position chart computes from the model
  (\<open>views/positions-chart/chartUtil.js\<close> and the nodes of \<open>positionsBubbleChart.js\<close>). Amounts are doubles
  and added with rounding (\<open>fl\<close>). The scales of \<open>d3\<close> are parameters; the component that
  draws the nodes is in \<open>BubbleChart\<close>.
\<close>

section \<open>The profit and loss chart\<close>

record price_point =
  pp_x :: js_date
  pp_y :: string

text \<open>\<open>lastPos\<close>, \<open>minPnl\<close> and \<open>maxPnl\<close> are undefined until the first update.\<close>

record pnl_chart =
  pnl_lastPos :: "string option"
  pnl_minPnl :: "rat option"
  pnl_maxPnl :: "rat option"
  pnl_seriesData :: "price_point list"

definition new_pnl_chart :: pnl_chart where
  "new_pnl_chart = \<lparr>pnl_lastPos = None, pnl_minPnl = None, pnl_maxPnl = None, pnl_seriesData = []\<rparr>"

record pnl_update =
  upd_lastPos :: "string option"
  upd_minPnl :: rat
  upd_maxPnl :: rat
  upd_series :: "price_point list"

text \<open>One element of the chain of \<open>_processUpdate\<close>: dropped by the filter, or mapped.\<close>

definition processPosition :: "pnl_update \<Rightarrow> historic_position \<Rightarrow> pnl_update result" where
  "processPosition acc item =
     (case hp_usdPnl item of
        None \<Rightarrow> Inr acc
      | Some usdPnl \<Rightarrow> bind_result (toFixed usdPnl 2) (\<lambda>s. Inr
          \<lparr>upd_lastPos = Some s, upd_minPnl = min (upd_minPnl acc) usdPnl, upd_maxPnl = max (upd_maxPnl acc) usdPnl,
           upd_series = upd_series acc @ [\<lparr>pp_x = hp_timestamp item, pp_y = s\<rparr>]\<rparr>))"

definition processUpdate :: "historic_position list \<Rightarrow> pnl_update result" where
  "processUpdate positions =
     foldl (\<lambda>acc item. bind_result acc (\<lambda>a. processPosition a item))
       (Inr \<lparr>upd_lastPos = None, upd_minPnl = 0, upd_maxPnl = 0, upd_series = []\<rparr>) positions"

definition pnl_chart_update :: "pnl_chart \<Rightarrow> historic_position list \<Rightarrow> pnl_chart result" where
  "pnl_chart_update chart positions =
     bind_result (processUpdate positions) (\<lambda>u. Inr
       \<lparr>pnl_lastPos = upd_lastPos u, pnl_minPnl = Some (upd_minPnl u), pnl_maxPnl = Some (upd_maxPnl u),
        pnl_seriesData = upd_series u\<rparr>)"

definition pnl_hasData :: "pnl_chart \<Rightarrow> bool" where
  "pnl_hasData chart \<longleftrightarrow> length (pnl_seriesData chart) > 0"

section \<open>The positions chart\<close>

definition basePnlName :: string where "basePnlName = ''basePnl''"

definition baseTradedAmountName :: string where "baseTradedAmountName = ''baseTradedAmount''"

record positions_chart =
  pch_seriesData :: "currency_pair_position list"
  pch_yAxisValuePropertyName :: string

definition new_positions_chart :: positions_chart where
  "new_positions_chart = \<lparr>pch_seriesData = [], pch_yAxisValuePropertyName = baseTradedAmountName\<rparr>"

definition positions_chart_update :: "positions_chart \<Rightarrow> currency_pair_position list \<Rightarrow> positions_chart" where
  "positions_chart_update chart positions = chart\<lparr>pch_seriesData := positions\<rparr>"

definition basePnlDisplayModelSelected :: "positions_chart \<Rightarrow> bool" where
  "basePnlDisplayModelSelected chart \<longleftrightarrow> pch_yAxisValuePropertyName chart = basePnlName"

definition togglePnlDisplayMode :: "positions_chart \<Rightarrow> positions_chart" where
  "togglePnlDisplayMode chart =
     chart\<lparr>pch_yAxisValuePropertyName :=
       if pch_yAxisValuePropertyName chart = basePnlName then baseTradedAmountName else basePnlName\<rparr>"

record positions_series =
  psr_name :: string
  psr_values :: "currency_pair_position list"
  psr_color :: string

definition positions_getSeries :: "positions_chart \<Rightarrow> positions_series list" where
  "positions_getSeries chart = [\<lparr>psr_name = ''Pos/PnL'', psr_values = pch_seriesData chart, psr_color = ''slategray''\<rparr>]"

definition positions_itemCount :: "positions_chart \<Rightarrow> nat" where
  "positions_itemCount chart = length (pch_seriesData chart)"

definition positions_hasData :: "positions_chart \<Rightarrow> bool" where
  "positions_hasData chart \<longleftrightarrow> length (pch_seriesData chart) > 0"

section \<open>Positions per currency\<close>

text \<open>A stored amount of zero is falsy and replaced like an absent one.\<close>

definition aggregatePosition :: "rat object \<Rightarrow> currency_pair_position \<Rightarrow> rat object" where
  "aggregatePosition ob ccyPairPosition =
     (let baseCurrency = cp_base (pos_currencyPair ccyPairPosition)
      in obj_set baseCurrency
           (case obj_get ob baseCurrency of
              Some v \<Rightarrow> if v \<noteq> 0 then fl (v + pos_baseTradedAmount ccyPairPosition) else pos_baseTradedAmount ccyPairPosition
            | None \<Rightarrow> pos_baseTradedAmount ccyPairPosition) ob)"

definition getPositionsDataFromSeries :: "currency_pair_position list \<Rightarrow> (string \<times> rat) list" where
  "getPositionsDataFromSeries series = filter (\<lambda>(symbol, amount). amount \<noteq> 0) (foldl aggregatePosition [] series)"

text \<open>The domain of the radius scale; \<open>None\<close> when there is no position (\<open>max\<close> and \<open>min\<close> of nothing are the
  infinities).\<close>

definition radius_domain :: "currency_pair_position list \<Rightarrow> (rat \<times> rat) option" where
  "radius_domain series =
     (case map (\<lambda>(symbol, amount). \<bar>amount\<bar>) (getPositionsDataFromSeries series) of
        [] \<Rightarrow> None
      | v # vs \<Rightarrow> let maxValue = foldl max v vs; minValue = foldl min v vs
                  in Some (if minValue = maxValue then 0 else minValue, maxValue))"

text \<open>The circles of the chart. \<open>x\<close> and \<open>y\<close> are what the layout has given a circle so far.\<close>

record bubble =
  bub_id :: string
  bub_r :: rat
  bub_cx :: jsnum
  bub_color :: string
  bub_position :: "(rat \<times> rat) option"

definition getRadius :: "(rat \<Rightarrow> rat) \<Rightarrow> rat \<Rightarrow> rat" where
  "getRadius scale_r amount = scale_r \<bar>amount\<bar>"

definition updateBubble ::
    "(nat \<Rightarrow> jsnum) \<Rightarrow> (rat \<Rightarrow> rat) \<Rightarrow> bubble list \<Rightarrow> nat \<Rightarrow> string \<Rightarrow> rat \<Rightarrow> bubble" where
  "updateBubble scale_x scale_r nodes index symbol amount =
     (let color = (if amount > 0 then ''#6db910'' else ''#d90a0a'')
      in case find (\<lambda>node. bub_id node = symbol) nodes of
           Some node \<Rightarrow> node\<lparr>bub_r := getRadius scale_r amount, bub_cx := scale_x index, bub_color := color\<rparr>
         | None \<Rightarrow> \<lparr>bub_id = symbol, bub_r = getRadius scale_r amount, bub_cx = scale_x index, bub_color = color,
                    bub_position = None\<rparr>)"

definition updateBubbles ::
    "(nat \<Rightarrow> jsnum) \<Rightarrow> (rat \<Rightarrow> rat) \<Rightarrow> bubble list \<Rightarrow> currency_pair_position list \<Rightarrow> bubble list" where
  "updateBubbles scale_x scale_r nodes series =
     (let positionsData = getPositionsDataFromSeries series;
          updated = map (\<lambda>(index, symbol, amount). updateBubble scale_x scale_r nodes index symbol amount)
                      (enumerate 0 positionsData)
      in filter (\<lambda>node. find_index (\<lambda>(symbol, amount). symbol = bub_id node) positionsData \<noteq> None) updated)"

text \<open>The tooltip of a circle; \<open>numeral\<close> is a parameter.\<close>

definition getPositionValue :: "(rat \<Rightarrow> string) \<Rightarrow> string \<Rightarrow> (string \<times> rat) list \<Rightarrow> string" where
  "getPositionValue fmt i positionsData =
     (case find_index (\<lambda>(symbol, amount). symbol = i) positionsData of
        Some index \<Rightarrow> fmt (snd (positionsData ! index))
      | None \<Rightarrow> '''')"

section \<open>The model\<close>

record analytics =
  an_isAnalyticsServiceConnected :: bool
  an_pnlChart :: pnl_chart
  an_positionsChart :: positions_chart

definition new_analytics :: analytics where
  "new_analytics = \<lparr>an_isAnalyticsServiceConnected = False, an_pnlChart = new_pnl_chart, an_positionsChart = new_positions_chart\<rparr>"

datatype analytics_event =
    AnalyticsInit
  | AnalyticsReferenceDataLoaded
  | PopOutAnalytics
  | TogglePnlDisplayMode
  | AnalyticsUpdate position_updates
  | AnalyticsError string
  | AnalyticsStatus bool

datatype analytics_call =
    SubscribeAnalyticsStatus
  | InitAnalyticsRegion
  | SubscribeAnalyticsStream string
  | PopoutAnalyticsRegion
  | AnalyticsBus bus_call
  | AnalyticsThrow js_error

fun analytics_step :: "openfin \<Rightarrow> (analytics, analytics_event, analytics_call) handler" where
  "analytics_step fin a AnalyticsInit = (a, [SubscribeAnalyticsStatus, InitAnalyticsRegion])"
| "analytics_step fin a AnalyticsReferenceDataLoaded = (a, [SubscribeAnalyticsStream ''USD''])"
| "analytics_step fin a PopOutAnalytics = (a, [PopoutAnalyticsRegion])"
| "analytics_step fin a TogglePnlDisplayMode =
     (a\<lparr>an_positionsChart := togglePnlDisplayMode (an_positionsChart a)\<rparr>, [])"
| "analytics_step fin a (AnalyticsUpdate u) =
     (case pnl_chart_update (an_pnlChart a) (pu_history u) of
        Inl e \<Rightarrow> (a, [AnalyticsThrow e])
      | Inr chart \<Rightarrow>
          (a\<lparr>an_pnlChart := chart,
             an_positionsChart := positions_chart_update (an_positionsChart a) (pu_currentPositions u)\<rparr>,
           map AnalyticsBus (publishCurrentPositions fin (pu_currentPositions u))))"
| "analytics_step fin a (AnalyticsError e) = (a, [])"
| "analytics_step fin a (AnalyticsStatus up) = (a\<lparr>an_isAnalyticsServiceConnected := up\<rparr>, [])"

section \<open>Lemmas: the profit and loss chart\<close>

text \<open>The known values of a history.\<close>

definition known_pnls :: "historic_position list \<Rightarrow> (js_date \<times> rat) list" where
  "known_pnls positions = concat (map (\<lambda>p. case hp_usdPnl p of None \<Rightarrow> [] | Some v \<Rightarrow> [(hp_timestamp p, v)]) positions)"

definition two_decimals :: "rat \<Rightarrow> string" where
  "two_decimals x = (case toFixed x 2 of Inr s \<Rightarrow> s | Inl e \<Rightarrow> '''')"

lemma toFixed_two: "toFixed x 2 = Inr (two_decimals x)"
  by (simp add: two_decimals_def toFixed_def)

lemma known_pnls_snoc [simp]:
  "known_pnls (ps @ [p]) = known_pnls ps @ (case hp_usdPnl p of None \<Rightarrow> [] | Some v \<Rightarrow> [(hp_timestamp p, v)])"
  by (simp add: known_pnls_def)

lemma processUpdate_snoc:
  "processUpdate (positions @ [p]) = bind_result (processUpdate positions) (\<lambda>a. processPosition a p)"
  by (simp add: processUpdate_def)

lemma processUpdate_value:
  "processUpdate positions = Inr
     \<lparr>upd_lastPos = (if known_pnls positions = [] then None else Some (two_decimals (snd (last (known_pnls positions))))),
      upd_minPnl = Min (insert 0 (snd ` set (known_pnls positions))),
      upd_maxPnl = Max (insert 0 (snd ` set (known_pnls positions))),
      upd_series = map (\<lambda>(d, v). \<lparr>pp_x = d, pp_y = two_decimals v\<rparr>) (known_pnls positions)\<rparr>"
proof (induction positions rule: rev_induct)
  case Nil
  then show ?case by (simp add: processUpdate_def known_pnls_def)
next
  case (snoc p positions)
  then show ?case
    by (auto simp: processUpdate_snoc processPosition_def toFixed_two min.commute min.left_commute max.commute max.left_commute split: option.split)
qed

section \<open>Lemmas: positions per currency\<close>

abbreviation base_of :: "currency_pair_position \<Rightarrow> string" where
  "base_of p \<equiv> cp_base (pos_currencyPair p)"

text \<open>The net amount held of a base currency.\<close>

definition net_amount :: "string \<Rightarrow> currency_pair_position list \<Rightarrow> rat" where
  "net_amount c series = (\<Sum>p \<leftarrow> filter (\<lambda>p. base_of p = c) series. pos_baseTradedAmount p)"

text \<open>Amounts the program adds without rounding.\<close>

definition whole_amounts :: "currency_pair_position list \<Rightarrow> bool" where
  "whole_amounts series \<longleftrightarrow> (\<forall>p \<in> set series. pos_baseTradedAmount p \<in> \<int>)
     \<and> (\<Sum>p \<leftarrow> series. \<bar>pos_baseTradedAmount p\<bar>) < 2 ^ 53"

lemma fl_whole: "x \<in> \<int> \<Longrightarrow> \<bar>x\<bar> < 2 ^ 53 \<Longrightarrow> fl x = x"
proof (elim Ints_cases)
  fix m assume "\<bar>x\<bar> < 2 ^ 53" "x = of_int m"
  then have "\<bar>m\<bar> < 2 ^ 53" by (metis of_int_abs of_int_less_iff of_int_numeral of_int_power)
  with \<open>x = of_int m\<close> show "fl x = x" by simp
qed

lemma net_amount_snoc [simp]:
  "net_amount c (series @ [p]) = net_amount c series + (if base_of p = c then pos_baseTradedAmount p else 0)"
  by (simp add: net_amount_def)

lemma net_amount_absent: "c \<notin> base_of ` set series \<Longrightarrow> net_amount c series = 0"
  by (induction series) (auto simp: net_amount_def)

lemma net_amount_whole:
  "\<forall>p \<in> set series. pos_baseTradedAmount p \<in> \<int> \<Longrightarrow> net_amount c series \<in> \<int>
     \<and> \<bar>net_amount c series\<bar> \<le> (\<Sum>p \<leftarrow> series. \<bar>pos_baseTradedAmount p\<bar>)"
proof (induction series rule: rev_induct)
  case (snoc p series)
  then have "net_amount c series \<in> \<int>" "\<bar>net_amount c series\<bar> \<le> (\<Sum>p \<leftarrow> series. \<bar>pos_baseTradedAmount p\<bar>)" by auto
  with snoc.prems show ?case by (auto simp: abs_le_iff)
qed (simp add: net_amount_def)

lemma aggregate_ok: "obj_ok (foldl aggregatePosition ob series)" if "obj_ok ob"
  using that by (induction series arbitrary: ob) (simp_all add: aggregatePosition_def Let_def)

text \<open>The sum the program forms: in the order of the positions, each step rounded to a double.\<close>

definition summed_amount :: "string \<Rightarrow> currency_pair_position list \<Rightarrow> rat" where
  "summed_amount c series = foldl (\<lambda>s a. fl (s + a)) 0 (map pos_baseTradedAmount (filter (\<lambda>p. base_of p = c) series))"

definition double_amounts :: "currency_pair_position list \<Rightarrow> bool" where
  "double_amounts series \<longleftrightarrow> (\<forall>p \<in> set series. fl (pos_baseTradedAmount p) = pos_baseTradedAmount p)"

lemma summed_amount_snoc [simp]:
  "summed_amount c (series @ [p]) =
     (if base_of p = c then fl (summed_amount c series + pos_baseTradedAmount p) else summed_amount c series)"
  by (simp add: summed_amount_def)

lemma summed_amount_absent: "c \<notin> base_of ` set series \<Longrightarrow> summed_amount c series = 0"
  by (induction series rule: rev_induct) (auto simp: summed_amount_def)

text \<open>Whole amounts that fit a double are added exactly.\<close>

lemma summed_amount_whole:
  assumes "whole_amounts series"
  shows "summed_amount c series = net_amount c series"
  using assms
proof (induction series rule: rev_induct)
  case (snoc p series)
  have whole: "\<forall>q \<in> set series. pos_baseTradedAmount q \<in> \<int>" "pos_baseTradedAmount p \<in> \<int>"
    and bound: "(\<Sum>p \<leftarrow> series. \<bar>pos_baseTradedAmount p\<bar>) + \<bar>pos_baseTradedAmount p\<bar> < 2 ^ 53"
    using snoc.prems by (auto simp: whole_amounts_def)
  then have "whole_amounts series" unfolding whole_amounts_def
    using abs_ge_zero [of "pos_baseTradedAmount p"] by linarith
  note IH = snoc.IH [OF this]
  have n: "net_amount c series \<in> \<int>" "\<bar>net_amount c series\<bar> \<le> (\<Sum>p \<leftarrow> series. \<bar>pos_baseTradedAmount p\<bar>)"
    using net_amount_whole [OF whole(1)] by auto
  have "fl (net_amount c series + pos_baseTradedAmount p) = net_amount c series + pos_baseTradedAmount p"
    using n whole(2) bound abs_triangle_ineq [of "net_amount c series" "pos_baseTradedAmount p"] by (intro fl_whole) auto
  with IH show ?case by simp
qed (simp add: summed_amount_def net_amount_def)

lemma whole_amounts_double: "whole_amounts series \<Longrightarrow> double_amounts series"
proof -
  assume whole: "whole_amounts series"
  have "\<bar>pos_baseTradedAmount p\<bar> \<le> (\<Sum>p \<leftarrow> series. \<bar>pos_baseTradedAmount p\<bar>)" if "p \<in> set series" for p
    using that by (intro member_le_sum_list) auto
  with whole have "\<bar>pos_baseTradedAmount p\<bar> < 2 ^ 53" if "p \<in> set series" for p
    using that by (fastforce simp only: whole_amounts_def intro: le_less_trans)
  with whole show ?thesis by (simp add: double_amounts_def whole_amounts_def fl_whole)
qed

lemma aggregate_sum:
  assumes "double_amounts series"
  shows "obj_get (foldl aggregatePosition [] series) c =
    (if c \<in> base_of ` set series then Some (summed_amount c series) else None)"
  using assms
proof (induction series arbitrary: c rule: rev_induct)
  case (snoc p series)
  then have IH: "obj_get (foldl aggregatePosition [] series) c =
      (if c \<in> base_of ` set series then Some (summed_amount c series) else None)" for c by (simp add: double_amounts_def)
  have p: "fl (pos_baseTradedAmount p) = pos_baseTradedAmount p" using snoc.prems by (simp add: double_amounts_def)
  have absent: "summed_amount (base_of p) series = 0" if "base_of p \<notin> base_of ` set series"
    using that by (rule summed_amount_absent)
  have "obj_get (foldl aggregatePosition [] (series @ [p])) c =
      obj_get (aggregatePosition (foldl aggregatePosition [] series) p) c" by simp
  then show ?case
    by (simp only: aggregatePosition_def [of "foldl aggregatePosition [] series"] Let_def obj_get_set IH)
       (auto simp: obj_get_set IH p absent)
qed simp

lemma positions_sum:
  assumes "double_amounts series"
  shows "distinct (map fst (getPositionsDataFromSeries series))"
    and "(c, a) \<in> set (getPositionsDataFromSeries series) \<longleftrightarrow> a = summed_amount c series \<and> a \<noteq> 0"
proof -
  have ok: "distinct (map fst (foldl aggregatePosition [] series))"
    using aggregate_ok [of "[]" series] by (simp add: obj_ok_def)
  then show "distinct (map fst (getPositionsDataFromSeries series))"
    by (simp add: getPositionsDataFromSeries_def distinct_map_filter)
  have "summed_amount c series = 0" if "c \<notin> base_of ` set series"
    using that by (rule summed_amount_absent)
  moreover have "(c, a) \<in> set (foldl aggregatePosition [] series) \<longleftrightarrow> c \<in> base_of ` set series \<and> a = summed_amount c series"
    unfolding map_of_eq_Some_iff [OF ok, symmetric] aggregate_sum [OF assms] by auto
  ultimately show "(c, a) \<in> set (getPositionsDataFromSeries series) \<longleftrightarrow> a = summed_amount c series \<and> a \<noteq> 0"
    by (auto simp: getPositionsDataFromSeries_def)
qed

lemma positions_net:
  assumes "whole_amounts series"
  shows "distinct (map fst (getPositionsDataFromSeries series))"
    and "(c, a) \<in> set (getPositionsDataFromSeries series) \<longleftrightarrow> a = net_amount c series \<and> a \<noteq> 0"
  using positions_sum [OF whole_amounts_double [OF assms]] by (simp_all add: summed_amount_whole [OF assms])

section \<open>Lemmas: circles\<close>

lemma find_result: "find p xs = Some x \<Longrightarrow> p x"
  by (auto simp: find_Some_iff)

lemma updateBubble_simps [simp]:
  "bub_id (updateBubble scale_x scale_r nodes index symbol amount) = symbol"
  "bub_r (updateBubble scale_x scale_r nodes index symbol amount) = scale_r \<bar>amount\<bar>"
  "bub_color (updateBubble scale_x scale_r nodes index symbol amount) = (if amount > 0 then ''#6db910'' else ''#d90a0a'')"
  "bub_position (updateBubble scale_x scale_r nodes index symbol amount) =
     (case find (\<lambda>n. bub_id n = symbol) nodes of Some old \<Rightarrow> bub_position old | None \<Rightarrow> None)"
  by (cases "find (\<lambda>n. bub_id n = symbol) nodes";
      auto simp: updateBubble_def getRadius_def Let_def dest: find_result)+

lemma updateBubbles_map:
  "updateBubbles scale_x scale_r nodes series =
     map (\<lambda>(index, symbol, amount). updateBubble scale_x scale_r nodes index symbol amount)
       (enumerate 0 (getPositionsDataFromSeries series))"
  by (fastforce simp: updateBubbles_def Let_def find_index_None_iff in_set_enumerate_eq filter_id_conv
      dest: nth_mem)

lemma bubble_members:
  assumes "node \<in> set (updateBubbles scale_x scale_r nodes series)"
  obtains index symbol amount where "(symbol, amount) \<in> set (getPositionsDataFromSeries series)"
    "node = updateBubble scale_x scale_r nodes index symbol amount"
  using assms by (fastforce simp: updateBubbles_map in_set_enumerate_eq dest: nth_mem)

lemma bubble_ids: "map bub_id (updateBubbles scale_x scale_r nodes series) = map fst (getPositionsDataFromSeries series)"
proof -
  have "map bub_id (updateBubbles scale_x scale_r nodes series) =
      map fst (map snd (enumerate 0 (getPositionsDataFromSeries series)))"
    by (simp add: updateBubbles_map split_beta del: map_snd_enumerate)
  then show ?thesis by simp
qed

section \<open>Properties\<close>

text \<open>An update of the history never fails. The chart shows every known value, in order and with two
  decimals, skips the unknown ones, labels the last one, and its bounds are the least and the greatest
  of the values and zero, so that every point and the zero line are in view.\<close>

theorem pnl_chart_in_view:
  "\<exists>chart'. pnl_chart_update chart positions = Inr chart'
    \<and> map pp_x (pnl_seriesData chart') = map fst (known_pnls positions)
    \<and> map (Inr \<circ> pp_y) (pnl_seriesData chart') = map (\<lambda>(d, v). toFixed v 2) (known_pnls positions)
    \<and> pnl_lastPos chart' = (if known_pnls positions = [] then None else Some (pp_y (last (pnl_seriesData chart'))))
    \<and> pnl_minPnl chart' = Some (Min (insert 0 (snd ` set (known_pnls positions))))
    \<and> pnl_maxPnl chart' = Some (Max (insert 0 (snd ` set (known_pnls positions))))"
  by (auto simp: pnl_chart_update_def processUpdate_value toFixed_two last_map o_def split_beta)

text \<open>The positions chart has exactly one circle for every base currency whose positions do not net out,
  sized by the net amount and coloured by its sign, and a circle that was there keeps its place. Whole
  amounts that fit a double are netted exactly, also when a partial sum is zero.\<close>

theorem bubbles_show_net_positions:
  assumes "whole_amounts series"
  shows "distinct (map bub_id (updateBubbles scale_x scale_r nodes series))
    \<and> bub_id ` set (updateBubbles scale_x scale_r nodes series) = {c. net_amount c series \<noteq> 0}
    \<and> (\<forall>node \<in> set (updateBubbles scale_x scale_r nodes series).
         bub_r node = scale_r \<bar>net_amount (bub_id node) series\<bar>
       \<and> bub_color node = (if net_amount (bub_id node) series > 0 then ''#6db910'' else ''#d90a0a'')
       \<and> bub_position node = (case find (\<lambda>n. bub_id n = bub_id node) nodes of Some old \<Rightarrow> bub_position old | None \<Rightarrow> None))"
proof -
  note net = positions_net [OF assms]
  have "bub_id ` set (updateBubbles scale_x scale_r nodes series) = fst ` set (getPositionsDataFromSeries series)"
    by (metis bubble_ids set_map)
  also have "\<dots> = {c. net_amount c series \<noteq> 0}" using net(2) by force
  finally show ?thesis
    using net by (auto simp: bubble_ids elim!: bubble_members)
qed

definition example_position :: "string \<Rightarrow> rat \<Rightarrow> currency_pair_position" where
  "example_position s amount = \<lparr>pos_symbol = s, pos_basePnl = 0, pos_baseTradedAmount = amount,
     pos_currencyPair = new_currency_pair s 5 4\<rparr>"

definition example_series :: "currency_pair_position list" where
  "example_series = [example_position ''EURUSD'' 5, example_position ''EURJPY'' (- 5), example_position ''EURGBP'' 3,
     example_position ''GBPUSD'' (- 2)]"

lemma bubbles_show_net_positions_witness:
  "bub_id ` set (updateBubbles (\<lambda>i. Num 0) (\<lambda>x. x) [] example_series) = {''EUR'', ''GBP''}"
proof -
  have "whole_amounts example_series"
    by (simp add: whole_amounts_def example_series_def example_position_def)
  moreover have "{c. net_amount c example_series \<noteq> 0} = {''EUR'', ''GBP''}"
    by (auto simp: net_amount_def example_series_def example_position_def new_currency_pair_def js_substr_def Let_def)
  ultimately show ?thesis using bubbles_show_net_positions [of example_series "\<lambda>i. Num 0" "\<lambda>x. x" "[]"] by simp
qed

text \<open>Decimal amounts that net to zero need not come to zero: a tenth and two tenths less three tenths.\<close>

lemma rounded_tenths:
  "fl (1 / 10) = 3602879701896397 / 36028797018963968" "fl (1 / 5) = 3602879701896397 / 18014398509481984"
  "fl (3 / 10) = 5404319552844595 / 18014398509481984"
  "fl (10808639105689191 / 36028797018963968) = 1351079888211149 / 4503599627370496"
  "fl (1 / 18014398509481984) = 1 / 18014398509481984"
proof -
  have floor: "\<lfloor>numeral a / numeral b :: rat\<rfloor> = numeral a div numeral b" for a b
    using floor_divide_of_int_eq [of "numeral a" "numeral b"] by simp
  have "exponent2 (1 / 10) = - 4" by (rule exponent2_unique) simp_all
  then show "fl (1 / 10) = 3602879701896397 / 36028797018963968" by (simp add: fl_def round_half_even_def Let_def floor)
  have "exponent2 (1 / 5) = - 3" by (rule exponent2_unique) simp_all
  then show "fl (1 / 5) = 3602879701896397 / 18014398509481984" by (simp add: fl_def round_half_even_def Let_def floor)
  have "exponent2 (3 / 10) = - 2" by (rule exponent2_unique) simp_all
  then show "fl (3 / 10) = 5404319552844595 / 18014398509481984" by (simp add: fl_def round_half_even_def Let_def floor)
  have "exponent2 (10808639105689191 / 36028797018963968) = - 2" by (rule exponent2_unique) simp_all
  then show "fl (10808639105689191 / 36028797018963968) = 1351079888211149 / 4503599627370496"
    by (simp add: fl_def round_half_even_def Let_def floor)
  show "fl (1 / 18014398509481984) = 1 / 18014398509481984" using fl_representable [of 1 "- 54"] by simp
qed

lemma rounding_leaves_a_position:
  "getPositionsDataFromSeries [example_position ''EURUSD'' (fl (1 / 10)), example_position ''EURJPY'' (fl (2 / 10)),
     example_position ''EURGBP'' (- fl (3 / 10))] = [(''EUR'', 1 / 2 ^ 54)]"
  by (simp add: rounded_tenths getPositionsDataFromSeries_def aggregatePosition_def example_position_def new_currency_pair_def
      js_substr_def Let_def)

end
