(* ===== verification/TileLoader.thy ===== *)
theory TileLoader imports ReferenceData begin

text \<open>
  \<open>ui/spotTile/spotTileLoader.js\<close> and \<open>ui/spotTile/spotTileFactory.js\<close>: a tile for every currency pair of
  the reference data. A tile is known here by the id its model registers with the router and by the
  pair it was made for; the model itself is the theory \<open>SpotTile\<close>. The batches the loader sees are
  those the reference data service publishes. What the router of \<open>esp-js\<close> throws when a model is added to it is a
  parameter.
\<close>

section \<open>The loader\<close>

text \<open>What \<open>addModel\<close> throws, if it does, for a model id after the ids it has been given before. Nothing takes a tile's
  model out of the router: the loader never disposes of it. \<open>registers_once\<close> is the router's contract: an id can be
  registered with one model at a time.\<close>

type_synonym model_router = "string list \<Rightarrow> string \<Rightarrow> js_error option"

definition registers_once :: "model_router \<Rightarrow> bool" where
  "registers_once addModel \<longleftrightarrow> (\<forall>ids modelId. (addModel ids modelId = None) = (modelId \<notin> set ids))"

record open_tile =
  ot_modelId :: string
  ot_currencyPair :: currency_pair

type_synonym tile_registry = "open_tile object"

text \<open>The tiles, the models in the router, and the exception that ended the subscription to the updates (Rx disposes of a
  subscription whose \<open>onNext\<close> throws).\<close>

record tile_loader =
  tl_tiles :: tile_registry
  tl_added :: "string list"
  tl_failed :: "js_error option"

definition new_tile_loader :: tile_loader where
  "new_tile_loader = \<lparr>tl_tiles = [], tl_added = [], tl_failed = None\<rparr>"

definition createSpotTileModelId :: "string \<Rightarrow> string" where
  "createSpotTileModelId symbol = ''spotTile-'' @ symbol"

definition tile_observeEvents :: "model_router \<Rightarrow> string \<Rightarrow> string list \<Rightarrow> string list result" where
  "tile_observeEvents addModel modelId added =
     (case addModel added modelId of Some e \<Rightarrow> Inl e | None \<Rightarrow> Inr (modelId # added))"

definition createTileModel :: "model_router \<Rightarrow> currency_pair \<Rightarrow> string list \<Rightarrow> (open_tile \<times> string list) result" where
  "createTileModel addModel pair added =
     (let tile = \<lparr>ot_modelId = createSpotTileModelId (cp_symbol pair), ot_currencyPair = pair\<rparr>
      in bind_result (tile_observeEvents addModel (ot_modelId tile) added) (\<lambda>added'. Inr (tile, added')))"

datatype loader_call =
    CreateTile string currency_pair
  | PublishInit string
  | PublishTileClosed string

text \<open>One turn of the loop over a batch. An exception ends the loop and everything after it.\<close>

fun loader_update :: "model_router \<Rightarrow> (tile_loader, currency_pair_update, loader_call) handler" where
  "loader_update addModel st u =
     (let symbol = cp_symbol (cpu_currencyPair u)
      in if tl_failed st \<noteq> None then (st, [])
         else if cpu_updateType u = Added \<and> \<not> obj_has (tl_tiles st) symbol
         then (case createTileModel addModel (cpu_currencyPair u) (tl_added st) of
                 Inl e \<Rightarrow> (st\<lparr>tl_failed := Some e\<rparr>, [])
               | Inr (tile, added) \<Rightarrow>
                   (st\<lparr>tl_tiles := obj_set symbol tile (tl_tiles st), tl_added := added\<rparr>,
                    [CreateTile (ot_modelId tile) (cpu_currencyPair u), PublishInit (ot_modelId tile)]))
         else if cpu_updateType u = Removed \<and> obj_has (tl_tiles st) symbol
         then (case obj_get (tl_tiles st) symbol of
                 Some tile \<Rightarrow> (st\<lparr>tl_tiles := obj_delete symbol (tl_tiles st)\<rparr>, [PublishTileClosed (ot_modelId tile)])
               | None \<Rightarrow> (st, []))
         else (st, []))"

declare loader_update.simps [simp del]

definition processCurrencyPairUpdate :: "model_router \<Rightarrow> (tile_loader, currency_pair_updates, loader_call) handler" where
  "processCurrencyPairUpdate addModel st us = run (loader_update addModel) st (cpus_currencyPairUpdates us)"

text \<open>A pair comes back when it is added after it was added and removed.\<close>

definition added_later :: "string \<Rightarrow> currency_pair_update list \<Rightarrow> bool" where
  "added_later symbol us = list_ex (\<lambda>u. cpu_updateType u = Added \<and> cp_symbol (cpu_currencyPair u) = symbol) us"

fun removed_then_added :: "string \<Rightarrow> currency_pair_update list \<Rightarrow> bool" where
  "removed_then_added symbol [] = False"
| "removed_then_added symbol (u # us) =
     (cpu_updateType u = Removed \<and> cp_symbol (cpu_currencyPair u) = symbol \<and> added_later symbol us
      \<or> removed_then_added symbol us)"

fun comes_back :: "currency_pair_update list \<Rightarrow> bool" where
  "comes_back [] = False"
| "comes_back (u # us) =
     (cpu_updateType u = Added \<and> removed_then_added (cp_symbol (cpu_currencyPair u)) us \<or> comes_back us)"

section \<open>Lemmas\<close>

lemma tile_id_inject [simp]: "createSpotTileModelId s = createSpotTileModelId s' \<longleftrightarrow> s = s'"
  by (simp add: createSpotTileModelId_def)

lemma createTileModel_cases:
  "createTileModel addModel pair added =
     (case addModel added (createSpotTileModelId (cp_symbol pair)) of
        Some e \<Rightarrow> Inl e
      | None \<Rightarrow> Inr (\<lparr>ot_modelId = createSpotTileModelId (cp_symbol pair), ot_currencyPair = pair\<rparr>,
                    createSpotTileModelId (cp_symbol pair) # added))"
  by (simp add: createTileModel_def tile_observeEvents_def split: option.split)

definition registry_ok :: "tile_registry \<Rightarrow> bool" where
  "registry_ok registry \<longleftrightarrow> obj_ok registry
     \<and> (\<forall>s t. obj_get registry s = Some t \<longrightarrow> ot_modelId t = createSpotTileModelId s \<and> cp_symbol (ot_currencyPair t) = s)"

definition loader_ok :: "tile_loader \<Rightarrow> bool" where
  "loader_ok st \<longleftrightarrow> registry_ok (tl_tiles st)
     \<and> (\<forall>s. obj_has (tl_tiles st) s \<longrightarrow> createSpotTileModelId s \<in> set (tl_added st))"

lemma new_loader_empty [simp]: "\<not> obj_has (tl_tiles new_tile_loader) s" "tl_failed new_tile_loader = None" "tl_added new_tile_loader = []"
  by (simp_all add: new_tile_loader_def obj_has_def)

lemma loader_ok_new [simp]: "loader_ok new_tile_loader"
  by (simp add: loader_ok_def registry_ok_def new_tile_loader_def obj_has_def)

lemma loader_ok_update: "loader_ok st \<Longrightarrow> loader_ok (fst (loader_update addModel st u))"
  by (auto simp: loader_ok_def registry_ok_def loader_update.simps createTileModel_cases Let_def obj_has_def obj_get_set obj_get_delete
      split: option.split)

interpretation loader: guarded_handler "loader_update addModel" loader_ok "\<lambda>call. True" for addModel
  by unfold_locales (simp_all add: loader_ok_update)

lemma loader_failed [simp]: "tl_failed st = Some e \<Longrightarrow> loader_update addModel st u = (st, [])"
  by (simp add: loader_update.simps Let_def)

lemma loader_failed_run: "tl_failed st = Some e \<Longrightarrow> run (loader_update addModel) st us = (st, [])"
  by (induction us) (simp_all add: prod_eq_iff)

lemma loader_not_failed: "tl_failed (fst (loader_update addModel st u)) = None \<Longrightarrow> tl_failed st = None"
  by (cases "tl_failed st") simp_all

lemma loader_not_failed_run: "tl_failed (final_state (loader_update addModel) st us) = None \<Longrightarrow> tl_failed st = None"
  by (cases "tl_failed st") (simp_all add: loader_failed_run)

lemma loader_symbols:
  assumes "tl_failed (fst (loader_update addModel st u)) = None"
  shows "obj_has (tl_tiles (fst (loader_update addModel st u))) s \<longleftrightarrow>
     (if cp_symbol (cpu_currencyPair u) = s then cpu_updateType u = Added else obj_has (tl_tiles st) s)"
  using assms loader_not_failed [OF assms]
  by (cases "cpu_updateType u")
     (auto simp: loader_update.simps createTileModel_cases Let_def obj_has_def obj_get_set obj_get_delete split: option.splits)

text \<open>As long as it has not failed, the loader has the symbols of the reference data's pairs.\<close>

lemma loader_follows:
  assumes "dom m = {s. obj_has (tl_tiles st) s}" "tl_failed (final_state (loader_update addModel) st us) = None"
  shows "dom (fold spec_update us m) = {s. obj_has (tl_tiles (final_state (loader_update addModel) st us)) s}"
  using assms
proof (induction us arbitrary: m st)
  case (Cons u us)
  then have working: "tl_failed (fst (loader_update addModel st u)) = None" using loader_not_failed_run by simp
  have "dom (spec_update u m) = {s. obj_has (tl_tiles (fst (loader_update addModel st u))) s}"
    using Cons.prems(1) by (cases "cpu_updateType u") (auto simp: spec_update_def loader_symbols [OF working] dom_def)
  from Cons.IH [OF this] Cons.prems(2) show ?case by simp
qed simp

text \<open>It fails when a pair comes back and only then.\<close>

definition works :: "tile_loader \<Rightarrow> currency_pair_update list \<Rightarrow> bool" where
  "works st us \<longleftrightarrow> \<not> comes_back us
     \<and> (\<forall>s. (createSpotTileModelId s \<in> set (tl_added st) \<and> \<not> obj_has (tl_tiles st) s \<longrightarrow> \<not> added_later s us)
          \<and> (obj_has (tl_tiles st) s \<longrightarrow> \<not> removed_then_added s us))"

lemma removed_then_added_later: "removed_then_added s us \<Longrightarrow> added_later s us"
  by (induction us) (auto simp: added_later_def)

lemma loader_works_step:
  assumes "registers_once addModel" "loader_ok st" "tl_failed st = None"
  shows "works st (u # us) \<longleftrightarrow>
    tl_failed (fst (loader_update addModel st u)) = None \<and> works (fst (loader_update addModel st u)) us"
proof -
  let ?s = "cp_symbol (cpu_currencyPair u)"
  have later: "added_later s (u # us) \<longleftrightarrow> cpu_updateType u = Added \<and> ?s = s \<or> added_later s us" for s
    by (simp add: added_later_def)
  have router: "(addModel (tl_added st) i = None) = (i \<notin> set (tl_added st))" for i
    using assms(1) by (simp add: registers_once_def)
  consider "cpu_updateType u = Added" "obj_has (tl_tiles st) ?s"
    | "cpu_updateType u = Added" "\<not> obj_has (tl_tiles st) ?s" "createSpotTileModelId ?s \<in> set (tl_added st)"
    | "cpu_updateType u = Added" "\<not> obj_has (tl_tiles st) ?s" "createSpotTileModelId ?s \<notin> set (tl_added st)"
    | "cpu_updateType u = Removed" "obj_has (tl_tiles st) ?s"
    | "cpu_updateType u = Removed" "\<not> obj_has (tl_tiles st) ?s"
    by (cases "cpu_updateType u") auto
  then show ?thesis
  proof cases
    case 1
    then have "loader_update addModel st u = (st, [])" using assms(3) by (simp add: loader_update.simps Let_def)
    with 1 assms(3) show ?thesis by (auto simp: works_def later)
  next
    case 2
    then obtain e where "addModel (tl_added st) (createSpotTileModelId ?s) = Some e" using router by fastforce
    then have "loader_update addModel st u = (st\<lparr>tl_failed := Some e\<rparr>, [])"
      using 2 assms(3) by (simp add: loader_update.simps createTileModel_cases Let_def)
    with 2 show ?thesis by (auto simp: works_def later)
  next
    case 3
    define st' where "st' = fst (loader_update addModel st u)"
    have "addModel (tl_added st) (createSpotTileModelId ?s) = None" using 3 router by simp
    then have st': "tl_failed st' = None" "tl_added st' = createSpotTileModelId ?s # tl_added st"
      "\<And>s. obj_has (tl_tiles st') s \<longleftrightarrow> s = ?s \<or> obj_has (tl_tiles st) s"
      using 3 assms(3) by (auto simp: st'_def loader_update.simps createTileModel_cases Let_def obj_has_def obj_get_set)
    show ?thesis unfolding st'_def [symmetric] using 3 st' by (auto simp: works_def later)
  next
    case 4
    define st' where "st' = fst (loader_update addModel st u)"
    have st': "tl_failed st' = None" "tl_added st' = tl_added st"
      "\<And>s. obj_has (tl_tiles st') s \<longleftrightarrow> s \<noteq> ?s \<and> obj_has (tl_tiles st) s"
      using 4 assms(3) by (auto simp: st'_def loader_update.simps Let_def obj_has_def obj_get_delete split: if_splits)
    have "createSpotTileModelId ?s \<in> set (tl_added st)" using 4 assms(2) by (simp add: loader_ok_def)
    then show ?thesis unfolding st'_def [symmetric] using 4 st' removed_then_added_later [of ?s us]
      by (auto simp: works_def later)
  next
    case 5
    then have "loader_update addModel st u = (st, [])" using assms(3) by (simp add: loader_update.simps Let_def)
    with 5 assms(3) show ?thesis by (auto simp: works_def later)
  qed
qed

lemma loader_works:
  "registers_once addModel \<Longrightarrow> loader_ok st \<Longrightarrow> tl_failed st = None \<Longrightarrow>
     tl_failed (final_state (loader_update addModel) st us) = None \<longleftrightarrow> works st us"
proof (induction us arbitrary: st)
  case (Cons u us)
  note step = loader_works_step [OF Cons.prems, of u us]
  show ?case
  proof (cases "tl_failed (fst (loader_update addModel st u))")
    case None
    with Cons.IH [OF Cons.prems(1) loader_ok_update [OF Cons.prems(2)] None] step show ?thesis by simp
  next
    case (Some e)
    with step show ?thesis by (simp add: loader_failed_run)
  qed
qed (simp add: works_def added_later_def)

lemma loader_fails_on_comeback:
  "registers_once addModel \<Longrightarrow> tl_failed (final_state (loader_update addModel) new_tile_loader us) = None \<longleftrightarrow> \<not> comes_back us"
  by (subst loader_works) (simp_all add: works_def)

lemma loader_batches:
  "run (processCurrencyPairUpdate addModel) r uss = run (loader_update addModel) r (concat (map cpus_currencyPairUpdates uss))"
proof (induction uss arbitrary: r)
  case (Cons us uss)
  have "fst (run (processCurrencyPairUpdate addModel) r (us # uss)) = fst (run (loader_update addModel) r (concat (map cpus_currencyPairUpdates (us # uss))))"
    "snd (run (processCurrencyPairUpdate addModel) r (us # uss)) = snd (run (loader_update addModel) r (concat (map cpus_currencyPairUpdates (us # uss))))"
    by (simp_all add: processCurrencyPairUpdate_def Cons.IH run_append)
  then show ?case by (simp add: prod_eq_iff)
qed simp

text \<open>The batches the reference data service publishes.\<close>

fun published :: "rd_call list \<Rightarrow> currency_pair_updates list" where
  "published [] = []"
| "published (UpdatesNext us # calls) = us # published calls"
| "published (call # calls) = published calls"

lemma published_append [simp]: "published (xs @ ys) = published xs @ published ys"
  by (induction xs rule: published.induct) simp_all

lemma published_updateCache [simp]: "published (snd (updateCache st us)) = []"
  by (simp add: updateCache_def Let_def)

lemma published_stopped: "rd_stopped st \<Longrightarrow> published (outputs reference_step st evs) = []"
proof (induction evs arbitrary: st)
  case (Cons ev evs)
  then have "rd_stopped (fst (reference_step st ev)) \<and> published (snd (reference_step st ev)) = []"
    by (cases ev) simp_all
  with Cons.IH show ?case by simp
qed simp

lemma published_delivered:
  "\<not> rd_stopped st \<Longrightarrow> published (outputs reference_step st evs) = delivered_updates evs"
proof (induction evs arbitrary: st)
  case (Cons ev evs)
  then show ?case by (cases ev) (auto simp: split_beta Let_def published_stopped split: sum.split)
qed simp

text \<open>The life of a tile: made and started, then closed, in turns. The flag tells whether it is open.\<close>

fun tile_life :: "bool \<Rightarrow> loader_call list \<Rightarrow> bool option" where
  "tile_life up [] = Some up"
| "tile_life False (CreateTile i p # PublishInit j # calls) = (if i = j then tile_life True calls else None)"
| "tile_life True (PublishTileClosed i # calls) = tile_life False calls"
| "tile_life up calls = None"

fun loader_call_id :: "loader_call \<Rightarrow> string" where
  "loader_call_id (CreateTile i p) = i"
| "loader_call_id (PublishInit i) = i"
| "loader_call_id (PublishTileClosed i) = i"

lemma tile_life_step:
  assumes "loader_ok st"
  shows "tile_life (obj_has (tl_tiles st) s) (filter (\<lambda>c. loader_call_id c = createSpotTileModelId s) (snd (loader_update addModel st u)) @ cs)
    = tile_life (obj_has (tl_tiles (fst (loader_update addModel st u))) s) cs"
proof -
  have "ot_modelId t = createSpotTileModelId (cp_symbol (cpu_currencyPair u))"
    if "obj_get (tl_tiles st) (cp_symbol (cpu_currencyPair u)) = Some t" for t
    using assms that by (simp add: loader_ok_def registry_ok_def)
  then show ?thesis
    by (auto simp: loader_update.simps createTileModel_cases obj_has_def obj_get_set obj_get_delete Let_def split: option.split)
qed

lemma tile_life_run:
  "loader_ok st \<Longrightarrow>
     tile_life (obj_has (tl_tiles st) s) (filter (\<lambda>c. loader_call_id c = createSpotTileModelId s) (outputs (loader_update addModel) st us))
       = Some (obj_has (tl_tiles (final_state (loader_update addModel) st us)) s)"
proof (induction us arbitrary: st)
  case (Cons u us)
  then show ?case using tile_life_step [OF Cons.prems, of s addModel u] loader_ok_update [OF Cons.prems, of addModel u] by simp
qed simp

section \<open>Properties\<close>

text \<open>C39: the workspace has a tile for exactly the pairs the reference data service knows, as long as no pair comes back
  after it was removed. The loader processes the batches the service publishes, so after any such run it has not failed and
  a symbol has a tile exactly when looking it up in the service's cache succeeds. When a pair does come back the router
  refuses the second model of its id and the loader stops for good, since the first model is never disposed of.\<close>

theorem tiles_follow_reference_data:
  assumes "registers_once addModel"
    and "\<forall>us \<in> set (delivered_updates evs). plain_updates us" "symbol \<noteq> ''hasLoaded''"
    and "loader = final_state (processCurrencyPairUpdate addModel) new_tile_loader (published (outputs reference_step new_reference_data evs))"
  shows "if comes_back (concat (map cpus_currencyPairUpdates (delivered_updates evs)))
    then tl_failed loader \<noteq> None \<and> run (processCurrencyPairUpdate addModel) loader later = (loader, [])
    else tl_failed loader = None \<and> (obj_has (tl_tiles loader) symbol \<longleftrightarrow>
      (\<exists>pair. getCurrencyPair (final_state reference_step new_reference_data evs) symbol = Inr (Pair pair)))"
proof -
  let ?us = "concat (map cpus_currencyPairUpdates (delivered_updates evs))"
  let ?m = "fold spec_update ?us Map.empty"
  have loader: "loader = final_state (loader_update addModel) new_tile_loader ?us"
    by (simp add: assms(4) published_delivered loader_batches)
  note fails = loader_fails_on_comeback [OF assms(1), of ?us, folded loader]
  have tile: "obj_has (tl_tiles loader) symbol \<longleftrightarrow> symbol \<in> dom ?m" if "\<not> comes_back ?us"
    using loader_follows [of Map.empty new_tile_loader addModel ?us] fails that
    by (simp add: loader [symmetric])
  have loaded: "\<exists>us \<in> set (delivered_updates evs). cpus_currencyPairUpdates us \<noteq> []" if "?m symbol = Some pair" for pair
  proof (rule ccontr)
    assume "\<not> (\<exists>us \<in> set (delivered_updates evs). cpus_currencyPairUpdates us \<noteq> [])"
    then have "?us = []" by simp
    with that show False by simp
  qed
  have look: "getCurrencyPair (final_state reference_step new_reference_data evs) symbol = map_sum id Pair
      (spec_lookup (\<exists>us \<in> set (delivered_updates evs). cpus_currencyPairUpdates us \<noteq> []) ?m symbol)"
    using reference_run [OF reference_ok_new _ assms(2)] getCurrencyPair_spec [OF _ assms(3)] by simp
  have known: "(\<exists>pair. getCurrencyPair (final_state reference_step new_reference_data evs) symbol = Inr (Pair pair)) \<longleftrightarrow> symbol \<in> dom ?m"
  proof (cases "?m symbol")
    case None
    then show ?thesis unfolding look by (simp add: spec_lookup_def dom_def)
  next
    case (Some pair)
    with loaded [OF Some] show ?thesis unfolding look by (simp add: spec_lookup_def dom_def)
  qed
  have "run (processCurrencyPairUpdate addModel) loader later = (loader, [])" if "tl_failed loader \<noteq> None"
    using that by (auto simp: loader_batches loader_failed_run)
  with fails tile known show ?thesis by simp
qed

definition example_router :: model_router where
  "example_router ids modelId = (if modelId \<in> set ids then Some (Error ''already registered'') else None)"

lemma example_router_ok: "registers_once example_router"
  by (simp add: registers_once_def example_router_def)

lemma tiles_follow_reference_data_witness:
  "obj_has (tl_tiles (final_state (processCurrencyPairUpdate example_router) new_tile_loader (published (outputs reference_step new_reference_data
     [Load, example_updates [(''Added'', ''EURUSD''), (''Added'', ''GBPUSD'')], example_updates [(''Removed'', ''GBPUSD'')]])))) ''EURUSD''"
proof -
  let ?evs = "[Load, example_updates [(''Added'', ''EURUSD''), (''Added'', ''GBPUSD'')], example_updates [(''Removed'', ''GBPUSD'')]]"
  note examples = example_updates_def mapCurrencyPairsFromDto_def mapUpdatesFromDto_def mapUpdateType_def
      mapFromCurrencyPairFromDto_def plain_updates_def updateCache_def getCurrencyPair_def cache_hasLoaded_def
      new_reference_data_def new_currency_pair_def Let_def obj_get_set obj_get_delete obj_has_def
  have "\<forall>us \<in> set (delivered_updates ?evs). plain_updates us" by (auto simp: examples)
  moreover have "\<not> comes_back (concat (map cpus_currencyPairUpdates (delivered_updates ?evs)))"
    by (auto simp: examples added_later_def)
  moreover have "\<exists>pair. getCurrencyPair (final_state reference_step new_reference_data ?evs) ''EURUSD'' = Inr (Pair pair)"
    by (auto simp: examples)
  ultimately show ?thesis
    using tiles_follow_reference_data [OF example_router_ok _ _ refl, of ?evs "''EURUSD''"] by simp
qed

text \<open>Whatever batches arrive, repeated additions and removals of unknown pairs included, the tile of a
  pair is made, started and closed in turns: none is started twice or closed without being open, and
  at the end it is open exactly when the registry has it.\<close>

theorem tile_lives_in_turns:
  "tile_life False (filter (\<lambda>c. loader_call_id c = createSpotTileModelId symbol) (outputs (processCurrencyPairUpdate addModel) new_tile_loader batches))
     = Some (obj_has (tl_tiles (final_state (processCurrencyPairUpdate addModel) new_tile_loader batches)) symbol)"
  using tile_life_run [of new_tile_loader symbol addModel "concat (map cpus_currencyPairUpdates batches)"]
  by (simp add: loader_batches)

end
