(* ===== verification/Regions.thy ===== *)
theory Regions imports JsObject JsNumber begin

text \<open>
  Where the views are: \<open>ui/regions/model\<close> (\<open>regionModel.js\<close>, \<open>singleItemRegionModel.js\<close>,
  \<open>popoutRegionModel.js\<close>, \<open>regionModelRegistration.js\<close>, \<open>regionOptions.js\<close>), \<open>ui/regions/regionManager.js\<close>,
  \<open>ui/regions/regionNames.js\<close>, \<open>ui/common/regionManagerHelper.js\<close>, \<open>services/model/regionSettings.js\<close> and the
  regions \<open>appBootstrapper.js\<close> sets up.

  A model is known by its id. The only callback the program ever registers with a region is the one
  \<open>regionManagerHelper.popout\<close> makes, which puts the model back where it came from, so a callback is
  the pair of region and model it closes over. The router runs the actions of the regions one after
  the other; a callback's own action runs after the one that called it. The stored state is the
  object \<open>localStorage\<close> holds as JSON under one key, \<open>None\<close> while there is none.
\<close>

section \<open>Registrations and regions\<close>

record region_settings =
  rs_title :: string
  rs_width :: nat
  rs_height :: nat
  rs_dockable :: bool

datatype region_callback = ReturnTo string string

record region_options =
  ro_displayContext :: "string option"
  ro_onExternallyRemovedCallback :: "region_callback option"
  ro_regionSettings :: "region_settings option"

record registration =
  reg_key :: string
  reg_model :: string
  reg_displayContext :: "string option"
  reg_onExternallyRemovedCallback :: "region_callback option"
  reg_regionSettings :: "region_settings option"

datatype region_kind = PlainRegion | SingleItemRegion | PopoutRegion

record region =
  rg_kind :: region_kind
  rg_regionName :: string
  rg_modelRegistrations :: "registration list"
  rg_isCollapsed :: bool

definition new_region :: "region_kind \<Rightarrow> string \<Rightarrow> region" where
  "new_region kind name = \<lparr>rg_kind = kind, rg_regionName = name, rg_modelRegistrations = [], rg_isCollapsed = False\<rparr>"

definition RegionNames_workspace :: string where "RegionNames_workspace = ''workspace''"

definition RegionNames_popout :: string where "RegionNames_popout = ''popout''"

definition RegionNames_blotter :: string where "RegionNames_blotter = ''blotter''"

definition RegionNames_sidebar :: string where "RegionNames_sidebar = ''sidebar''"

text \<open>The counter of keys is shared by all registrations.\<close>

definition new_registration :: "nat \<Rightarrow> string \<Rightarrow> region_options option \<Rightarrow> registration" where
  "new_registration key model options =
     \<lparr>reg_key = ''regionModelRegistration-'' @ dec_digits key, reg_model = model,
      reg_displayContext = (case options of None \<Rightarrow> None | Some o1 \<Rightarrow> ro_displayContext o1),
      reg_onExternallyRemovedCallback = (case options of None \<Rightarrow> None | Some o1 \<Rightarrow> ro_onExternallyRemovedCallback o1),
      reg_regionSettings = (case options of None \<Rightarrow> None | Some o1 \<Rightarrow> ro_regionSettings o1)\<rparr>"

definition base_addToRegion :: "nat \<Rightarrow> string \<Rightarrow> region_options option \<Rightarrow> region \<Rightarrow> region" where
  "base_addToRegion key model options r =
     r\<lparr>rg_modelRegistrations := rg_modelRegistrations r @ [new_registration key model options]\<rparr>"

definition matches :: "string \<Rightarrow> string option \<Rightarrow> registration \<Rightarrow> bool" where
  "matches model displayContext reg \<longleftrightarrow> reg_model reg = model \<and> reg_displayContext reg = displayContext"

text \<open>The second component is the callbacks called.\<close>

definition base_removeFromRegion ::
    "string \<Rightarrow> bool \<Rightarrow> string option \<Rightarrow> region \<Rightarrow> region \<times> region_callback list" where
  "base_removeFromRegion model wasExternallyRemoved displayContext r =
     (r\<lparr>rg_modelRegistrations := filter (\<lambda>reg. \<not> matches model displayContext reg) (rg_modelRegistrations r)\<rparr>,
      if wasExternallyRemoved
      then List.map_filter reg_onExternallyRemovedCallback (filter (matches model displayContext) (rg_modelRegistrations r))
      else [])"

definition region_removeFromRegion ::
    "string \<Rightarrow> bool \<Rightarrow> string option \<Rightarrow> region \<Rightarrow> region \<times> region_callback list" where
  "region_removeFromRegion model wasExternallyRemoved displayContext r =
     (case rg_kind r of
        SingleItemRegion \<Rightarrow> base_removeFromRegion model wasExternallyRemoved displayContext (r\<lparr>rg_isCollapsed := True\<rparr>)
      | _ \<Rightarrow> base_removeFromRegion model wasExternallyRemoved displayContext r)"

record popout_options =
  po_key :: string
  po_url :: string
  po_title :: string
  po_model :: string
  po_width :: nat
  po_height :: nat
  po_resizable :: bool
  po_scrollable :: bool
  po_dockable :: bool

datatype region_call =
    OpenPopout popout_options
  | RegionThrow js_error

definition popoutOptions_of :: "registration \<Rightarrow> region_settings option \<Rightarrow> popout_options" where
  "popoutOptions_of reg settings =
     \<lparr>po_key = reg_key reg, po_url = ''/#/popout'',
      po_title = (case settings of Some s \<Rightarrow> rs_title s | None \<Rightarrow> ''''),
      po_model = reg_model reg,
      po_width = (case reg_regionSettings reg of Some s \<Rightarrow> if rs_width s \<noteq> 0 then rs_width s else 400 | None \<Rightarrow> 400),
      po_height = (case reg_regionSettings reg of Some s \<Rightarrow> if rs_height s \<noteq> 0 then rs_height s else 400 | None \<Rightarrow> 400),
      po_resizable = False, po_scrollable = False,
      po_dockable = (case reg_regionSettings reg of Some s \<Rightarrow> rs_dockable s | None \<Rightarrow> False)\<rparr>"

text \<open>\<open>addToRegion\<close> of the three kinds. A region for one item drops what it has; a popout without
  options has been registered when reading its title throws.\<close>

fun region_addToRegion ::
    "region_kind \<Rightarrow> nat \<Rightarrow> string \<Rightarrow> region_options option \<Rightarrow> region \<Rightarrow> region \<times> region_callback list \<times> region_call list" where
  "region_addToRegion PlainRegion key model options r = (base_addToRegion key model options r, [], [])"
| "region_addToRegion SingleItemRegion key model options r =
     (let (r1, called) = (case rg_modelRegistrations r of
            [reg] \<Rightarrow> region_removeFromRegion (reg_model reg) True None r
          | _ \<Rightarrow> (r, []))
      in (base_addToRegion key model options (r1\<lparr>rg_modelRegistrations := [], rg_isCollapsed := False\<rparr>), called, []))"
| "region_addToRegion PopoutRegion key model options r =
     (base_addToRegion key model options r, [],
      case options of
        None \<Rightarrow> [RegionThrow (TypeError ''Cannot read property regionSettings of undefined'')]
      | Some o1 \<Rightarrow> [OpenPopout (popoutOptions_of (new_registration key model options) (ro_regionSettings o1))])"

definition toggleIsCollapsed :: "region \<Rightarrow> region" where
  "toggleIsCollapsed r = r\<lparr>rg_isCollapsed := \<not> rg_isCollapsed r\<rparr>"

definition hasContent :: "region \<Rightarrow> bool" where
  "hasContent r \<longleftrightarrow> length (rg_modelRegistrations r) = 1"

section \<open>The region manager\<close>

record region_manager =
  rm_regionsByName :: "region object"
  rm_persistRegionConfiguration :: bool
  rm_storage :: "string object option"
  rm_key :: nat

definition new_region_manager :: "region list \<Rightarrow> bool \<Rightarrow> string object option \<Rightarrow> region_manager" where
  "new_region_manager regions persist storage =
     \<lparr>rm_regionsByName = foldl (\<lambda>ob r. obj_set (rg_regionName r) r ob) [] regions,
      rm_persistRegionConfiguration = persist, rm_storage = storage, rm_key = 1\<rparr>"

definition stored :: "region_manager \<Rightarrow> string object" where
  "stored rm = (case rm_storage rm of None \<Rightarrow> [] | Some lookup \<Rightarrow> lookup)"

definition saveState :: "string \<Rightarrow> string \<Rightarrow> region_manager \<Rightarrow> region_manager" where
  "saveState regionName modelId rm = rm\<lparr>rm_storage := Some (obj_set modelId regionName (stored rm))\<rparr>"

definition shouldPopoutFromRegion :: "region_manager \<Rightarrow> string \<Rightarrow> string \<Rightarrow> bool" where
  "shouldPopoutFromRegion rm regionName modelId =
     (case obj_get (stored rm) modelId of None \<Rightarrow> False | Some saved \<Rightarrow> saved \<noteq> regionName)"

definition not_registered :: "string \<Rightarrow> region_call" where
  "not_registered regionName = RegionThrow (Error (''region with name '' @ regionName @ '' not registered''))"

definition manager_addToRegion ::
    "string \<Rightarrow> string \<Rightarrow> region_options option \<Rightarrow> bool \<Rightarrow> region_manager \<Rightarrow> region_manager \<times> region_callback list \<times> region_call list" where
  "manager_addToRegion regionName model options persistToLocalStorage rm =
     (case obj_get (rm_regionsByName rm) regionName of
        None \<Rightarrow> (rm, [], [not_registered regionName])
      | Some r \<Rightarrow>
          let (r', called, calls) = region_addToRegion (rg_kind r) (rm_key rm) model options r;
              rm' = rm\<lparr>rm_regionsByName := obj_set regionName r' (rm_regionsByName rm), rm_key := Suc (rm_key rm)\<rparr>
          in (if rm_persistRegionConfiguration rm \<and> persistToLocalStorage then saveState regionName model rm' else rm',
              called, calls))"

definition manager_removeFromRegion ::
    "string \<Rightarrow> string \<Rightarrow> string option \<Rightarrow> bool \<Rightarrow> region_manager \<Rightarrow> region_manager \<times> region_callback list \<times> region_call list" where
  "manager_removeFromRegion regionName model displayContext external rm =
     (case obj_get (rm_regionsByName rm) regionName of
        None \<Rightarrow> (rm, [], [not_registered regionName])
      | Some r \<Rightarrow>
          let (r', called) = region_removeFromRegion model external displayContext r
          in (rm\<lparr>rm_regionsByName := obj_set regionName r' (rm_regionsByName rm)\<rparr>, called, []))"

section \<open>Callbacks\<close>

text \<open>A callback adds its model to its region without options, and that may drop a registration whose own
  callback then runs. It ends because each call uses up one registered callback and registers none.\<close>

definition callbacks_in :: "region \<Rightarrow> nat" where
  "callbacks_in r = length (List.map_filter reg_onExternallyRemovedCallback (rg_modelRegistrations r))"

definition callback_count :: "region_manager \<Rightarrow> nat" where
  "callback_count rm = (\<Sum>(name, r) \<leftarrow> rm_regionsByName rm. callbacks_in r)"

lemma map_filter_length_split:
  "length (List.map_filter f (filter p xs)) + length (List.map_filter f (filter (\<lambda>x. \<not> p x) xs)) = length (List.map_filter f xs)"
  by (induction xs) (auto split: option.split)

lemma sum_update:
  "obj_get ob k = Some v \<Longrightarrow>
     (\<Sum>(n, r) \<leftarrow> obj_set k v' ob. f r) + f v = (\<Sum>(n, r) \<leftarrow> ob. f r) + (f v' :: nat)"
  by (induction ob) (auto split: if_splits)

lemma add_callbacks:
  assumes "region_addToRegion kind key model None r = (r', called, calls)"
  shows "callbacks_in r' + length called \<le> callbacks_in r"
proof (cases kind)
  case SingleItemRegion
  show ?thesis
  proof (cases "rg_modelRegistrations r")
    case (Cons reg regs)
    with SingleItemRegion assms show ?thesis
      by (cases regs)
        (auto simp: region_removeFromRegion_def base_removeFromRegion_def base_addToRegion_def new_registration_def
          callbacks_in_def matches_def split: region_kind.splits option.splits)
  qed (use SingleItemRegion assms in \<open>auto simp: base_addToRegion_def new_registration_def callbacks_in_def\<close>)
qed (use assms in \<open>auto simp: base_addToRegion_def new_registration_def callbacks_in_def map_filter_def\<close>)

lemma manager_add_callbacks:
  assumes "manager_addToRegion name model None persist rm = (rm', called, calls)"
  shows "callback_count rm' + length called \<le> callback_count rm"
proof (cases "obj_get (rm_regionsByName rm) name")
  case (Some r)
  obtain r' cs os where add: "region_addToRegion (rg_kind r) (rm_key rm) model None r = (r', cs, os)"
    by (metis prod_cases3)
  have "callback_count (rm\<lparr>rm_regionsByName := obj_set name r' (rm_regionsByName rm), rm_key := k, rm_storage := s\<rparr>) + callbacks_in r
      = callback_count rm + callbacks_in r'" for k s
    using sum_update [OF Some, of callbacks_in r'] by (simp add: callback_count_def)
  note count = this [of "rm_storage rm'" "Suc (rm_key rm)"]
  have "rm' = rm\<lparr>rm_regionsByName := obj_set name r' (rm_regionsByName rm), rm_key := Suc (rm_key rm), rm_storage := rm_storage rm'\<rparr>"
    "called = cs"
    using assms Some add by (auto simp: manager_addToRegion_def saveState_def Let_def split: if_splits)
  with count add_callbacks [OF add] show ?thesis by simp
qed (use assms in \<open>simp add: manager_addToRegion_def\<close>)

function run_callbacks :: "region_callback list \<Rightarrow> region_manager \<Rightarrow> region_manager \<times> region_call list" where
  "run_callbacks [] rm = (rm, [])"
| "run_callbacks (ReturnTo regionName model # cbs) rm =
     (let (rm', called, calls) = manager_addToRegion regionName model None True rm;
          (rm'', calls') = run_callbacks (cbs @ called) rm'
      in (rm'', calls @ calls'))"
  by pat_completeness auto

termination
proof (relation "measure (\<lambda>(cbs, rm). length cbs + callback_count rm)", goal_cases)
  case (2 regionName model cbs rm x rm' y called calls)
  then show ?case using manager_add_callbacks [of regionName model True rm rm' called calls] by simp
qed simp

section \<open>The models' view of the regions\<close>

record region_helper =
  hp_regionName :: string
  hp_model :: string
  hp_regionSettings :: region_settings

definition helper_addToRegion :: "region_helper \<Rightarrow> region_manager \<Rightarrow> region_manager \<times> region_call list" where
  "helper_addToRegion h rm =
     (let (rm1, called, calls) = manager_addToRegion (hp_regionName h) (hp_model h) None False rm;
          (rm2, calls') = run_callbacks called rm1
      in (rm2, calls @ calls'))"

definition helper_removeFromRegion :: "region_helper \<Rightarrow> region_manager \<Rightarrow> region_manager \<times> region_call list" where
  "helper_removeFromRegion h rm =
     (let (rm1, called, calls) = manager_removeFromRegion (hp_regionName h) (hp_model h) None False rm in (rm1, calls))"

definition helper_popout :: "region_helper \<Rightarrow> region_manager \<Rightarrow> region_manager \<times> region_call list" where
  "helper_popout h rm =
     (let (rm1, calls) = helper_removeFromRegion h rm;
          (rm2, called, calls') = manager_addToRegion RegionNames_popout (hp_model h)
             (Some \<lparr>ro_displayContext = None,
                    ro_onExternallyRemovedCallback = Some (ReturnTo (hp_regionName h) (hp_model h)),
                    ro_regionSettings = Some (hp_regionSettings h)\<rparr>) True rm1;
          (rm3, calls'') = run_callbacks called rm2
      in (rm3, calls @ calls' @ calls''))"

definition helper_init :: "region_helper \<Rightarrow> region_manager \<Rightarrow> region_manager \<times> region_call list" where
  "helper_init h rm =
     (let (rm1, calls) = helper_addToRegion h rm
      in if shouldPopoutFromRegion rm1 (hp_regionName h) (hp_model h)
         then let (rm2, calls') = helper_popout h rm1 in (rm2, calls @ calls')
         else (rm1, calls))"

text \<open>The window of a popped out model closes: the popout region is told to remove the model, with no
  display context, and the callbacks run.\<close>

definition popoutClosed :: "string \<Rightarrow> region_manager \<Rightarrow> region_manager \<times> region_call list" where
  "popoutClosed model rm =
     (let (rm1, called, calls) = manager_removeFromRegion RegionNames_popout model None True rm;
          (rm2, calls') = run_callbacks called rm1
      in (rm2, calls @ calls'))"

datatype region_event =
    HelperInit region_helper
  | HelperPopout region_helper
  | HelperRemove region_helper
  | PopoutClosed string
  | ToggleIsCollapsed string

fun regions_step :: "(region_manager, region_event, region_call) handler" where
  "regions_step rm (HelperInit h) = helper_init h rm"
| "regions_step rm (HelperPopout h) = helper_popout h rm"
| "regions_step rm (HelperRemove h) = helper_removeFromRegion h rm"
| "regions_step rm (PopoutClosed model) = popoutClosed model rm"
| "regions_step rm (ToggleIsCollapsed name) =
     (case obj_get (rm_regionsByName rm) name of
        Some r \<Rightarrow> (if rg_kind r = SingleItemRegion
                   then rm\<lparr>rm_regionsByName := obj_set name (toggleIsCollapsed r) (rm_regionsByName rm)\<rparr> else rm, [])
      | None \<Rightarrow> (rm, []))"

text \<open>The regions the application starts with. Their configuration is kept in the container only.\<close>

definition application_regions :: "bool \<Rightarrow> string object option \<Rightarrow> region_manager" where
  "application_regions isRunningInOpenFin storage =
     new_region_manager [new_region PlainRegion RegionNames_workspace, new_region PopoutRegion RegionNames_popout,
       new_region SingleItemRegion RegionNames_blotter, new_region SingleItemRegion RegionNames_sidebar]
       isRunningInOpenFin storage"

section \<open>Lemmas: where the models are\<close>

abbreviation home_regions :: "string set" where
  "home_regions \<equiv> {RegionNames_workspace, RegionNames_blotter, RegionNames_sidebar}"

lemmas region_names = RegionNames_workspace_def RegionNames_popout_def RegionNames_blotter_def RegionNames_sidebar_def

fun kind_of :: "string \<Rightarrow> region_kind" where
  "kind_of name = (if name = RegionNames_workspace then PlainRegion
     else if name = RegionNames_popout then PopoutRegion else SingleItemRegion)"

declare kind_of.simps [simp del]

lemma kind_of_simps [simp]:
  "kind_of RegionNames_popout = PopoutRegion" "kind_of RegionNames_workspace = PlainRegion"
  "name \<in> home_regions \<Longrightarrow> kind_of name \<noteq> PopoutRegion" "RegionNames_popout \<notin> home_regions"
  by (auto simp: kind_of.simps region_names)

definition models_in :: "region_manager \<Rightarrow> string \<Rightarrow> string set" where
  "models_in rm name =
     (case obj_get (rm_regionsByName rm) name of None \<Rightarrow> {} | Some r \<Rightarrow> reg_model ` set (rg_modelRegistrations r))"

text \<open>The models of an application: each has a home of its own among the regions, and a region for one
  item is the home of one model only.\<close>

definition layout :: "region_helper list \<Rightarrow> bool" where
  "layout hs \<longleftrightarrow> distinct (map hp_model hs) \<and> hp_regionName ` set hs \<subseteq> home_regions
     \<and> (\<forall>h \<in> set hs. \<forall>h' \<in> set hs. hp_regionName h = hp_regionName h' \<and> hp_regionName h \<noteq> RegionNames_workspace \<longrightarrow> h = h')"

definition registration_ok :: "region_helper list \<Rightarrow> string \<Rightarrow> registration \<Rightarrow> bool" where
  "registration_ok hs name reg \<longleftrightarrow> reg_displayContext reg = None \<and>
     (\<exists>h \<in> set hs. hp_model h = reg_model reg \<and>
        (if name = RegionNames_popout then reg_onExternallyRemovedCallback reg = Some (ReturnTo (hp_regionName h) (hp_model h))
         else hp_regionName h = name \<and> reg_onExternallyRemovedCallback reg = None))"

definition regions_inv :: "region_helper list \<Rightarrow> region_manager \<Rightarrow> bool" where
  "regions_inv hs rm \<longleftrightarrow> (\<forall>name \<in> insert RegionNames_popout home_regions. \<exists>r.
     obj_get (rm_regionsByName rm) name = Some r \<and> rg_kind r = kind_of name
     \<and> (\<forall>reg \<in> set (rg_modelRegistrations r). registration_ok hs name reg))"

lemma regions_invD:
  assumes "regions_inv hs rm" "name \<in> insert RegionNames_popout home_regions"
  obtains r where "obj_get (rm_regionsByName rm) name = Some r" "rg_kind r = kind_of name"
    "\<forall>reg \<in> set (rg_modelRegistrations r). registration_ok hs name reg"
  using assms unfolding regions_inv_def by blast

lemma regions_inv_update:
  assumes "regions_inv hs rm" "rg_kind r' = kind_of name" "\<forall>reg \<in> set (rg_modelRegistrations r'). registration_ok hs name reg"
    and "rm_regionsByName rm' = obj_set name r' (rm_regionsByName rm)"
  shows "regions_inv hs rm'"
    and "models_in rm' = (models_in rm)(name := reg_model ` set (rg_modelRegistrations r'))"
  using assms by (auto simp: regions_inv_def models_in_def obj_get_set fun_eq_iff)

lemma distinct_helpers: "layout hs \<Longrightarrow> h \<in> set hs \<Longrightarrow> h' \<in> set hs \<Longrightarrow> hp_model h = hp_model h' \<Longrightarrow> h = h'"
  by (auto simp: layout_def distinct_map inj_on_def)

lemma home_only:
  assumes "layout hs" "h \<in> set hs" "registration_ok hs (hp_regionName h) reg" "kind_of (hp_regionName h) = SingleItemRegion"
  shows "reg_model reg = hp_model h"
proof -
  have "hp_regionName h \<noteq> RegionNames_popout" "hp_regionName h \<noteq> RegionNames_workspace"
    using assms(4) by auto
  with assms show ?thesis unfolding registration_ok_def layout_def by metis
qed

text \<open>Adding a model to its home, with no options.\<close>

lemma add_home:
  assumes "layout hs" "h \<in> set hs" "regions_inv hs rm"
    and "manager_addToRegion (hp_regionName h) (hp_model h) None persist rm = (rm', called, calls)"
  shows "regions_inv hs rm'" "called = []"
    "models_in rm' = (models_in rm)(hp_regionName h := insert (hp_model h) (models_in rm (hp_regionName h)))"
    "rm_storage rm' = (if rm_persistRegionConfiguration rm \<and> persist
       then Some (obj_set (hp_model h) (hp_regionName h) (stored rm)) else rm_storage rm)"
    "rm_persistRegionConfiguration rm' = rm_persistRegionConfiguration rm"
proof -
  let ?n = "hp_regionName h" and ?reg = "new_registration (rm_key rm) (hp_model h) None"
  have n: "?n \<in> home_regions" using assms(1,2) by (auto simp: layout_def)
  obtain r where r: "obj_get (rm_regionsByName rm) ?n = Some r" "rg_kind r = kind_of ?n"
    "\<forall>reg \<in> set (rg_modelRegistrations r). registration_ok hs ?n reg"
    using regions_invD [OF assms(3)] n by blast
  obtain r' cs os where add: "region_addToRegion (rg_kind r) (rm_key rm) (hp_model h) None r = (r', cs, os)"
    by (metis prod_cases3)
  have reg: "registration_ok hs ?n ?reg" "reg_model ?reg = hp_model h"
    using n assms(2) by (auto simp: registration_ok_def new_registration_def region_names)
  have "callbacks_in r = 0"
    using r(3) n by (force simp: callbacks_in_def registration_ok_def map_filter_def filter_empty_conv region_names)
  with add_callbacks [OF add] have cs: "cs = []" by simp
  have r': "rg_kind r' = kind_of ?n" "\<forall>reg \<in> set (rg_modelRegistrations r'). registration_ok hs ?n reg"
    "reg_model ` set (rg_modelRegistrations r') = insert (hp_model h) (reg_model ` set (rg_modelRegistrations r))"
  proof -
    consider "rg_kind r = PlainRegion" | "rg_kind r = SingleItemRegion" using r(2) kind_of_simps(3) [OF n] by (cases "rg_kind r") auto
    then have *: "rg_kind r' = kind_of ?n \<and> (rg_modelRegistrations r' = rg_modelRegistrations r @ [?reg]
        \<or> rg_kind r = SingleItemRegion \<and> rg_modelRegistrations r' = [?reg])"
      using add r(2) by cases (auto simp: base_addToRegion_def region_removeFromRegion_def base_removeFromRegion_def
          split: list.splits region_kind.splits)
    then show "rg_kind r' = kind_of ?n" by simp
    show "\<forall>reg \<in> set (rg_modelRegistrations r'). registration_ok hs ?n reg" using * r(3) reg(1) by auto
    show "reg_model ` set (rg_modelRegistrations r') = insert (hp_model h) (reg_model ` set (rg_modelRegistrations r))"
      using * r(2,3) reg(2) home_only [OF assms(1,2)] by auto
  qed
  have rm': "rm_regionsByName rm' = obj_set ?n r' (rm_regionsByName rm)" "called = cs"
    "rm_storage rm' = (if rm_persistRegionConfiguration rm \<and> persist
       then Some (obj_set (hp_model h) (hp_regionName h) (stored rm)) else rm_storage rm)"
    "rm_persistRegionConfiguration rm' = rm_persistRegionConfiguration rm"
    using assms(4) r(1) add by (auto simp: manager_addToRegion_def saveState_def stored_def Let_def split: if_splits)
  show "regions_inv hs rm'" using regions_inv_update(1) [OF assms(3) r'(1,2) rm'(1)] .
  show "models_in rm' = (models_in rm)(?n := insert (hp_model h) (models_in rm ?n))"
    using regions_inv_update(2) [OF assms(3) r'(1,2) rm'(1)] r'(3) r(1) by (simp add: models_in_def)
  show "called = []" using rm'(2) cs by simp
  show "rm_storage rm' = (if rm_persistRegionConfiguration rm \<and> persist
       then Some (obj_set (hp_model h) (hp_regionName h) (stored rm)) else rm_storage rm)"
    "rm_persistRegionConfiguration rm' = rm_persistRegionConfiguration rm" using rm' by auto
qed

text \<open>Removing a model from a region.\<close>

lemma remove_from:
  assumes "regions_inv hs rm" "name \<in> insert RegionNames_popout home_regions"
    and "manager_removeFromRegion name model None external rm = (rm', called, calls)"
  shows "regions_inv hs rm'" "models_in rm' = (models_in rm)(name := models_in rm name - {model})"
    "rm_storage rm' = rm_storage rm" "rm_persistRegionConfiguration rm' = rm_persistRegionConfiguration rm"
    "\<exists>regs. set regs = {reg. \<exists>r. obj_get (rm_regionsByName rm) name = Some r \<and> reg \<in> set (rg_modelRegistrations r) \<and> matches model None reg}
       \<and> called = (if external then List.map_filter reg_onExternallyRemovedCallback regs else [])"
proof -
  obtain r where r: "obj_get (rm_regionsByName rm) name = Some r" "rg_kind r = kind_of name"
    "\<forall>reg \<in> set (rg_modelRegistrations r). registration_ok hs name reg"
    using regions_invD [OF assms(1,2)] by blast
  obtain r' where r': "region_removeFromRegion model external None r = (r', called)"
    "rm' = rm\<lparr>rm_regionsByName := obj_set name r' (rm_regionsByName rm)\<rparr>"
    using assms(3) r(1) that [of "fst (region_removeFromRegion model external None r)"]
    by (auto simp: manager_removeFromRegion_def split_beta Let_def)
  have kept: "rg_kind r' = kind_of name"
    "rg_modelRegistrations r' = filter (\<lambda>reg. \<not> matches model None reg) (rg_modelRegistrations r)"
    "called = (if external then List.map_filter reg_onExternallyRemovedCallback (filter (matches model None) (rg_modelRegistrations r)) else [])"
    using r'(1) r(2) by (auto simp: region_removeFromRegion_def base_removeFromRegion_def split: region_kind.splits)
  have ok: "\<forall>reg \<in> set (rg_modelRegistrations r'). registration_ok hs name reg" using kept(2) r(3) by auto
  have rm': "rm_regionsByName rm' = obj_set name r' (rm_regionsByName rm)" using r'(2) by simp
  show "regions_inv hs rm'" using regions_inv_update(1) [OF assms(1) kept(1) ok rm'] .
  have "reg_model ` set (rg_modelRegistrations r') = models_in rm name - {model}"
    using r kept(2) by (auto simp: models_in_def matches_def registration_ok_def)
  then show "models_in rm' = (models_in rm)(name := models_in rm name - {model})"
    using regions_inv_update(2) [OF assms(1) kept(1) ok rm'] by simp
  show "rm_storage rm' = rm_storage rm" "rm_persistRegionConfiguration rm' = rm_persistRegionConfiguration rm"
    using r'(2) by simp_all
  show "\<exists>regs. set regs = {reg. \<exists>r. obj_get (rm_regionsByName rm) name = Some r \<and> reg \<in> set (rg_modelRegistrations r) \<and> matches model None reg}
       \<and> called = (if external then List.map_filter reg_onExternallyRemovedCallback regs else [])"
    using kept(3) r(1) by (intro exI [of _ "filter (matches model None) (rg_modelRegistrations r)"]) auto
qed

text \<open>Adding a model to the popouts.\<close>

lemma add_popout:
  assumes "h \<in> set hs" "regions_inv hs rm" "hp_regionName h \<noteq> RegionNames_popout"
    and "manager_addToRegion RegionNames_popout (hp_model h)
      (Some \<lparr>ro_displayContext = None, ro_onExternallyRemovedCallback = Some (ReturnTo (hp_regionName h) (hp_model h)),
             ro_regionSettings = Some (hp_regionSettings h)\<rparr>) True rm = (rm', called, calls)"
  shows "regions_inv hs rm'" "called = []"
    "models_in rm' = (models_in rm)(RegionNames_popout := insert (hp_model h) (models_in rm RegionNames_popout))"
    "rm_storage rm' = (if rm_persistRegionConfiguration rm
       then Some (obj_set (hp_model h) RegionNames_popout (stored rm)) else rm_storage rm)"
    "rm_persistRegionConfiguration rm' = rm_persistRegionConfiguration rm"
proof -
  let ?options = "Some \<lparr>ro_displayContext = None, ro_onExternallyRemovedCallback = Some (ReturnTo (hp_regionName h) (hp_model h)),
             ro_regionSettings = Some (hp_regionSettings h)\<rparr>"
  let ?reg = "new_registration (rm_key rm) (hp_model h) ?options"
  obtain r where r: "obj_get (rm_regionsByName rm) RegionNames_popout = Some r" "rg_kind r = PopoutRegion"
    "\<forall>reg \<in> set (rg_modelRegistrations r). registration_ok hs RegionNames_popout reg"
    by (rule regions_invD [OF assms(2) insertI1]) (use that in simp)
  let ?r = "r\<lparr>rg_modelRegistrations := rg_modelRegistrations r @ [?reg]\<rparr>"
  have "registration_ok hs RegionNames_popout ?reg" using assms(1) by (auto simp: registration_ok_def new_registration_def)
  then have ok: "rg_kind ?r = kind_of RegionNames_popout"
    "\<forall>reg \<in> set (rg_modelRegistrations ?r). registration_ok hs RegionNames_popout reg" using r by auto
  have rm': "rm_regionsByName rm' = obj_set RegionNames_popout ?r (rm_regionsByName rm)" "called = []"
    "rm_storage rm' = (if rm_persistRegionConfiguration rm
       then Some (obj_set (hp_model h) RegionNames_popout (stored rm)) else rm_storage rm)"
    "rm_persistRegionConfiguration rm' = rm_persistRegionConfiguration rm"
    using assms(4) r by (auto simp: manager_addToRegion_def base_addToRegion_def saveState_def stored_def Let_def split: if_splits)
  show "regions_inv hs rm'" using regions_inv_update(1) [OF assms(2) ok rm'(1)] .
  show "models_in rm' = (models_in rm)(RegionNames_popout := insert (hp_model h) (models_in rm RegionNames_popout))"
    using regions_inv_update(2) [OF assms(2) ok rm'(1)] r(1)
    by (simp add: models_in_def new_registration_def)
  show "called = []" "rm_storage rm' = (if rm_persistRegionConfiguration rm
       then Some (obj_set (hp_model h) RegionNames_popout (stored rm)) else rm_storage rm)"
    "rm_persistRegionConfiguration rm' = rm_persistRegionConfiguration rm" using rm' by auto
qed

lemma should_popout_saved:
  "shouldPopoutFromRegion (rm\<lparr>rm_storage := Some (obj_set m name (stored rm0))\<rparr>) home m' =
     (if m' = m then name \<noteq> home else shouldPopoutFromRegion rm0 home m')"
  by (simp add: shouldPopoutFromRegion_def stored_def obj_get_set split: option.split)

lemma should_popout_cong: "rm_storage rm = rm_storage rm' \<Longrightarrow> shouldPopoutFromRegion rm = shouldPopoutFromRegion rm'"
  by (simp add: shouldPopoutFromRegion_def stored_def fun_eq_iff)

lemma should_popout_set:
  "rm_storage rm' = Some (obj_set m name (stored rm)) \<Longrightarrow>
     shouldPopoutFromRegion rm' home m' = (if m' = m then name \<noteq> home else shouldPopoutFromRegion rm home m')"
  by (simp add: shouldPopoutFromRegion_def stored_def obj_get_set split: option.split)

text \<open>The models of the helpers started so far are in one place each: popped out or at home. The stored state tells
  where the others will start and, where it is written, the places of all.\<close>

definition placed :: "region_helper list \<Rightarrow> region_helper set \<Rightarrow> (region_helper \<Rightarrow> bool) \<Rightarrow> region_manager \<Rightarrow> bool" where
  "placed hs started popped rm \<longleftrightarrow> regions_inv hs rm
     \<and> (\<forall>h \<in> set hs. (hp_model h \<in> models_in rm RegionNames_popout \<longleftrightarrow> h \<in> started \<and> popped h)
          \<and> (hp_model h \<in> models_in rm (hp_regionName h) \<longleftrightarrow> h \<in> started \<and> \<not> popped h)
          \<and> (rm_persistRegionConfiguration rm \<or> h \<notin> started \<longrightarrow> shouldPopoutFromRegion rm (hp_regionName h) (hp_model h) = popped h))"

lemma placed_popout:
  assumes "layout hs" "h \<in> set hs" "regions_inv hs rm"
    and "\<And>h'. h' \<in> set hs \<Longrightarrow> h' \<noteq> h \<Longrightarrow>
      (hp_model h' \<in> models_in rm RegionNames_popout \<longleftrightarrow> h' \<in> started \<and> popped h')
      \<and> (hp_model h' \<in> models_in rm (hp_regionName h') \<longleftrightarrow> h' \<in> started \<and> \<not> popped h')
      \<and> (rm_persistRegionConfiguration rm \<or> h' \<notin> started \<longrightarrow> shouldPopoutFromRegion rm (hp_regionName h') (hp_model h') = popped h')"
  shows "placed hs (insert h started) (popped(h := True)) (fst (helper_popout h rm))"
proof -
  have home: "hp_regionName h \<in> home_regions" using assms(1,2) by (auto simp: layout_def)
  then have name: "hp_regionName h \<in> insert RegionNames_popout home_regions" "hp_regionName h \<noteq> RegionNames_popout"
    by (auto simp: region_names)
  obtain rm1 c1 o1 where rm1: "manager_removeFromRegion (hp_regionName h) (hp_model h) None False rm = (rm1, c1, o1)"
    by (metis prod_cases3)
  note one = remove_from [OF assms(3) name(1) rm1]
  obtain rm2 c2 o2 where rm2: "manager_addToRegion RegionNames_popout (hp_model h)
      (Some \<lparr>ro_displayContext = None, ro_onExternallyRemovedCallback = Some (ReturnTo (hp_regionName h) (hp_model h)),
             ro_regionSettings = Some (hp_regionSettings h)\<rparr>) True rm1 = (rm2, c2, o2)" by (metis prod_cases3)
  note two = add_popout [OF assms(2) one(1) name(2) rm2]
  have result: "fst (helper_popout h rm) = rm2"
    by (simp add: helper_popout_def helper_removeFromRegion_def rm1 rm2 two(2))
  have persist: "rm_persistRegionConfiguration rm2 = rm_persistRegionConfiguration rm" using one(4) two(5) by simp
  have saved: "shouldPopoutFromRegion rm2 home m =
      (if rm_persistRegionConfiguration rm \<and> m = hp_model h then RegionNames_popout \<noteq> home else shouldPopoutFromRegion rm home m)" for home m
    using should_popout_set [of rm2 "hp_model h" RegionNames_popout rm1 home m] two(4) one(4) should_popout_cong [OF one(3)]
      should_popout_cong [of rm2 rm1] by auto
  have models: "models_in rm2 = (models_in rm)(hp_regionName h := models_in rm (hp_regionName h) - {hp_model h},
      RegionNames_popout := insert (hp_model h) (models_in rm RegionNames_popout))"
    using one(2) two(3) name(2) by (simp add: fun_eq_iff)
  show ?thesis unfolding placed_def result
  proof (intro conjI ballI)
    show "regions_inv hs rm2" by (rule two(1))
    fix h' assume h': "h' \<in> set hs"
    then have "hp_regionName h' \<noteq> RegionNames_popout" using assms(1) by (auto simp: layout_def region_names)
    moreover have "hp_model h' \<noteq> hp_model h" if "h' \<noteq> h" using distinct_helpers [OF assms(1) h' assms(2)] that by blast
    ultimately show "hp_model h' \<in> models_in rm2 RegionNames_popout \<longleftrightarrow> h' \<in> insert h started \<and> (popped(h := True)) h'"
      "hp_model h' \<in> models_in rm2 (hp_regionName h') \<longleftrightarrow> h' \<in> insert h started \<and> \<not> (popped(h := True)) h'"
      "rm_persistRegionConfiguration rm2 \<or> h' \<notin> insert h started \<longrightarrow>
        shouldPopoutFromRegion rm2 (hp_regionName h') (hp_model h') = (popped(h := True)) h'"
      using assms(4) [OF h'] name(2) by (cases "h' = h"; auto simp: models saved persist)+
  qed
qed

lemma placed_init:
  assumes "layout hs" "h \<in> set hs" "placed hs started popped rm" "h \<notin> started"
  shows "placed hs (insert h started) popped (fst (helper_init h rm))"
proof -
  obtain rm1 c1 o1 where rm1: "manager_addToRegion (hp_regionName h) (hp_model h) None False rm = (rm1, c1, o1)"
    by (metis prod_cases3)
  have inv: "regions_inv hs rm" using assms(3) by (simp add: placed_def)
  note one = add_home [OF assms(1,2) inv rm1]
  have name: "hp_regionName h \<noteq> RegionNames_popout" using assms(1,2) by (auto simp: layout_def region_names)
  have same: "shouldPopoutFromRegion rm1 = shouldPopoutFromRegion rm" by (rule should_popout_cong) (simp add: one(4))
  have add: "helper_addToRegion h rm = (rm1, o1)" by (simp add: helper_addToRegion_def rm1 one(2))
  have others: "hp_model h' \<noteq> hp_model h" if "h' \<in> set hs" "h' \<noteq> h" for h'
    using distinct_helpers [OF assms(1) that(1) assms(2)] that(2) by blast
  have at: "(hp_model h' \<in> models_in rm1 RegionNames_popout \<longleftrightarrow> h' \<in> started \<and> popped h')
      \<and> (hp_model h' \<in> models_in rm1 (hp_regionName h') \<longleftrightarrow> h' \<in> started \<and> \<not> popped h' \<or> h' = h)
      \<and> (rm_persistRegionConfiguration rm1 \<or> h' \<notin> started \<longrightarrow> shouldPopoutFromRegion rm1 (hp_regionName h') (hp_model h') = popped h')"
    if "h' \<in> set hs" for h'
  proof -
    note p = assms(3) [unfolded placed_def, THEN conjunct2, rule_format, OF that]
    show ?thesis
    proof (cases "h' = h")
      case False
      with p others [OF that] name show ?thesis by (cases "hp_regionName h' = hp_regionName h") (simp_all add: one(3,5) same)
    qed (use p name assms(4) in \<open>simp add: one(3,5) same\<close>)
  qed
  show ?thesis
  proof (cases "popped h")
    case True
    have "placed hs (insert h started) (popped(h := True)) (fst (helper_popout h rm1))"
      by (rule placed_popout [OF assms(1,2) one(1)]) (use at in blast)
    moreover have "popped(h := True) = popped" using True by (simp add: fun_eq_iff)
    moreover have "shouldPopoutFromRegion rm1 (hp_regionName h) (hp_model h)" using at [OF assms(2)] True assms(4) by simp
    ultimately show ?thesis by (simp add: helper_init_def add split_beta Let_def)
  next
    case False
    then have "fst (helper_init h rm) = rm1" using at [OF assms(2)] assms(4) by (simp add: helper_init_def add)
    moreover have "h' \<in> started \<and> popped h' \<longleftrightarrow> h' \<in> insert h started \<and> popped h'"
      "h' \<in> started \<and> \<not> popped h' \<or> h' = h \<longleftrightarrow> h' \<in> insert h started \<and> \<not> popped h'" for h'
      using False by auto
    ultimately show ?thesis using at one(1) unfolding placed_def by auto
  qed
qed

text \<open>Closing the window of a model runs one callback for each of its registrations with the popouts.\<close>

lemma return_home:
  assumes "layout hs" "h \<in> set hs" "regions_inv hs rm"
    and "set cbs \<subseteq> {ReturnTo (hp_regionName h) (hp_model h)}"
  shows "regions_inv hs (fst (run_callbacks cbs rm))
    \<and> rm_persistRegionConfiguration (fst (run_callbacks cbs rm)) = rm_persistRegionConfiguration rm
    \<and> models_in (fst (run_callbacks cbs rm)) = (if cbs = [] then models_in rm
        else (models_in rm)(hp_regionName h := insert (hp_model h) (models_in rm (hp_regionName h))))
    \<and> (\<forall>home m. shouldPopoutFromRegion (fst (run_callbacks cbs rm)) home m =
        (if rm_persistRegionConfiguration rm \<and> cbs \<noteq> [] \<and> m = hp_model h then hp_regionName h \<noteq> home else shouldPopoutFromRegion rm home m))"
  using assms(3,4)
proof (induction cbs arbitrary: rm)
  case (Cons cb cbs)
  obtain rm1 c1 o1 where rm1: "manager_addToRegion (hp_regionName h) (hp_model h) None True rm = (rm1, c1, o1)"
    by (metis prod_cases3)
  note one = add_home [OF assms(1,2) Cons.prems(1) rm1]
  have cb: "cb = ReturnTo (hp_regionName h) (hp_model h)" using Cons.prems(2) by simp
  have step: "fst (run_callbacks (cb # cbs) rm) = fst (run_callbacks cbs rm1)"
    by (simp add: cb rm1 one(2) split_beta Let_def)
  note IH = Cons.IH [OF one(1)]
  have saved: "shouldPopoutFromRegion rm1 home m =
      (if rm_persistRegionConfiguration rm \<and> m = hp_model h then hp_regionName h \<noteq> home else shouldPopoutFromRegion rm home m)" for home m
    using should_popout_set [of rm1 "hp_model h" "hp_regionName h" rm home m] one(4) should_popout_cong [of rm1 rm]
    by (cases "rm_persistRegionConfiguration rm") simp_all
  show ?case unfolding step using IH Cons.prems(2) by (auto simp: one(3,5) saved)
qed simp

lemma placed_closed:
  assumes "layout hs" "h \<in> set hs" "placed hs started popped rm" "h \<in> started"
  shows "placed hs started (popped(h := False)) (fst (popoutClosed (hp_model h) rm))"
proof -
  obtain rm1 c1 o1 where rm1: "manager_removeFromRegion RegionNames_popout (hp_model h) None True rm = (rm1, c1, o1)"
    by (metis prod_cases3)
  have inv: "regions_inv hs rm" using assms(3) by (simp add: placed_def)
  note p = assms(3) [unfolded placed_def, THEN conjunct2, rule_format]
  note one = remove_from [OF inv insertI1 rm1]
  obtain r where r: "obj_get (rm_regionsByName rm) RegionNames_popout = Some r" "rg_kind r = PopoutRegion"
    "\<forall>reg \<in> set (rg_modelRegistrations r). registration_ok hs RegionNames_popout reg"
    by (rule regions_invD [OF inv insertI1]) (use that in simp)
  obtain regs where regs: "set regs = {reg. reg \<in> set (rg_modelRegistrations r) \<and> matches (hp_model h) None reg}"
    "c1 = List.map_filter reg_onExternallyRemovedCallback regs" using one(5) r(1) by auto
  have cb: "reg_onExternallyRemovedCallback reg = Some (ReturnTo (hp_regionName h) (hp_model h))" if "reg \<in> set regs" for reg
  proof -
    have "reg \<in> set (rg_modelRegistrations r)" "reg_model reg = hp_model h" using that regs(1) by (auto simp: matches_def)
    with r(3) obtain h' where "h' \<in> set hs" "hp_model h' = hp_model h"
      "reg_onExternallyRemovedCallback reg = Some (ReturnTo (hp_regionName h') (hp_model h'))"
      by (auto simp: registration_ok_def)
    with distinct_helpers [OF assms(1) _ assms(2)] show ?thesis by blast
  qed
  then have called: "c1 = map (\<lambda>reg. ReturnTo (hp_regionName h) (hp_model h)) regs"
    unfolding regs(2) by (induction regs) simp_all
  have "regs \<noteq> [] \<longleftrightarrow> set regs \<noteq> {}" by simp
  also have "\<dots> \<longleftrightarrow> hp_model h \<in> models_in rm RegionNames_popout"
    unfolding regs(1) using r by (force simp: models_in_def matches_def registration_ok_def)
  finally have nonempty: "c1 \<noteq> [] \<longleftrightarrow> popped h" using p [OF assms(2)] assms(4) called by simp
  let ?rm = "fst (popoutClosed (hp_model h) rm)"
  have rm: "?rm = fst (run_callbacks c1 rm1)" by (simp add: popoutClosed_def rm1 split_beta Let_def)
  have returns: "set c1 \<subseteq> {ReturnTo (hp_regionName h) (hp_model h)}" using called by auto
  note result = return_home [OF assms(1,2) one(1) returns]
  have same: "shouldPopoutFromRegion rm1 = shouldPopoutFromRegion rm" by (rule should_popout_cong) (rule one(3))
  have home: "hp_regionName h' \<noteq> RegionNames_popout" if "h' \<in> set hs" for h'
    using assms(1) that by (auto simp: layout_def region_names)
  have models: "models_in ?rm = (if popped h then (models_in rm)(RegionNames_popout := models_in rm RegionNames_popout - {hp_model h},
        hp_regionName h := insert (hp_model h) (models_in rm (hp_regionName h)))
      else (models_in rm)(RegionNames_popout := models_in rm RegionNames_popout - {hp_model h}))"
    using result nonempty one(2) home [OF assms(2)] unfolding rm by auto
  have saved: "shouldPopoutFromRegion ?rm home m =
      (if rm_persistRegionConfiguration rm \<and> popped h \<and> m = hp_model h then hp_regionName h \<noteq> home else shouldPopoutFromRegion rm home m)" for home m
    using result nonempty same one(4) unfolding rm by simp
  have persist: "rm_persistRegionConfiguration ?rm = rm_persistRegionConfiguration rm" using result one(4) unfolding rm by simp
  show ?thesis unfolding placed_def
  proof (intro conjI ballI)
    show "regions_inv hs ?rm" using result unfolding rm by auto
    fix h' assume h': "h' \<in> set hs"
    have other: "hp_model h' \<noteq> hp_model h" if "h' \<noteq> h" using distinct_helpers [OF assms(1) h' assms(2)] that by blast
    show "hp_model h' \<in> models_in ?rm RegionNames_popout \<longleftrightarrow> h' \<in> started \<and> (popped(h := False)) h'"
      "hp_model h' \<in> models_in ?rm (hp_regionName h') \<longleftrightarrow> h' \<in> started \<and> \<not> (popped(h := False)) h'"
      "rm_persistRegionConfiguration ?rm \<or> h' \<notin> started \<longrightarrow>
        shouldPopoutFromRegion ?rm (hp_regionName h') (hp_model h') = (popped(h := False)) h'"
      using p [OF h'] other home [OF h'] home [OF assms(2)] assms(4) by (cases "h' = h"; auto simp: models saved persist)+
  qed
qed

lemma placed_toggle:
  assumes "placed hs started popped rm"
  shows "placed hs started popped (fst (regions_step rm (ToggleIsCollapsed name)))"
proof (cases "obj_get (rm_regionsByName rm) name")
  case (Some r)
  let ?rm = "fst (regions_step rm (ToggleIsCollapsed name))"
  have "regions_inv hs ?rm" "models_in ?rm = models_in rm" "rm_storage ?rm = rm_storage rm"
    "rm_persistRegionConfiguration ?rm = rm_persistRegionConfiguration rm"
    using assms Some by (auto simp: placed_def regions_inv_def models_in_def obj_get_set toggleIsCollapsed_def fun_eq_iff)
  with assms should_popout_cong [of ?rm rm] show ?thesis by (simp add: placed_def)
qed (use assms in simp)

section \<open>Runs\<close>

text \<open>What a user does to the views once they are up: pop a model out, close a popped out window, collapse
  a region.\<close>

fun user_event :: "region_helper list \<Rightarrow> region_event \<Rightarrow> bool" where
  "user_event hs (HelperPopout h) = (h \<in> set hs)"
| "user_event hs (PopoutClosed model) = (model \<in> hp_model ` set hs)"
| "user_event hs (ToggleIsCollapsed name) = True"
| "user_event hs ev = False"

lemma placed_user:
  assumes "layout hs" "placed hs (set hs) popped rm" "\<forall>ev \<in> set evs. user_event hs ev"
  shows "\<exists>popped. placed hs (set hs) popped (final_state regions_step rm evs)"
  using assms(2,3)
proof (induction evs arbitrary: popped rm)
  case (Cons ev evs)
  have "\<exists>popped. placed hs (set hs) popped (fst (regions_step rm ev))"
  proof (cases ev)
    case (HelperPopout h)
    with Cons.prems have h: "h \<in> set hs" by simp
    have "placed hs (insert h (set hs)) (popped(h := True)) (fst (helper_popout h rm))"
      by (rule placed_popout [OF assms(1) h]) (use Cons.prems(1) in \<open>simp_all add: placed_def\<close>)
    with h HelperPopout show ?thesis by (auto simp: insert_absorb)
  next
    case (PopoutClosed model)
    with Cons.prems obtain h where "h \<in> set hs" "model = hp_model h" by auto
    with placed_closed [OF assms(1) _ Cons.prems(1)] PopoutClosed show ?thesis by auto
  next
    case (ToggleIsCollapsed name)
    with placed_toggle [OF Cons.prems(1), of name] show ?thesis by blast
  qed (use Cons.prems(2) in simp_all)
  then obtain popped' where "placed hs (set hs) popped' (fst (regions_step rm ev))" by blast
  from Cons.IH [OF this] Cons.prems(2) show ?case by simp
qed auto

lemma placed_inits:
  assumes "layout hs" "placed hs started popped rm" "set hs' \<subseteq> set hs" "distinct hs'" "set hs' \<inter> started = {}"
  shows "placed hs (started \<union> set hs') popped (final_state regions_step rm (map HelperInit hs'))"
  using assms(2-5)
proof (induction hs' arbitrary: started rm)
  case (Cons h hs')
  have "placed hs (insert h started) popped (fst (helper_init h rm))"
    by (rule placed_init [OF assms(1)]) (use Cons.prems in auto)
  from Cons.IH [OF this] Cons.prems show ?case by simp
qed simp

lemma placed_start:
  assumes "layout hs"
    and "\<And>h. h \<in> set hs \<Longrightarrow> popped h \<longleftrightarrow> (\<exists>saved. storage = Some saved \<and> (\<exists>name. obj_get saved (hp_model h) = Some name \<and> name \<noteq> hp_regionName h))"
  shows "placed hs {} popped (application_regions container storage)"
proof -
  let ?rm = "application_regions container storage"
  have get: "obj_get (rm_regionsByName ?rm) name = (if name \<in> insert RegionNames_popout home_regions then Some (new_region (kind_of name) name) else None)" for name
    by (simp add: application_regions_def new_region_manager_def obj_get_set new_region_def kind_of.simps region_names)
  have "regions_inv hs ?rm" unfolding regions_inv_def get by (simp add: new_region_def)
  moreover have "models_in ?rm = (\<lambda>name. {})" unfolding models_in_def get by (simp add: new_region_def fun_eq_iff)
  moreover have "rm_storage ?rm = storage" by (simp add: application_regions_def new_region_manager_def)
  ultimately show ?thesis using assms(2)
    by (auto simp: placed_def shouldPopoutFromRegion_def stored_def split: option.splits)
qed

text \<open>A session of the application, in the container or in a browser: its models start, then the user acts.\<close>

definition session :: "bool \<Rightarrow> region_helper list \<Rightarrow> region_event list \<Rightarrow> string object option \<Rightarrow> region_manager" where
  "session isRunningInOpenFin hs evs storage =
     final_state regions_step (application_regions isRunningInOpenFin storage) (map HelperInit hs @ evs)"

lemma session_start:
  assumes "layout hs"
  shows "\<exists>popped. placed hs (set hs) popped (session container hs [] storage)
    \<and> (\<forall>h \<in> set hs. popped h \<longleftrightarrow> (\<exists>saved. storage = Some saved \<and> (\<exists>name. obj_get saved (hp_model h) = Some name \<and> name \<noteq> hp_regionName h)))"
proof -
  let ?popped = "\<lambda>h. \<exists>saved. storage = Some saved \<and> (\<exists>name. obj_get saved (hp_model h) = Some name \<and> name \<noteq> hp_regionName h)"
  have "distinct hs" using assms by (auto simp: layout_def distinct_map)
  then have "placed hs (set hs) ?popped (session container hs [] storage)"
    using placed_inits [OF assms placed_start [OF assms, of ?popped storage container], of hs] by (simp add: session_def)
  then show ?thesis by blast
qed

text \<open>Whether the state is written is settled at the start, and a browser never writes it.\<close>

definition store_kept :: "region_manager \<Rightarrow> region_manager \<Rightarrow> bool" where
  "store_kept rm rm' \<longleftrightarrow> rm_persistRegionConfiguration rm' = rm_persistRegionConfiguration rm
     \<and> (\<not> rm_persistRegionConfiguration rm \<longrightarrow> rm_storage rm' = rm_storage rm)"

lemma store_kept_refl [simp]: "store_kept rm rm"
  by (simp add: store_kept_def)

lemma store_kept_trans: "store_kept rm rm' \<Longrightarrow> store_kept rm' rm'' \<Longrightarrow> store_kept rm rm''"
  by (simp add: store_kept_def)

lemma store_kept_add [simp]: "store_kept rm (fst (manager_addToRegion name model options persist rm))"
  by (auto simp: store_kept_def manager_addToRegion_def saveState_def split_beta Let_def split: option.split)

lemma store_kept_remove [simp]: "store_kept rm (fst (manager_removeFromRegion name model context external rm))"
  by (auto simp: store_kept_def manager_removeFromRegion_def split_beta Let_def split: option.split)

lemma store_kept_callbacks: "store_kept rm (fst (run_callbacks cbs rm))"
proof (induction cbs rm rule: run_callbacks.induct)
  case (2 name model cbs rm)
  obtain rm1 called calls where rm1: "manager_addToRegion name model None True rm = (rm1, called, calls)" by (metis prod_cases3)
  have "store_kept rm1 (fst (run_callbacks (cbs @ called) rm1))" using "2.IH" [OF rm1 [symmetric] refl refl] .
  with store_kept_add [of rm name model None True] rm1 show ?case
    by (auto simp: split_beta Let_def intro: store_kept_trans)
qed simp

lemma store_kept_popout: "store_kept rm (fst (helper_popout h rm))"
proof -
  let ?rm1 = "fst (manager_removeFromRegion (hp_regionName h) (hp_model h) None False rm)"
  have "fst (helper_popout h rm) = fst (run_callbacks (fst (snd (manager_addToRegion RegionNames_popout (hp_model h)
             (Some \<lparr>ro_displayContext = None, ro_onExternallyRemovedCallback = Some (ReturnTo (hp_regionName h) (hp_model h)),
                    ro_regionSettings = Some (hp_regionSettings h)\<rparr>) True ?rm1)))
      (fst (manager_addToRegion RegionNames_popout (hp_model h)
             (Some \<lparr>ro_displayContext = None, ro_onExternallyRemovedCallback = Some (ReturnTo (hp_regionName h) (hp_model h)),
                    ro_regionSettings = Some (hp_regionSettings h)\<rparr>) True ?rm1)))"
    by (simp add: helper_popout_def helper_removeFromRegion_def split_beta Let_def)
  then show ?thesis
    using store_kept_trans [OF store_kept_trans [OF store_kept_remove store_kept_add] store_kept_callbacks] by simp
qed

lemma store_kept_init: "store_kept rm (fst (helper_init h rm))"
proof -
  have "store_kept rm (fst (helper_addToRegion h rm))"
    using store_kept_trans [OF store_kept_add store_kept_callbacks] by (simp add: helper_addToRegion_def split_beta Let_def)
  with store_kept_trans [OF this store_kept_popout] show ?thesis by (simp add: helper_init_def split_beta Let_def)
qed

lemma store_kept_step: "store_kept rm (fst (regions_step rm ev))"
proof (cases ev)
  case (PopoutClosed model)
  then show ?thesis
    using store_kept_trans [OF store_kept_remove store_kept_callbacks] by (simp add: popoutClosed_def split_beta Let_def)
next
  case (HelperRemove h)
  then show ?thesis using store_kept_remove by (simp add: helper_removeFromRegion_def split_beta Let_def)
next
  case (ToggleIsCollapsed name)
  then show ?thesis by (auto simp: store_kept_def split: option.split)
qed (simp_all add: store_kept_init store_kept_popout)

lemma store_kept_run: "store_kept rm (final_state regions_step rm evs)"
proof (induction evs arbitrary: rm)
  case (Cons ev evs)
  from store_kept_trans [OF store_kept_step Cons.IH] show ?case by simp
qed simp

lemma session_store:
  "rm_persistRegionConfiguration (session container hs evs storage) = container"
  "\<not> container \<Longrightarrow> rm_storage (session container hs evs storage) = storage"
  using store_kept_run [of "application_regions container storage" "map HelperInit hs @ evs"]
  by (simp_all add: session_def store_kept_def application_regions_def new_region_manager_def)

section \<open>Properties\<close>

text \<open>C37: whatever the user pops out, closes and collapses, each model is in one of two places, popped out or in its own
  region. When the application starts again in the container, with the state it stored, every model is back where it
  was; a browser, which stores nothing, starts again as it did before.\<close>

theorem views_restored:
  assumes "layout hs" "\<forall>ev \<in> set evs. user_event hs ev" "h \<in> set hs"
    and "before = session container hs evs storage" "after = session container hs [] (rm_storage before)"
    and "reference = (if container then before else session container hs [] storage)"
  shows "(hp_model h \<in> models_in before RegionNames_popout \<longleftrightarrow> hp_model h \<notin> models_in before (hp_regionName h))
    \<and> (hp_model h \<in> models_in after RegionNames_popout \<longleftrightarrow> hp_model h \<in> models_in reference RegionNames_popout)
    \<and> (hp_model h \<in> models_in after (hp_regionName h) \<longleftrightarrow> hp_model h \<in> models_in reference (hp_regionName h))"
proof -
  obtain popped0 where "placed hs (set hs) popped0 (session container hs [] storage)" using session_start [OF assms(1)] by blast
  moreover have "before = final_state regions_step (session container hs [] storage) evs" by (simp add: assms(4) session_def run_append)
  ultimately obtain popped where before: "placed hs (set hs) popped before"
    using placed_user [OF assms(1) _ assms(2)] by blast
  obtain popped' where after: "placed hs (set hs) popped' after"
    "popped' h \<longleftrightarrow> (\<exists>saved. rm_storage before = Some saved \<and> (\<exists>name. obj_get saved (hp_model h) = Some name \<and> name \<noteq> hp_regionName h))"
    using session_start [OF assms(1), of container "rm_storage before"] assms(3,5) by blast
  have stored: "popped' h \<longleftrightarrow> shouldPopoutFromRegion before (hp_regionName h) (hp_model h)"
    unfolding after(2) by (auto simp: shouldPopoutFromRegion_def stored_def split: option.split)
  show ?thesis
  proof (cases container)
    case True
    then have "rm_persistRegionConfiguration before" by (simp add: assms(4) session_store)
    with before after(1) stored assms(3) True show ?thesis by (auto simp: placed_def assms(6))
  next
    case False
    then have "after = reference" by (simp add: assms(4-6) session_store)
    with before assms(3) show ?thesis by (auto simp: placed_def)
  qed
qed

definition example_helpers :: "region_helper list" where
  "example_helpers = [\<lparr>hp_regionName = RegionNames_workspace, hp_model = ''spotTile-EURUSD'', hp_regionSettings = \<lparr>rs_title = ''EURUSD Spot'', rs_width = 370, rs_height = 155, rs_dockable = True\<rparr>\<rparr>,
     \<lparr>hp_regionName = RegionNames_blotter, hp_model = ''blotterModelId'', hp_regionSettings = \<lparr>rs_title = ''Blotter'', rs_width = 850, rs_height = 280, rs_dockable = False\<rparr>\<rparr>]"

lemma views_restored_witness:
  "''blotterModelId'' \<in> models_in (session True example_helpers []
      (rm_storage (session True example_helpers [HelperPopout (hd example_helpers), HelperPopout (example_helpers ! 1), PopoutClosed ''spotTile-EURUSD''] None)))
     RegionNames_popout
   \<or> ''blotterModelId'' \<in> models_in (session True example_helpers []
      (rm_storage (session True example_helpers [HelperPopout (hd example_helpers), HelperPopout (example_helpers ! 1), PopoutClosed ''spotTile-EURUSD''] None)))
     RegionNames_blotter"
proof -
  have "layout example_helpers" by (simp add: layout_def example_helpers_def region_names)
  from views_restored [OF this _ _ refl refl refl, of "[HelperPopout (hd example_helpers), HelperPopout (example_helpers ! 1), PopoutClosed ''spotTile-EURUSD'']"
      "example_helpers ! 1" True None]
  show ?thesis by (auto simp: example_helpers_def)
qed

end
