(* ===== verification/StatusBar.thy ===== *)
theory StatusBar imports Heartbeats OpenFinContainer begin

text \<open>
  What the client shows of its connections: \<open>services/compositeStatusService.js\<close>,
  \<open>services/model/serviceStatusLookup.js\<close>, the footer (\<open>ui/footer/model/footerModel.js\<close>,
  \<open>ui/footer/views/statusIndicator.jsx\<close> and the summaries of \<open>ui/footer/views/footerView.jsx\<close>), the shell
  (\<open>ui/shell/model/shellModel.js\<close>) and the window chrome
  (\<open>ui/common/components/chrome/model/chromeModel.js\<close>).

  The composite service merges the statuses of the five services into one lookup, which every update
  changes in place and hands on. The published stream runs from \<open>start\<close>; the footer sees what comes
  after its own \<open>init\<close>. The connection's stream repeats its current status to a new subscriber, which
  is an event of its own here.
\<close>

section \<open>The lookup\<close>

type_synonym service_status_lookup = "service_status object"

definition updateServiceStatus :: "service_status \<Rightarrow> service_status_lookup \<Rightarrow> service_status_lookup" where
  "updateServiceStatus serviceStatus lookup = obj_set (ss_serviceType serviceStatus) serviceStatus lookup"

definition lookup_pricing :: "service_status_lookup \<Rightarrow> service_status option" where
  "lookup_pricing lookup = obj_get lookup PricingServiceKey"

definition lookup_reference :: "service_status_lookup \<Rightarrow> service_status option" where
  "lookup_reference lookup = obj_get lookup ReferenceServiceKey"

definition lookup_blotter :: "service_status_lookup \<Rightarrow> service_status option" where
  "lookup_blotter lookup = obj_get lookup BlotterServiceKey"

definition lookup_execution :: "service_status_lookup \<Rightarrow> service_status option" where
  "lookup_execution lookup = obj_get lookup ExecutionServiceKey"

definition lookup_analytics :: "service_status_lookup \<Rightarrow> service_status option" where
  "lookup_analytics lookup = obj_get lookup AnalyticsServiceKey"

section \<open>The footer\<close>

record footer =
  ft_serviceLookup :: service_status_lookup
  ft_isConnectedToBroker :: bool
  ft_connectionUrl :: "string option"
  ft_connectionType :: "connection_type option"
  ft_shouldShowServiceStatus :: bool
  ft_applicationStatus :: application_status
  ft_isRunningInOpenFin :: bool
  ft_subscribed :: bool

definition new_footer :: footer where
  "new_footer = \<lparr>ft_serviceLookup = [], ft_isConnectedToBroker = False, ft_connectionUrl = None, ft_connectionType = None,
     ft_shouldShowServiceStatus = False, ft_applicationStatus = AppUnknown, ft_isRunningInOpenFin = False, ft_subscribed = False\<rparr>"

definition updateApplicationStatus :: "footer \<Rightarrow> footer" where
  "updateApplicationStatus f =
     (let services = obj_values (ft_serviceLookup f)
      in f\<lparr>ft_applicationStatus :=
        if ft_isConnectedToBroker f \<and> list_all ss_isConnected services \<and> ft_connectionType f = Some WebSocket then Healthy
        else if list_ex ss_isConnected services then Warning
        else AppDown\<rparr>)"

text \<open>A link opens in the container or in a tab.\<close>

datatype link_call = OpenInContainer string | OpenInTab string

definition footer_openLink :: "footer \<Rightarrow> string \<Rightarrow> link_call" where
  "footer_openLink f url = (if ft_isRunningInOpenFin f then OpenInContainer url else OpenInTab url)"

section \<open>The composite status service and its subscriber\<close>

record status_bar =
  sb_lookup :: service_status_lookup
  sb_started :: bool
  sb_footer :: footer

definition new_status_bar :: status_bar where
  "new_status_bar = \<lparr>sb_lookup = [], sb_started = False, sb_footer = new_footer\<rparr>"

datatype status_event =
    CompositeStart
  | ServiceStatusIs service_status
  | FooterInit bool
  | ConnectionStatusIs connection_status string "connection_type option"
  | ToggleServiceStatus

text \<open>The footer's handlers, each followed by its \<open>postProcess\<close>.\<close>

definition footer_onInit :: "bool \<Rightarrow> footer \<Rightarrow> footer" where
  "footer_onInit isRunningInOpenFin f =
     updateApplicationStatus (f\<lparr>ft_subscribed := True, ft_isRunningInOpenFin := isRunningInOpenFin\<rparr>)"

definition footer_onToggleServiceStatus :: "footer \<Rightarrow> footer" where
  "footer_onToggleServiceStatus f =
     updateApplicationStatus (f\<lparr>ft_shouldShowServiceStatus := \<not> ft_shouldShowServiceStatus f\<rparr>)"

definition footer_onServiceStatus :: "service_status_lookup \<Rightarrow> footer \<Rightarrow> footer" where
  "footer_onServiceStatus lookup f =
     (if ft_subscribed f then updateApplicationStatus (f\<lparr>ft_serviceLookup := lookup\<rparr>) else f)"

definition footer_onConnectionStatus :: "connection_status \<Rightarrow> string \<Rightarrow> connection_type option \<Rightarrow> footer \<Rightarrow> footer" where
  "footer_onConnectionStatus status url type f =
     (if ft_subscribed f
      then updateApplicationStatus
        (f\<lparr>ft_isConnectedToBroker := (status = Connected), ft_connectionUrl := Some url, ft_connectionType := type\<rparr>)
      else f)"

fun status_bar_step :: "(status_bar, status_event, unit) handler" where
  "status_bar_step bar CompositeStart = (bar\<lparr>sb_started := True\<rparr>, [])"
| "status_bar_step bar (ServiceStatusIs serviceStatus) =
     (if \<not> sb_started bar then (bar, [])
      else
        let lookup = updateServiceStatus serviceStatus (sb_lookup bar)
        in (bar\<lparr>sb_lookup := lookup, sb_footer := footer_onServiceStatus lookup (sb_footer bar)\<rparr>, []))"
| "status_bar_step bar (FooterInit isRunningInOpenFin) =
     (bar\<lparr>sb_footer := footer_onInit isRunningInOpenFin (sb_footer bar)\<rparr>, [])"
| "status_bar_step bar (ConnectionStatusIs status url type) =
     (bar\<lparr>sb_footer := footer_onConnectionStatus status url type (sb_footer bar)\<rparr>, [])"
| "status_bar_step bar ToggleServiceStatus =
     (bar\<lparr>sb_footer := footer_onToggleServiceStatus (sb_footer bar)\<rparr>, [])"

lemmas footer_defs [simp] =
  footer_onInit_def footer_onToggleServiceStatus_def footer_onServiceStatus_def footer_onConnectionStatus_def

section \<open>The views of the footer\<close>

fun wrapperStatusCss :: "application_status \<Rightarrow> string" where
  "wrapperStatusCss Healthy = ''status-indicator--healthy''"
| "wrapperStatusCss Warning = ''status-indicator--warning''"
| "wrapperStatusCss AppDown = ''status-indicator--down''"
| "wrapperStatusCss AppUnknown = ''''"

fun iconStatusCss :: "application_status \<Rightarrow> string" where
  "iconStatusCss Healthy = ''fa fa-check''"
| "iconStatusCss Warning = ''''"
| "iconStatusCss AppDown = ''fa fa-times''"
| "iconStatusCss AppUnknown = ''''"

definition connection_text :: "footer \<Rightarrow> string" where
  "connection_text f =
     (if ft_isConnectedToBroker f
      then ''Connected to '' @ (case ft_connectionUrl f of Some url \<Rightarrow> url | None \<Rightarrow> ''undefined'') @ '' ('' @
        (case ft_connectionType f of Some type \<Rightarrow> connection_type_text type | None \<Rightarrow> ''undefined'') @ '')''
      else ''Disconnected'')"

definition renderService :: "service_status_lookup \<Rightarrow> string \<Rightarrow> string option" where
  "renderService lookup serviceType =
     (case obj_get lookup serviceType of
        None \<Rightarrow> None
      | Some statusSummary \<Rightarrow>
          Some (if ss_isConnected statusSummary
            then serviceType @ '' ('' @ dec_digits (ss_connectedInstanceCount statusSummary) @ '' '' @
              (if ss_connectedInstanceCount statusSummary = 1 then ''node'' else ''nodes'') @ '')''
            else serviceType))"

definition renderServices :: "footer \<Rightarrow> string list" where
  "renderServices f = ''broker'' # List.map_filter (renderService (ft_serviceLookup f)) (obj_keys (ft_serviceLookup f))"

section \<open>Shell and chrome\<close>

record shell = sh_sessionExpired :: bool

definition new_shell :: shell where "new_shell = \<lparr>sh_sessionExpired = False\<rparr>"

datatype shell_event = ShellInit | ReconnectClicked | ShellConnection connection_status | ShellConnectionError js_error

datatype shell_call = SubscribeSessionExpired | ConnectAgain

fun shell_step :: "(shell, shell_event, shell_call) handler" where
  "shell_step s ShellInit = (s, [SubscribeSessionExpired])"
| "shell_step s ReconnectClicked = (s, [ConnectAgain])"
| "shell_step s (ShellConnection status) = (s\<lparr>sh_sessionExpired := (status = SessionExpired)\<rparr>, [])"
| "shell_step s (ShellConnectionError e) = (s, [])"

record chrome = ch_isRunningInOpenFin :: "bool option"

datatype chrome_event = ChromeInit | MinimizeClicked | MaximizeClicked string | CloseClicked

text \<open>The argument of \<open>MaximizeClicked\<close> is the window's state when it is asked for.\<close>

fun chrome_step :: "openfin \<Rightarrow> (chrome, chrome_event, window_command) handler" where
  "chrome_step fin c ChromeInit = (c\<lparr>ch_isRunningInOpenFin := Some (of_running fin)\<rparr>, [])"
| "chrome_step fin c MinimizeClicked = (c, [MinimizeWindow])"
| "chrome_step fin c (MaximizeClicked state) = (c, [openfin_maximize state])"
| "chrome_step fin c CloseClicked = (c, [CloseWindow])"

section \<open>Lemmas\<close>

text \<open>The last status of each service and the last state of the connection in a run.\<close>

fun status_after :: "status_event \<Rightarrow> (string \<Rightarrow> service_status option) \<Rightarrow> (string \<Rightarrow> service_status option)" where
  "status_after (ServiceStatusIs st) m = m(ss_serviceType st \<mapsto> st)"
| "status_after ev m = m"

fun connection_after :: "status_event \<Rightarrow> bool \<times> connection_type option \<Rightarrow> bool \<times> connection_type option" where
  "connection_after (ConnectionStatusIs status url type) c = (status = Connected, type)"
| "connection_after ev c = c"

definition status_of :: "bool \<times> connection_type option \<Rightarrow> (string \<Rightarrow> service_status option) \<Rightarrow> application_status" where
  "status_of c m =
     (if fst c \<and> snd c = Some WebSocket \<and> (\<forall>st \<in> ran m. ss_isConnected st) then Healthy
      else if \<exists>st \<in> ran m. ss_isConnected st then Warning else AppDown)"

definition footer_view :: "footer \<Rightarrow> bool \<times> connection_type option" where
  "footer_view f = (ft_isConnectedToBroker f, ft_connectionType f)"

definition lookups_ok :: "status_bar \<Rightarrow> bool" where
  "lookups_ok bar \<longleftrightarrow> obj_ok (sb_lookup bar) \<and> obj_ok (ft_serviceLookup (sb_footer bar))"

lemma obj_values_ran: "obj_ok ob \<Longrightarrow> set (obj_values ob) = ran (obj_get ob)"
  by (auto simp: obj_values_iff ran_def)

lemma application_status:
  "obj_ok (ft_serviceLookup f) \<Longrightarrow>
     ft_applicationStatus (updateApplicationStatus f) = status_of (footer_view f) (obj_get (ft_serviceLookup f))"
  by (simp add: updateApplicationStatus_def status_of_def footer_view_def obj_values_ran list_all_iff list_ex_iff Let_def)

lemma update_view [simp]:
  "footer_view (updateApplicationStatus f) = footer_view f"
  "ft_serviceLookup (updateApplicationStatus f) = ft_serviceLookup f"
  "ft_subscribed (updateApplicationStatus f) = ft_subscribed f"
  by (simp_all add: updateApplicationStatus_def footer_view_def Let_def)

lemma lookups_ok_step: "lookups_ok bar \<Longrightarrow> lookups_ok (fst (status_bar_step bar ev))"
  by (cases ev) (auto simp: lookups_ok_def updateServiceStatus_def Let_def)

interpretation lookups: guarded_handler status_bar_step lookups_ok "\<lambda>call. True"
  by unfold_locales (simp_all add: lookups_ok_step)

lemma lookup_get [simp]: "obj_get (updateServiceStatus st lookup) = (obj_get lookup)(ss_serviceType st \<mapsto> st)"
  by (simp add: updateServiceStatus_def fun_eq_iff obj_get_set)

text \<open>The composite service, whoever listens.\<close>

lemma composite_run:
  "sb_started bar \<Longrightarrow> sb_started (final_state status_bar_step bar evs)
     \<and> obj_get (sb_lookup (final_state status_bar_step bar evs)) = fold status_after evs (obj_get (sb_lookup bar))"
proof (induction evs arbitrary: bar)
  case (Cons ev evs)
  have "sb_started (fst (status_bar_step bar ev))
      \<and> obj_get (sb_lookup (fst (status_bar_step bar ev))) = status_after ev (obj_get (sb_lookup bar))"
    using Cons.prems by (cases ev) (auto simp: Let_def)
  with Cons.IH show ?case by simp
qed simp

text \<open>Before its \<open>init\<close> the footer hears nothing.\<close>

lemma footer_deaf:
  "\<not> ft_subscribed (sb_footer bar) \<Longrightarrow> \<forall>b. FooterInit b \<notin> set evs \<Longrightarrow>
     \<not> ft_subscribed (sb_footer (final_state status_bar_step bar evs))
     \<and> ft_serviceLookup (sb_footer (final_state status_bar_step bar evs)) = ft_serviceLookup (sb_footer bar)
     \<and> footer_view (sb_footer (final_state status_bar_step bar evs)) = footer_view (sb_footer bar)"
proof (induction evs arbitrary: bar)
  case (Cons ev evs)
  have "\<not> ft_subscribed (sb_footer (fst (status_bar_step bar ev)))
      \<and> ft_serviceLookup (sb_footer (fst (status_bar_step bar ev))) = ft_serviceLookup (sb_footer bar)
      \<and> footer_view (sb_footer (fst (status_bar_step bar ev))) = footer_view (sb_footer bar)"
    using Cons.prems by (cases ev) (auto simp: Let_def footer_view_def updateApplicationStatus_def)
  with Cons.IH [of "fst (status_bar_step bar ev)"] Cons.prems(2) show ?case by (auto simp del: status_bar_step.simps)
qed simp

text \<open>Afterwards its lookup is the composite's from the first update on, and its status is always that of
  what it knows.\<close>

definition in_step :: "status_bar \<Rightarrow> bool" where
  "in_step bar \<longleftrightarrow> sb_started bar \<and> ft_subscribed (sb_footer bar) \<and> lookups_ok bar
     \<and> ft_applicationStatus (sb_footer bar) = status_of (footer_view (sb_footer bar)) (obj_get (ft_serviceLookup (sb_footer bar)))"

lemma in_step_step:
  assumes "in_step bar"
  shows "in_step (fst (status_bar_step bar ev))"
    and "footer_view (sb_footer (fst (status_bar_step bar ev))) = connection_after ev (footer_view (sb_footer bar))"
    and "obj_get (ft_serviceLookup (sb_footer (fst (status_bar_step bar ev)))) =
      (case ev of ServiceStatusIs st \<Rightarrow> status_after ev (obj_get (sb_lookup bar)) | _ \<Rightarrow> obj_get (ft_serviceLookup (sb_footer bar)))"
proof -
  have up: "sb_started bar" "ft_subscribed (sb_footer bar)" "obj_ok (sb_lookup bar)" "obj_ok (ft_serviceLookup (sb_footer bar))"
    "ft_applicationStatus (sb_footer bar) = status_of (footer_view (sb_footer bar)) (obj_get (ft_serviceLookup (sb_footer bar)))"
    using assms by (auto simp: in_step_def lookups_ok_def)
  have ok: "lookups_ok (fst (status_bar_step bar ev))" using assms lookups_ok_step by (simp add: in_step_def)
  show "footer_view (sb_footer (fst (status_bar_step bar ev))) = connection_after ev (footer_view (sb_footer bar))"
    using up(1,2) by (cases ev) (simp_all add: Let_def, simp_all add: footer_view_def)
  show "obj_get (ft_serviceLookup (sb_footer (fst (status_bar_step bar ev)))) =
      (case ev of ServiceStatusIs st \<Rightarrow> status_after ev (obj_get (sb_lookup bar)) | _ \<Rightarrow> obj_get (ft_serviceLookup (sb_footer bar)))"
    using up(1,2) by (cases ev) (simp_all add: Let_def fun_eq_iff)
  show "in_step (fst (status_bar_step bar ev))"
  proof (cases ev)
    case CompositeStart
    with up show ?thesis by (simp add: in_step_def lookups_ok_def)
  next
    case (ServiceStatusIs st)
    with up ok show ?thesis
      by (simp add: in_step_def Let_def lookups_ok_def application_status)
  qed (use up ok in \<open>simp_all add: in_step_def lookups_ok_def application_status\<close>)
qed

lemma in_step_run:
  assumes "in_step bar"
  shows "in_step (final_state status_bar_step bar evs)
    \<and> footer_view (sb_footer (final_state status_bar_step bar evs)) = fold connection_after evs (footer_view (sb_footer bar))
    \<and> obj_get (ft_serviceLookup (sb_footer (final_state status_bar_step bar evs))) =
        (if \<exists>st. ServiceStatusIs st \<in> set evs then fold status_after evs (obj_get (sb_lookup bar))
         else obj_get (ft_serviceLookup (sb_footer bar)))"
proof (induction evs rule: rev_induct)
  case (snoc ev evs)
  let ?bar = "final_state status_bar_step bar evs"
  have "obj_get (sb_lookup ?bar) = fold status_after evs (obj_get (sb_lookup bar))"
    using composite_run assms by (simp add: in_step_def)
  with snoc in_step_step [of ?bar ev] show ?case
    by (cases ev) (auto simp: run_append simp del: status_bar_step.simps)
qed (use assms in simp)

section \<open>Properties\<close>

text \<open>C38: from its \<open>init\<close> on the footer shows a status that is a function of what has been heard since: healthy
  when the connection is up over a web socket and every service it knows is connected, a warning when
  some service is, and down otherwise. It knows the last status of every service once one has changed
  since its \<open>init\<close>, and no service before, so until then a connection alone makes it healthy, even if
  every service was last reported as disconnected.\<close>

theorem footer_status:
  assumes "\<forall>b. FooterInit b \<notin> set before"
    and "bar = final_state status_bar_step new_status_bar (CompositeStart # before @ FooterInit running # after)"
    and "known = (if \<exists>st. ServiceStatusIs st \<in> set after then fold status_after (before @ after) Map.empty else Map.empty)"
  shows "ft_applicationStatus (sb_footer bar) = status_of (fold connection_after after (False, None)) known"
proof -
  let ?b0 = "final_state status_bar_step new_status_bar (CompositeStart # before)"
  let ?b1 = "fst (status_bar_step ?b0 (FooterInit running))"
  have "lookups_ok new_status_bar" by (simp add: lookups_ok_def new_status_bar_def new_footer_def)
  then have ok: "lookups_ok ?b0" by (rule lookups.run_inv)
  have "sb_started (fst (status_bar_step new_status_bar CompositeStart))" by simp
  from composite_run [OF this, of before]
  have b0: "sb_started ?b0" "obj_get (sb_lookup ?b0) = fold status_after before Map.empty"
    by (simp_all add: new_status_bar_def)
  have "\<not> ft_subscribed (sb_footer (fst (status_bar_step new_status_bar CompositeStart)))"
    by (simp add: new_status_bar_def new_footer_def)
  from footer_deaf [OF this assms(1)]
  have f0: "ft_serviceLookup (sb_footer ?b0) = []" "footer_view (sb_footer ?b0) = (False, None)"
    by (simp_all add: new_status_bar_def new_footer_def footer_view_def)
  have b1: "in_step ?b1" "obj_get (sb_lookup ?b1) = fold status_after before Map.empty"
    "footer_view (sb_footer ?b1) = (False, None)" "obj_get (ft_serviceLookup (sb_footer ?b1)) = Map.empty"
    using b0 f0 ok by (simp_all add: in_step_def lookups_ok_def application_status, simp_all add: footer_view_def)
  have "bar = final_state status_bar_step ?b1 after"
    unfolding assms(2) append_Cons [symmetric] run_append by simp
  with in_step_run [OF b1(1), of after] b1(2-4) show ?thesis
    by (simp add: in_step_def assms(3))
qed

definition all_down :: "status_event list" where
  "all_down = map (\<lambda>ty. ServiceStatusIs (new_service_status ty [] False))
     [PricingServiceKey, ReferenceServiceKey, BlotterServiceKey, ExecutionServiceKey, AnalyticsServiceKey]"

lemma footer_status_witness:
  "ft_applicationStatus (sb_footer (final_state status_bar_step new_status_bar
     (CompositeStart # all_down @ FooterInit False # [ConnectionStatusIs Connected ''ws://broker'' (Some WebSocket)]))) = Healthy"
  by (subst footer_status [OF _ refl refl]) (auto simp: all_down_def status_of_def)

end
