(* ===== verification/Docking.thy ===== *)
theory Docking imports JsObject Complex_Main begin

text \<open>
  The docking of torn off windows, \<open>lib/dockingManager.js\<close>: \<open>DockableWindow\<close> objects that snap to each
  other while they are dragged and are docked into \<open>DockingGroup\<close>s when the drag ends. Windows and
  groups are shared and mutated through references, so they live in a store: an address stands for
  an object. Coordinates are the whole pixels of OpenFin's bounds. What the objects ask of OpenFin, of its
  bus and of \<open>localStorage\<close> is appended to a list of calls; what OpenFin reports comes in as events.
\<close>

section \<open>Windows, groups and the store\<close>

record rect =
  rc_x :: int
  rc_y :: int
  rc_width :: int
  rc_height :: int

record box = rect +
  bx_currentRange :: int

text \<open>\<open>dw_minimised\<close> guards the calls of a window to its OpenFin window; \<open>dw_minimized\<close> is another field, which the container's
  events set and nothing reads (it has no value before).\<close>

record dockable = box +
  dw_name :: string
  dw_openfinWindow :: nat
  dw_isDocked :: bool
  dw_dockableToOthers :: bool
  dw_acceptDockingConnection :: bool
  dw_minimised :: bool
  dw_minimized :: bool
  dw_opacity :: "rat option"
  dw_group :: "nat option"
  dw_listening :: bool
  dw_subscribed :: bool

datatype side = SideRight | SideLeft | SideTop | SideBottom

record window_options =
  wo_name :: string
  wo_url :: string
  wo_defaultLeft :: int
  wo_defaultTop :: int
  wo_defaultWidth :: int
  wo_defaultHeight :: int
  wo_frame :: bool
  wo_resize :: bool
  wo_windowState :: string
  wo_autoShow :: bool

datatype dock_call =
    CreateWindow nat window_options
  | DisableFrame nat
  | EnableFrame nat
  | GetBounds nat
  | SetWindowBounds nat int int int int
  | AnimateOpacity nat rat
  | JoinWindowGroup nat nat
  | LeaveWindowGroup nat
  | MinimizeWindow nat
  | RestoreWindow nat
  | PublishDocked string
  | PublishUndocked string

record docking =
  dk_window :: "nat \<Rightarrow> dockable"
  dk_next :: nat
  dk_children :: "nat \<Rightarrow> nat list"
  dk_nextGroup :: nat
  dk_windows :: "nat list"
  dk_snapped :: "(nat \<times> nat \<times> side) option object"
  dk_minimized :: bool
  dk_instances :: "nat object"
  dk_storage :: "string object"
  dk_monitors :: "rect list"
  dk_calls :: "dock_call list"

definition dock_range :: int where "dock_range = 40"
definition dock_spacing :: int where "dock_spacing = 5"

text \<open>The fields of the prototype, and the store before the first window.\<close>

definition prototype_window :: dockable where
  "prototype_window = \<lparr>rc_x = 0, rc_y = 0, rc_width = 0, rc_height = 0, bx_currentRange = 40, dw_name = '''',
     dw_openfinWindow = 0, dw_isDocked = False, dw_dockableToOthers = True, dw_acceptDockingConnection = True,
     dw_minimised = False, dw_minimized = False, dw_opacity = None, dw_group = None, dw_listening = False, dw_subscribed = False\<rparr>"

definition new_docking :: "string object \<Rightarrow> docking" where
  "new_docking storage = \<lparr>dk_window = (\<lambda>w. prototype_window), dk_next = 0, dk_children = (\<lambda>k. []), dk_nextGroup = 0,
     dk_windows = [], dk_snapped = [], dk_minimized = False, dk_instances = [], dk_storage = storage,
     dk_monitors = [], dk_calls = []\<rparr>"

definition set_window :: "nat \<Rightarrow> (dockable \<Rightarrow> dockable) \<Rightarrow> docking \<Rightarrow> docking" where
  "set_window w f d = d\<lparr>dk_window := (dk_window d)(w := f (dk_window d w))\<rparr>"

definition dock_calls :: "dock_call list \<Rightarrow> docking \<Rightarrow> docking" where
  "dock_calls calls d = d\<lparr>dk_calls := dk_calls d @ calls\<rparr>"

section \<open>Geometry\<close>

definition intersact :: "'a rect_scheme \<Rightarrow> 'b rect_scheme \<Rightarrow> bool" where
  "intersact window1 window2 \<longleftrightarrow>
     \<not> (rc_x window1 + rc_width window1 < rc_x window2 \<or> rc_x window2 + rc_width window2 < rc_x window1
       \<or> rc_y window1 + rc_height window1 < rc_y window2 \<or> rc_y window2 + rc_height window2 < rc_y window1)"

definition isPointInVerticalZone :: "int \<Rightarrow> int \<Rightarrow> int \<Rightarrow> int \<Rightarrow> bool" where
  "isPointInVerticalZone startY endY y height =
     (let bottom = y + height
      in y \<ge> startY \<and> y \<le> endY \<or> bottom \<ge> startY \<and> bottom \<le> endY)"

definition isPointInHorizontalZone :: "int \<Rightarrow> int \<Rightarrow> int \<Rightarrow> int \<Rightarrow> bool" where
  "isPointInHorizontalZone startX endX x width =
     (let rightCorner = x + width
      in x \<ge> startX \<and> x \<le> endX \<or> rightCorner \<ge> startX \<and> rightCorner \<le> endX)"

definition isSnapable :: "'a box_scheme \<Rightarrow> 'b rect_scheme \<Rightarrow> side option" where
  "isSnapable current window =
     (let range = bx_currentRange current;
          isInVerticalZone = isPointInVerticalZone (rc_y window) (rc_y window + rc_height window)
            (rc_y current) (rc_height current)
      in if (rc_x current > rc_x window + rc_width window - range \<and> rc_x current < rc_x window + rc_width window + range)
            \<and> isInVerticalZone then Some SideRight
         else if (rc_x current + rc_width current > rc_x window - range
            \<and> rc_x current + rc_width current < rc_x window + range) \<and> isInVerticalZone then Some SideLeft
         else
           let isInHorizontalZone = isPointInHorizontalZone (rc_x window) (rc_x window + rc_width window)
                 (rc_x current) (rc_width current)
           in if (rc_y current > rc_y window + rc_height window - range
                 \<and> rc_y current < rc_y window + rc_height window + range) \<and> isInHorizontalZone then Some SideBottom
              else if (rc_y current + rc_height current > rc_y window - range
                 \<and> rc_y current + rc_height current < rc_y window + range) \<and> isInHorizontalZone then Some SideTop
              else None)"

fun reverse_side :: "side \<Rightarrow> side" where
  "reverse_side SideRight = SideLeft"
| "reverse_side SideLeft = SideRight"
| "reverse_side SideTop = SideBottom"
| "reverse_side SideBottom = SideTop"

definition getVerticalEdgeSnapping :: "'a rect_scheme \<Rightarrow> 'b rect_scheme \<Rightarrow> int option" where
  "getVerticalEdgeSnapping window current =
     (if rc_y current \<le> rc_y window + dock_range \<and> rc_y current \<ge> rc_y window - dock_range then Some (rc_y window)
      else if rc_y current + rc_height current \<ge> rc_y window + rc_height window - dock_range
           \<and> rc_y current + rc_height current \<le> rc_y window + rc_height window + dock_range
        then Some (rc_y window + rc_height window - rc_height current)
      else None)"

definition getHorizontalEdgeSnapping :: "'a rect_scheme \<Rightarrow> 'b rect_scheme \<Rightarrow> int option" where
  "getHorizontalEdgeSnapping window current =
     (if rc_x current \<le> rc_x window + dock_range \<and> rc_x current \<ge> rc_x window - dock_range then Some (rc_x window)
      else if rc_x current + rc_width current \<ge> rc_x window + rc_width window - dock_range
           \<and> rc_x current + rc_width current \<le> rc_x window + rc_width window + dock_range
        then Some (rc_x window + rc_width window - rc_width current)
      else None)"

text \<open>The position asked for, an absent coordinate being \<open>null\<close>.\<close>

fun snapToWindow :: "'a rect_scheme \<Rightarrow> 'b rect_scheme \<Rightarrow> 'c rect_scheme \<Rightarrow> side \<Rightarrow> int option \<times> int option" where
  "snapToWindow target bounds window SideRight =
     (Some (rc_x window + rc_width window + dock_spacing), getVerticalEdgeSnapping window bounds)"
| "snapToWindow target bounds window SideLeft =
     (Some (rc_x window - rc_width target - dock_spacing), getVerticalEdgeSnapping window bounds)"
| "snapToWindow target bounds window SideTop =
     (getHorizontalEdgeSnapping window bounds, Some (rc_y window - rc_height target - dock_spacing))"
| "snapToWindow target bounds window SideBottom =
     (getHorizontalEdgeSnapping window bounds, Some (rc_y window + rc_height window + dock_spacing))"

section \<open>A window\<close>

definition setOpacity :: "rat \<Rightarrow> nat \<Rightarrow> docking \<Rightarrow> docking" where
  "setOpacity v w d =
     (if dw_opacity (dk_window d w) = Some v then d
      else dock_calls [AnimateOpacity w v] (set_window w (dw_opacity_update (\<lambda>_. Some v)) d))"

text \<open>A size that is left out or zero keeps the size of the window. The listener for the drag is off until OpenFin
  has moved the window.\<close>

definition keep_size :: "int option \<Rightarrow> int \<Rightarrow> int" where
  "keep_size given old = (case given of None \<Rightarrow> old | Some v \<Rightarrow> if v = 0 then old else v)"

definition window_moveTo :: "nat \<Rightarrow> int \<Rightarrow> int \<Rightarrow> int option \<Rightarrow> int option \<Rightarrow> docking \<Rightarrow> docking" where
  "window_moveTo w x y width height d =
     (let width' = keep_size width (rc_width (dk_window d w));
          height' = keep_size height (rc_height (dk_window d w))
      in dock_calls [SetWindowBounds w x y width' height']
           (set_window w (\<lambda>v. v\<lparr>rc_x := x, rc_y := y, rc_width := width', rc_height := height', dw_listening := False\<rparr>) d))"

definition window_onMoved :: "nat \<Rightarrow> docking \<Rightarrow> docking" where
  "window_onMoved w d = set_window w (dw_listening_update (\<lambda>_. True)) d"

definition window_onBounds :: "nat \<Rightarrow> int \<Rightarrow> int \<Rightarrow> int \<Rightarrow> int \<Rightarrow> docking \<Rightarrow> docking" where
  "window_onBounds w left tp width height d =
     set_window w (\<lambda>v. v\<lparr>rc_x := left, rc_y := tp, rc_width := width, rc_height := height\<rparr>) d"

definition window_minimize :: "nat \<Rightarrow> docking \<Rightarrow> docking" where
  "window_minimize w d =
     (if dw_minimised (dk_window d w) then d
      else dock_calls [MinimizeWindow w] (set_window w (dw_minimised_update (\<lambda>_. True)) d))"

definition window_restore :: "nat \<Rightarrow> docking \<Rightarrow> docking" where
  "window_restore w d =
     (if \<not> dw_minimised (dk_window d w) then d
      else dock_calls [RestoreWindow w] (set_window w (dw_minimised_update (\<lambda>_. False)) d))"

definition isInView :: "docking \<Rightarrow> nat \<Rightarrow> bool" where
  "isInView d w \<longleftrightarrow>
     list_ex (\<lambda>m. intersact (dk_window d w) m \<and> rc_y (dk_window d w) \<ge> rc_y m) (dk_monitors d)"

definition isGroupInView :: "docking \<Rightarrow> nat \<Rightarrow> bool" where
  "isGroupInView d k \<longleftrightarrow> list_ex (isInView d) (dk_children d k)"

section \<open>Groups\<close>

definition group_add :: "nat \<Rightarrow> nat \<Rightarrow> docking \<Rightarrow> docking" where
  "group_add k w d =
     (if dw_group (dk_window d w) = Some k then d
      else set_window w (dw_group_update (\<lambda>_. Some k))
        (d\<lparr>dk_children := (dk_children d)(k := dk_children d k @ [w])\<rparr>))"

definition group_remove :: "nat \<Rightarrow> nat \<Rightarrow> docking \<Rightarrow> docking" where
  "group_remove k w d =
     (if w \<in> set (dk_children d k)
      then set_window w (dw_group_update (\<lambda>_. None))
        (d\<lparr>dk_children := (dk_children d)(k := remove1 w (dk_children d k))\<rparr>)
      else d)"

text \<open>The end of \<open>joinGroup\<close>, once the groups are settled.\<close>

definition window_docked :: "nat \<Rightarrow> nat \<Rightarrow> docking \<Rightarrow> docking" where
  "window_docked w g d =
     (let d1 = set_window w (dw_isDocked_update (\<lambda>_. True)) (dock_calls [EnableFrame w, EnableFrame g, JoinWindowGroup w g] d);
          name = dw_name (dk_window d1 w); partner = dw_name (dk_window d1 g)
      in dock_calls [PublishDocked name, PublishDocked partner] (d1\<lparr>dk_storage := obj_set name partner (dk_storage d1)\<rparr>))"

text \<open>The branch of the source in which a window that has a group is joined by the other way round cannot be reached,
  as a window with a group returns at once.\<close>

definition window_joinGroup :: "nat \<Rightarrow> nat \<Rightarrow> docking \<Rightarrow> docking" where
  "window_joinGroup w g d =
     (if dw_group (dk_window d w) \<noteq> None then d
      else if \<not> dw_dockableToOthers (dk_window d w) \<or> \<not> dw_acceptDockingConnection (dk_window d g) then d
      else case dw_group (dk_window d g) of
        Some k \<Rightarrow>
          if list_ex (\<lambda>c. intersact (dk_window d w) (dk_window d c)) (dk_children d k) then d
          else window_docked w g (group_add k w d)
      | None \<Rightarrow>
          let k = dk_nextGroup d
          in window_docked w g (group_add k w (group_add k g
               (d\<lparr>dk_nextGroup := Suc k, dk_children := (dk_children d)(k := [])\<rparr>))))"

text \<open>\<open>leaveGroup\<close> up to and after its call on the window left alone. It need not return when groups and windows
  disagree, so it is a partial function.\<close>

definition leave_begin :: "nat \<Rightarrow> docking \<Rightarrow> docking" where
  "leave_begin w d =
     (let d1 = dock_calls [DisableFrame w] d;
          d2 = (case dw_group (dk_window d1 w) of None \<Rightarrow> d1 | Some k \<Rightarrow> group_remove k w d1)
      in dock_calls [PublishUndocked (dw_name (dk_window d2 w))]
           (set_window w (dw_isDocked_update (\<lambda>_. False)) (dock_calls [LeaveWindowGroup w] d2)))"

definition leave_end :: "nat option \<Rightarrow> nat \<Rightarrow> docking \<Rightarrow> docking" where
  "leave_end grp w d =
     (let d1 = (if isInView d w then d
                else window_moveTo w 0 0 (Some (rc_width (dk_window d w))) (Some (rc_height (dk_window d w))) d);
          d2 = (case grp of
                  None \<Rightarrow> d1
                | Some k \<Rightarrow>
                    (case dk_children d1 k of
                       [] \<Rightarrow> d1
                     | c # cs \<Rightarrow> if isGroupInView d1 k then d1 else window_moveTo c 0 0 None None d1))
      in d2\<lparr>dk_storage := obj_delete (dw_name (dk_window d2 w)) (dk_storage d2)\<rparr>)"

definition left_alone :: "nat option \<Rightarrow> docking \<Rightarrow> nat option" where
  "left_alone grp d =
     (case grp of None \<Rightarrow> None
      | Some k \<Rightarrow> (case dk_children d k of [c] \<Rightarrow> Some c | _ \<Rightarrow> None))"

partial_function (option) window_leaveGroup :: "nat \<Rightarrow> docking \<Rightarrow> docking option" where
  "window_leaveGroup w d =
     (let grp = dw_group (dk_window d w);
          d1 = leave_begin w d
      in case left_alone grp d1 of
           None \<Rightarrow> Some (leave_end grp w d1)
         | Some c \<Rightarrow> Option.bind (window_leaveGroup c d1) (\<lambda>d2. Some (leave_end grp w d2)))"

section \<open>The manager\<close>

definition addToSnapList :: "nat \<Rightarrow> nat \<Rightarrow> side \<Rightarrow> docking \<Rightarrow> docking" where
  "addToSnapList w1 w2 pos d =
     setOpacity (1 / 2) w2 (setOpacity (1 / 2) w1
       (d\<lparr>dk_snapped := obj_set (dw_name (dk_window d w1) @ dw_name (dk_window d w2)) (Some (w1, w2, pos)) (dk_snapped d)\<rparr>))"

definition removeFromSnapList :: "nat \<Rightarrow> nat \<Rightarrow> docking \<Rightarrow> docking" where
  "removeFromSnapList w1 w2 d =
     (let name = dw_name (dk_window d w1) @ dw_name (dk_window d w2)
      in case obj_get (dk_snapped d) name of
           Some (Some entry) \<Rightarrow> setOpacity 1 w2 (d\<lparr>dk_snapped := obj_set name None (dk_snapped d)\<rparr>)
         | _ \<Rightarrow> d)"

definition snap_side :: "'a box_scheme \<Rightarrow> 'b box_scheme \<Rightarrow> side option" where
  "snap_side bounds window =
     (case isSnapable bounds window of
        Some s \<Rightarrow> Some s
      | None \<Rightarrow> map_option reverse_side (isSnapable window bounds))"

text \<open>A coordinate that is absent or zero counts as not set yet, so that a later window may set it.\<close>

definition unset_coordinate :: "int option \<Rightarrow> bool" where
  "unset_coordinate p \<longleftrightarrow> p = None \<or> p = Some 0"

definition first_coordinate :: "int option \<Rightarrow> int option \<Rightarrow> int option" where
  "first_coordinate p q = (if unset_coordinate p then q else p)"

text \<open>One turn of the loop of \<open>onWindowMove\<close>: the store and the position found so far.\<close>

fun snap_turn :: "nat \<Rightarrow> box \<Rightarrow> nat \<Rightarrow> docking \<times> int option \<times> int option \<Rightarrow> docking \<times> int option \<times> int option" where
  "snap_turn w bounds v (d, px, py) =
     (case snap_side bounds (dk_window d v) of
        Some s \<Rightarrow>
          let d1 = set_window w (bx_currentRange_update (\<lambda>_. dock_range + 10)) d;
              (x, y) = snapToWindow (dk_window d1 w) bounds (dk_window d1 v) s
          in (addToSnapList w v s d1, first_coordinate px x, first_coordinate py y)
      | None \<Rightarrow>
          (removeFromSnapList w v (set_window w (bx_currentRange_update (\<lambda>_. dock_range)) d), px, py))"

definition still_snapped :: "docking \<Rightarrow> string \<Rightarrow> docking" where
  "still_snapped d name =
     (case obj_get (dk_snapped d) name of
        Some (Some (w1, w2, s)) \<Rightarrow>
          if isSnapable (dk_window d w1) (dk_window d w2) \<noteq> None \<or> isSnapable (dk_window d w2) (dk_window d w1) \<noteq> None
          then d else removeFromSnapList w1 w2 d
      | _ \<Rightarrow> d)"

definition checkIfStillSnapped :: "docking \<Rightarrow> docking" where
  "checkIfStillSnapped d = foldl still_snapped d (obj_keys (dk_snapped d))"

text \<open>The first component is \<open>event.preventDefault\<close>.\<close>

definition snap_bounds :: "docking \<Rightarrow> nat \<Rightarrow> int \<Rightarrow> int \<Rightarrow> box" where
  "snap_bounds d w left tp = \<lparr>rc_x = left, rc_y = tp, rc_width = rc_width (dk_window d w),
     rc_height = rc_height (dk_window d w), bx_currentRange = bx_currentRange (dk_window d w)\<rparr>"

definition onWindowMove :: "nat \<Rightarrow> int \<Rightarrow> int \<Rightarrow> docking \<Rightarrow> bool \<times> docking" where
  "onWindowMove w left tp d =
     (if dw_group (dk_window d w) \<noteq> None then (False, d)
      else
        let bounds = snap_bounds d w left tp;
            (d1, px, py) = foldr (snap_turn w bounds) (dk_windows d) (d, None, None)
        in if \<not> unset_coordinate px \<or> \<not> unset_coordinate py then
             let x = (if unset_coordinate px then left else the px);
                 y = (if unset_coordinate py then tp else the py)
             in (True, checkIfStillSnapped (window_moveTo w x y None None d1))
           else (False, d1))"

definition window_onBoundsChanging :: "nat \<Rightarrow> int \<Rightarrow> int \<Rightarrow> int \<Rightarrow> int \<Rightarrow> docking \<Rightarrow> docking" where
  "window_onBoundsChanging w left tp width height d =
     (let (preventDefault, d1) = onWindowMove w left tp d
      in if preventDefault then d1
         else
           let d2 = (if dw_isDocked (dk_window d1 w) then d1 else setOpacity (1 / 2) w d1)
           in window_moveTo w left tp (Some width) (Some height) d2)"

definition addWindowToTheGroup :: "nat \<Rightarrow> nat \<Rightarrow> docking \<Rightarrow> docking" where
  "addWindowToTheGroup w1 w2 d = window_joinGroup w1 w2 (setOpacity 1 w2 (setOpacity 1 w1 d))"

definition dock_snapped :: "docking \<Rightarrow> string \<Rightarrow> docking" where
  "dock_snapped d name =
     (case obj_get (dk_snapped d) name of
        Some (Some (w1, w2, s)) \<Rightarrow> addWindowToTheGroup w1 w2 (d\<lparr>dk_snapped := obj_set name None (dk_snapped d)\<rparr>)
      | _ \<Rightarrow> d\<lparr>dk_snapped := obj_delete name (dk_snapped d)\<rparr>)"

definition dockAllSnappedWindows :: "docking \<Rightarrow> docking" where
  "dockAllSnappedWindows d = foldl dock_snapped d (obj_keys (dk_snapped d))"

definition window_onBoundsChanged :: "nat \<Rightarrow> docking \<Rightarrow> docking" where
  "window_onBoundsChanged w d = dockAllSnappedWindows (setOpacity 1 w d)"

definition onWindowMinimize :: "docking \<Rightarrow> docking" where
  "onWindowMinimize d =
     (if dk_minimized d then d else fold window_minimize (dk_windows d) (d\<lparr>dk_minimized := True\<rparr>))"

definition onWindowRestore :: "docking \<Rightarrow> docking" where
  "onWindowRestore d =
     (if \<not> dk_minimized d then d else fold window_restore (dk_windows d) (d\<lparr>dk_minimized := False\<rparr>))"

definition window_onMinimized :: "nat \<Rightarrow> docking \<Rightarrow> docking" where
  "window_onMinimized w d = onWindowMinimize (set_window w (dw_minimized_update (\<lambda>_. True)) d)"

definition window_onRestored :: "nat \<Rightarrow> docking \<Rightarrow> docking" where
  "window_onRestored w d = onWindowRestore (set_window w (dw_minimized_update (\<lambda>_. False)) d)"

definition onVisibilityChanged :: "bool \<Rightarrow> docking \<Rightarrow> docking" where
  "onVisibilityChanged hidden d = (if hidden then onWindowMinimize d else onWindowRestore d)"

text \<open>Registering makes a new \<open>DockableWindow\<close>, so it is never among the windows yet. It is made of an OpenFin window, or of
  options, for which OpenFin first makes the window.\<close>

definition dockable_of :: "nat \<Rightarrow> string \<Rightarrow> bool \<Rightarrow> dockable" where
  "dockable_of native name created =
     prototype_window\<lparr>dw_name := name, dw_openfinWindow := native, dw_listening := created, dw_subscribed := created\<rparr>"

definition window_created_calls :: "nat \<Rightarrow> dock_call list" where
  "window_created_calls w = [GetBounds w, DisableFrame w]"

definition window_onWindowCreated :: "nat \<Rightarrow> docking \<Rightarrow> docking" where
  "window_onWindowCreated w d =
     dock_calls (window_created_calls w) (set_window w (\<lambda>v. v\<lparr>dw_listening := True, dw_subscribed := True\<rparr>) d)"

definition add_dockable :: "dockable \<Rightarrow> dock_call list \<Rightarrow> bool option \<Rightarrow> docking \<Rightarrow> docking" where
  "add_dockable new calls dockableToOthers d =
     (let w = dk_next d;
          d1 = set_window w (\<lambda>_. new) (d\<lparr>dk_next := Suc w\<rparr>);
          d2 = (dock_calls calls d1)\<lparr>dk_instances := obj_set (dw_name new) w (dk_instances d)\<rparr>;
          d3 = set_window w (dw_dockableToOthers_update (\<lambda>_. dockableToOthers \<noteq> Some False)) d2
      in if w \<in> set (dk_windows d3) then d3 else d3\<lparr>dk_windows := dk_windows d3 @ [w]\<rparr>)"

definition dock_register :: "nat \<Rightarrow> string \<Rightarrow> bool option \<Rightarrow> docking \<Rightarrow> docking" where
  "dock_register native name dockableToOthers d =
     add_dockable (dockable_of native name True) (window_created_calls (dk_next d)) dockableToOthers d"

definition dock_register_options :: "nat \<Rightarrow> window_options \<Rightarrow> bool option \<Rightarrow> docking \<Rightarrow> docking" where
  "dock_register_options native options dockableToOthers d =
     add_dockable (dockable_of native (wo_name options) False)
       [CreateWindow (dk_next d) (options\<lparr>wo_defaultLeft := wo_defaultLeft options - 150, wo_defaultTop := wo_defaultTop options - 100\<rparr>)]
       dockableToOthers d"

definition dock_unregister :: "nat \<Rightarrow> docking \<Rightarrow> docking" where
  "dock_unregister w d = d\<lparr>dk_windows := remove1 w (dk_windows d)\<rparr>"

definition getWindowByOpenfinWindow :: "nat \<Rightarrow> docking \<Rightarrow> nat option" where
  "getWindowByOpenfinWindow native d = find (\<lambda>w. dw_openfinWindow (dk_window d w) = native) (dk_windows d)"

definition dock_unregister_native :: "nat \<Rightarrow> docking \<Rightarrow> docking" where
  "dock_unregister_native native d =
     (case getWindowByOpenfinWindow native d of None \<Rightarrow> d | Some w \<Rightarrow> dock_unregister w d)"

definition onMonitorInfo :: "rect list \<Rightarrow> docking \<Rightarrow> docking" where
  "onMonitorInfo areas d = d\<lparr>dk_monitors := dk_monitors d @ areas\<rparr>"

text \<open>\<open>onLoad\<close>: the group a window was in when the application was last used is looked for among the windows
  made since; \<open>isSnapable\<close> reads a field of it first.\<close>

definition window_onLoad :: "nat \<Rightarrow> string \<Rightarrow> docking \<Rightarrow> js_error option \<times> docking" where
  "window_onLoad w windowName d =
     (if windowName \<noteq> dw_name (dk_window d w) then (None, d)
      else
        let d1 = set_window w (dw_subscribed_update (\<lambda>_. False)) d
        in case obj_get (dk_storage d1) (dw_name (dk_window d1 w)) of
             None \<Rightarrow> (None, d1)
           | Some groupName \<Rightarrow>
               if groupName = '''' then (None, d1)
               else (case obj_get (dk_instances d1) groupName of
                 None \<Rightarrow> (Some (TypeError ''Cannot read property 'y' of undefined''), d1)
               | Some win \<Rightarrow>
                   (None, if isSnapable (dk_window d1 w) (dk_window d1 win) \<noteq> None
                             \<or> isSnapable (dk_window d1 win) (dk_window d1 w) \<noteq> None
                          then window_joinGroup w win d1 else d1)))"

text \<open>Every window of that name leaves its group; \<open>undockAll\<close> is the same for all windows.\<close>

definition leave_all :: "nat list \<Rightarrow> docking \<Rightarrow> docking option" where
  "leave_all ws d = run_option (\<lambda>d w. window_leaveGroup w d) d ws"

definition undock_window :: "string \<Rightarrow> docking \<Rightarrow> nat \<Rightarrow> docking option" where
  "undock_window name d w = (if dw_name (dk_window d w) = name then window_leaveGroup w d else Some d)"

definition undock_named :: "string \<Rightarrow> nat list \<Rightarrow> docking \<Rightarrow> docking option" where
  "undock_named name ws d = run_option (undock_window name) d ws"

definition onUndock :: "string \<Rightarrow> docking \<Rightarrow> docking option" where
  "onUndock name d = undock_named name (dk_windows d) d"

definition undockAll :: "docking \<Rightarrow> docking option" where
  "undockAll d = leave_all (dk_windows d) d"

section \<open>Events\<close>

text \<open>What OpenFin, its bus and the client send. A window event concerns an object that was made; the drag
  is heard only while its listener is on, the load message only until it was acted on.\<close>

datatype dock_event =
    RegisterWindow nat string "bool option"
  | RegisterOptions nat window_options "bool option"
  | WindowCreated nat
  | UnregisterWindow nat
  | WindowLoad nat string
  | BoundsReported nat int int int int
  | BoundsChanging nat int int int int
  | BoundsChanged nat
  | WindowMoved nat
  | WindowClosed nat
  | WindowMinimized nat
  | WindowRestored nat
  | UndockWindow string
  | UndockAll
  | VisibilityChanged bool
  | MonitorInfo "rect list"

fun event_window :: "dock_event \<Rightarrow> nat option" where
  "event_window (WindowCreated w) = Some w"
| "event_window (WindowLoad w name) = Some w"
| "event_window (BoundsReported w l t wd ht) = Some w"
| "event_window (BoundsChanging w l t wd ht) = Some w"
| "event_window (BoundsChanged w) = Some w"
| "event_window (WindowMoved w) = Some w"
| "event_window (WindowClosed w) = Some w"
| "event_window (WindowMinimized w) = Some w"
| "event_window (WindowRestored w) = Some w"
| "event_window e = None"

fun dock_handle :: "docking \<Rightarrow> dock_event \<Rightarrow> docking option" where
  "dock_handle d (RegisterWindow native name dockable) = Some (dock_register native name dockable d)"
| "dock_handle d (RegisterOptions native options dockable) = Some (dock_register_options native options dockable d)"
| "dock_handle d (WindowCreated w) = Some (window_onWindowCreated w d)"
| "dock_handle d (UnregisterWindow native) = Some (dock_unregister_native native d)"
| "dock_handle d (WindowLoad w name) = Some (if dw_subscribed (dk_window d w) then snd (window_onLoad w name d) else d)"
| "dock_handle d (BoundsReported w l t wd ht) = Some (window_onBounds w l t wd ht d)"
| "dock_handle d (BoundsChanging w l t wd ht) =
     Some (if dw_listening (dk_window d w) then window_onBoundsChanging w l t wd ht d else d)"
| "dock_handle d (BoundsChanged w) = Some (window_onBoundsChanged w d)"
| "dock_handle d (WindowMoved w) = Some (window_onMoved w d)"
| "dock_handle d (WindowClosed w) = Some (dock_unregister w d)"
| "dock_handle d (WindowMinimized w) = Some (window_onMinimized w d)"
| "dock_handle d (WindowRestored w) = Some (window_onRestored w d)"
| "dock_handle d (UndockWindow name) = onUndock name d"
| "dock_handle d UndockAll = undockAll d"
| "dock_handle d (VisibilityChanged hidden) = Some (onVisibilityChanged hidden d)"
| "dock_handle d (MonitorInfo areas) = Some (onMonitorInfo areas d)"

definition dock_step :: "docking \<Rightarrow> dock_event \<Rightarrow> docking option" where
  "dock_step d e =
     (case event_window e of
        Some w \<Rightarrow> if w < dk_next d then dock_handle d e else Some d
      | None \<Rightarrow> dock_handle d e)"

abbreviation dock_run :: "docking \<Rightarrow> dock_event list \<Rightarrow> docking option" where
  "dock_run \<equiv> run_option dock_step"

section \<open>What geometry, opacity and minimising leave alone\<close>

text \<open>Most operations only move, dim or minimise windows. \<open>dock_frame d d'\<close> says that nothing else happened.\<close>

definition dock_frame :: "docking \<Rightarrow> docking \<Rightarrow> bool" where
  "dock_frame d d' \<longleftrightarrow>
     (\<forall>w. dw_group (dk_window d' w) = dw_group (dk_window d w)
       \<and> dw_isDocked (dk_window d' w) = dw_isDocked (dk_window d w)
       \<and> dw_name (dk_window d' w) = dw_name (dk_window d w)
       \<and> (bx_currentRange (dk_window d w) \<in> {40, 50} \<longrightarrow> bx_currentRange (dk_window d' w) \<in> {40, 50}))
     \<and> dk_children d' = dk_children d \<and> dk_nextGroup d' = dk_nextGroup d \<and> dk_next d' = dk_next d
     \<and> dk_windows d' = dk_windows d \<and> dk_instances d' = dk_instances d"

named_theorems dock_frames \<open>the operations within the frame\<close>

lemma dock_frame_refl [simp, dock_frames]: "dock_frame d d"
  by (simp add: dock_frame_def)

lemma dock_frame_trans: "dock_frame d d' \<Longrightarrow> dock_frame d' d'' \<Longrightarrow> dock_frame d d''"
  by (auto simp: dock_frame_def)

lemma window_set_window [simp]:
  "dk_window (set_window w f d) v = (if v = w then f (dk_window d w) else dk_window d v)"
  by (simp add: set_window_def)

lemma set_window_sel [simp]:
  "dk_next (set_window w f d) = dk_next d" "dk_children (set_window w f d) = dk_children d"
  "dk_nextGroup (set_window w f d) = dk_nextGroup d" "dk_windows (set_window w f d) = dk_windows d"
  "dk_snapped (set_window w f d) = dk_snapped d" "dk_minimized (set_window w f d) = dk_minimized d"
  "dk_instances (set_window w f d) = dk_instances d" "dk_storage (set_window w f d) = dk_storage d"
  "dk_monitors (set_window w f d) = dk_monitors d" "dk_calls (set_window w f d) = dk_calls d"
  by (simp_all add: set_window_def)

lemma dock_calls_sel [simp]:
  "dk_window (dock_calls cs d) = dk_window d" "dk_next (dock_calls cs d) = dk_next d"
  "dk_children (dock_calls cs d) = dk_children d" "dk_nextGroup (dock_calls cs d) = dk_nextGroup d"
  "dk_windows (dock_calls cs d) = dk_windows d" "dk_snapped (dock_calls cs d) = dk_snapped d"
  "dk_minimized (dock_calls cs d) = dk_minimized d" "dk_instances (dock_calls cs d) = dk_instances d"
  "dk_storage (dock_calls cs d) = dk_storage d" "dk_monitors (dock_calls cs d) = dk_monitors d"
  "dk_calls (dock_calls cs d) = dk_calls d @ cs"
  by (simp_all add: dock_calls_def)

lemma frame_setOpacity [dock_frames]: "dock_frame d (setOpacity v w d)"
  by (simp add: dock_frame_def setOpacity_def)

lemma frame_moveTo [dock_frames]: "dock_frame d (window_moveTo w x y wd ht d)"
  by (simp add: dock_frame_def window_moveTo_def Let_def)

lemma frame_onWindowCreated [dock_frames]: "dock_frame d (window_onWindowCreated w d)"
  by (simp add: dock_frame_def window_onWindowCreated_def)

lemma frame_onMoved [dock_frames]: "dock_frame d (window_onMoved w d)"
  by (simp add: dock_frame_def window_onMoved_def)

lemma frame_onBounds [dock_frames]: "dock_frame d (window_onBounds w l t wd ht d)"
  by (simp add: dock_frame_def window_onBounds_def)

lemma frame_minimize [dock_frames]: "dock_frame d (window_minimize w d)"
  by (simp add: dock_frame_def window_minimize_def)

lemma frame_restore [dock_frames]: "dock_frame d (window_restore w d)"
  by (simp add: dock_frame_def window_restore_def)

lemma snapped_frames [simp]:
  "dk_snapped (setOpacity v w d) = dk_snapped d" "dk_snapped (window_moveTo w x y wd ht d) = dk_snapped d"
  "dk_snapped (window_onMoved w d) = dk_snapped d" "dk_snapped (window_onBounds w l t bw bh d) = dk_snapped d"
  "dk_snapped (window_minimize w d) = dk_snapped d" "dk_snapped (window_restore w d) = dk_snapped d"
  "dk_snapped (window_onWindowCreated w d) = dk_snapped d"
  by (simp_all add: setOpacity_def window_moveTo_def window_onMoved_def window_onBounds_def window_minimize_def
      window_restore_def window_onWindowCreated_def Let_def)

lemma frame_fold:
  assumes "\<And>x d. dock_frame d (f x d)"
  shows "dock_frame d (fold f xs d)"
  by (induction xs arbitrary: d) (auto intro: dock_frame_trans assms)

lemma snapped_fold:
  assumes "\<And>x d. dk_snapped (f x d) = dk_snapped d"
  shows "dk_snapped (fold f xs d) = dk_snapped d"
  by (induction xs arbitrary: d) (simp_all add: assms)

section \<open>The invariant\<close>

text \<open>Groups and windows agree, and every reference is to an object that was made.\<close>

definition groups_ok :: "docking \<Rightarrow> bool" where
  "groups_ok d \<longleftrightarrow>
     (\<forall>k. distinct (dk_children d k)) \<and> (\<forall>k w. w \<in> set (dk_children d k) \<longleftrightarrow> dw_group (dk_window d w) = Some k)
     \<and> (\<forall>k \<ge> dk_nextGroup d. dk_children d k = []) \<and> (\<forall>w \<ge> dk_next d. dw_group (dk_window d w) = None)"

definition refs_ok :: "docking \<Rightarrow> bool" where
  "refs_ok d \<longleftrightarrow>
     set (dk_windows d) \<subseteq> {..<dk_next d} \<and> distinct (dk_windows d)
     \<and> (\<forall>name w. obj_get (dk_instances d) name = Some w \<longrightarrow> w < dk_next d)
     \<and> (\<forall>w. bx_currentRange (dk_window d w) \<in> {40, 50})
     \<and> (\<forall>w. dw_isDocked (dk_window d w) \<longrightarrow> dw_group (dk_window d w) \<noteq> None)"

definition snapped_ok :: "docking \<Rightarrow> bool" where
  "snapped_ok d \<longleftrightarrow>
     (\<forall>name w1 w2 s. obj_get (dk_snapped d) name = Some (Some (w1, w2, s)) \<longrightarrow> w1 < dk_next d \<and> w2 < dk_next d)"

definition docking_ok :: "docking \<Rightarrow> bool" where
  "docking_ok d \<longleftrightarrow> groups_ok d \<and> refs_ok d \<and> snapped_ok d"

lemma groups_ok_frame: "dock_frame d d' \<Longrightarrow> groups_ok d \<Longrightarrow> groups_ok d'"
  by (simp add: dock_frame_def groups_ok_def)

lemma refs_ok_frame: "dock_frame d d' \<Longrightarrow> refs_ok d \<Longrightarrow> refs_ok d'"
  unfolding dock_frame_def refs_ok_def by metis

lemma docking_ok_frame:
  "dock_frame d d' \<Longrightarrow> dk_snapped d' = dk_snapped d \<Longrightarrow> docking_ok d \<Longrightarrow> docking_ok d'"
  using groups_ok_frame [of d d'] refs_ok_frame [of d d']
  by (auto simp: docking_ok_def snapped_ok_def dock_frame_def)

lemma docking_ok_new: "docking_ok (new_docking storage)"
  by (simp add: docking_ok_def groups_ok_def refs_ok_def snapped_ok_def new_docking_def prototype_window_def)

lemma docking_ok_snapped:
  assumes "docking_ok d" and "dock_frame d d'"
    and "\<And>name w1 w2 s. obj_get (dk_snapped d') name = Some (Some (w1, w2, s)) \<Longrightarrow>
        obj_get (dk_snapped d) name = Some (Some (w1, w2, s)) \<or> w1 < dk_next d \<and> w2 < dk_next d"
  shows "docking_ok d'"
proof -
  have "dk_next d' = dk_next d" using assms(2) by (simp add: dock_frame_def)
  then have "snapped_ok d'" using assms(1,3) unfolding docking_ok_def snapped_ok_def by metis
  then show ?thesis
    using assms(1) groups_ok_frame [OF assms(2)] refs_ok_frame [OF assms(2)] by (simp add: docking_ok_def)
qed

section \<open>Snapping keeps the invariant\<close>

lemma frame_addToSnapList: "dock_frame d (addToSnapList w v s d)"
proof -
  have "dock_frame d (d\<lparr>dk_snapped := x\<rparr>)" for x by (simp add: dock_frame_def)
  then show ?thesis unfolding addToSnapList_def by (blast intro: dock_frame_trans frame_setOpacity)
qed

lemma frame_removeFromSnapList: "dock_frame d (removeFromSnapList w v d)"
proof -
  have "dock_frame d (d\<lparr>dk_snapped := x\<rparr>)" for x by (simp add: dock_frame_def)
  then have "dock_frame d (setOpacity 1 v (d\<lparr>dk_snapped := x\<rparr>))" for x by (blast intro: dock_frame_trans frame_setOpacity)
  then show ?thesis by (simp add: removeFromSnapList_def Let_def split: option.splits)
qed

lemma snapped_addToSnapList:
  "dk_snapped (addToSnapList w v s d) =
     obj_set (dw_name (dk_window d w) @ dw_name (dk_window d v)) (Some (w, v, s)) (dk_snapped d)"
  by (simp add: addToSnapList_def)

lemma snapped_removeFromSnapList:
  "obj_get (dk_snapped (removeFromSnapList w v d)) name = Some (Some entry) \<Longrightarrow>
   obj_get (dk_snapped d) name = Some (Some entry)"
  by (auto simp: removeFromSnapList_def obj_get_set Let_def split: option.splits if_splits)

lemma ok_addToSnapList:
  "docking_ok d \<Longrightarrow> w < dk_next d \<Longrightarrow> v < dk_next d \<Longrightarrow> docking_ok (addToSnapList w v s d)"
  by (erule docking_ok_snapped [OF _ frame_addToSnapList]) (auto simp: snapped_addToSnapList obj_get_set split: if_splits)

lemma ok_removeFromSnapList: "docking_ok d \<Longrightarrow> docking_ok (removeFromSnapList w v d)"
  by (erule docking_ok_snapped [OF _ frame_removeFromSnapList]) (blast dest: snapped_removeFromSnapList)

lemma frame_still_snapped: "dock_frame d (still_snapped d name)"
  by (auto simp: still_snapped_def frame_removeFromSnapList split: option.splits)

lemma ok_still_snapped: "docking_ok d \<Longrightarrow> docking_ok (still_snapped d name)"
  by (auto simp: still_snapped_def ok_removeFromSnapList split: option.splits)

lemma still_snapped_foldl:
  "docking_ok d \<Longrightarrow> docking_ok (foldl still_snapped d names) \<and> dock_frame d (foldl still_snapped d names)"
  by (induction names arbitrary: d) (auto intro: ok_still_snapped frame_still_snapped dock_frame_trans)

lemma checkIfStillSnapped_ok: "docking_ok d \<Longrightarrow> docking_ok (checkIfStillSnapped d)"
  and checkIfStillSnapped_frame: "docking_ok d \<Longrightarrow> dock_frame d (checkIfStillSnapped d)"
  by (simp_all add: checkIfStillSnapped_def still_snapped_foldl)

lemma frame_range: "r \<in> {40, 50} \<Longrightarrow> dock_frame d (set_window w (bx_currentRange_update (\<lambda>_. r)) d)"
  by (simp add: dock_frame_def)

lemma ok_range: "docking_ok d \<Longrightarrow> r \<in> {40, 50} \<Longrightarrow> docking_ok (set_window w (bx_currentRange_update (\<lambda>_. r)) d)"
  by (rule docking_ok_frame [OF frame_range]) simp_all

lemma snap_turn_ok:
  assumes "docking_ok d" and "w < dk_next d" and "v < dk_next d"
  shows "docking_ok (fst (snap_turn w bounds v (d, px, py)))"
    and "dock_frame d (fst (snap_turn w bounds v (d, px, py)))"
proof -
  let ?d = "\<lambda>r. set_window w (bx_currentRange_update (\<lambda>_. r)) d"
  have ok: "docking_ok (?d 40)" "docking_ok (?d 50)" using assms(1) ok_range by simp_all
  have frame: "dock_frame d (?d 40)" "dock_frame d (?d 50)" by (simp_all add: frame_range)
  have "docking_ok (addToSnapList w v s (?d 50)) \<and> docking_ok (removeFromSnapList w v (?d 40))" for s
    using assms ok by (simp add: ok_addToSnapList ok_removeFromSnapList)
  moreover have "dock_frame d (addToSnapList w v s (?d 50)) \<and> dock_frame d (removeFromSnapList w v (?d 40))" for s
    using frame frame_addToSnapList frame_removeFromSnapList by (blast intro: dock_frame_trans)
  ultimately show "docking_ok (fst (snap_turn w bounds v (d, px, py)))"
    and "dock_frame d (fst (snap_turn w bounds v (d, px, py)))"
    by (auto simp: dock_range_def Let_def split: option.splits prod.splits)
qed

lemma snap_loop_ok:
  assumes "docking_ok d" and "w < dk_next d" and "set vs \<subseteq> {..<dk_next d}"
  shows "docking_ok (fst (foldr (snap_turn w bounds) vs (d, None, None)))
    \<and> dock_frame d (fst (foldr (snap_turn w bounds) vs (d, None, None)))"
  using assms(3)
proof (induction vs)
  case Nil
  then show ?case using assms(1) by simp
next
  case (Cons v vs)
  obtain d1 px py where d1: "foldr (snap_turn w bounds) vs (d, None, None) = (d1, px, py)" by (rule prod_cases3)
  with Cons have ok: "docking_ok d1" and frame: "dock_frame d d1" by simp_all
  have "dk_next d1 = dk_next d" using frame by (simp add: dock_frame_def)
  then have "w < dk_next d1" "v < dk_next d1" using assms(2) Cons.prems by simp_all
  from snap_turn_ok [OF ok this] show ?case
    using dock_frame_trans [OF frame] by (simp add: d1 del: snap_turn.simps)
qed

lemma onWindowMove_ok:
  assumes "docking_ok d" and "w < dk_next d"
  shows "docking_ok (snd (onWindowMove w left tp d))" and "dock_frame d (snd (onWindowMove w left tp d))"
proof -
  obtain d1 px py where d1: "foldr (snap_turn w (snap_bounds d w left tp)) (dk_windows d) (d, None, None) = (d1, px, py)"
    by (rule prod_cases3)
  have "set (dk_windows d) \<subseteq> {..<dk_next d}" using assms(1) by (simp add: docking_ok_def refs_ok_def)
  from snap_loop_ok [OF assms this, of "snap_bounds d w left tp"] have ok: "docking_ok d1" and frame: "dock_frame d d1" by (simp_all add: d1)
  have moved: "docking_ok (window_moveTo w x y None None d1)" "dock_frame d (window_moveTo w x y None None d1)" for x y
    using docking_ok_frame [OF frame_moveTo _ ok] dock_frame_trans [OF frame frame_moveTo] by simp_all
  then show "docking_ok (snd (onWindowMove w left tp d))" and "dock_frame d (snd (onWindowMove w left tp d))"
    using assms(1) ok frame checkIfStillSnapped_ok dock_frame_trans [OF moved(2) checkIfStillSnapped_frame [OF moved(1)]]
    by (simp_all add: onWindowMove_def d1 Let_def)
qed

lemma onBoundsChanging_ok:
  assumes "docking_ok d" and "w < dk_next d"
  shows "docking_ok (window_onBoundsChanging w left tp width height d)"
proof -
  obtain b d1 where d1: "onWindowMove w left tp d = (b, d1)" by (cases "onWindowMove w left tp d")
  from onWindowMove_ok(1) [OF assms, of left tp] have ok: "docking_ok d1" by (simp add: d1)
  have "docking_ok (window_moveTo w left tp (Some width) (Some height) d2)" if "docking_ok d2" for d2
    by (rule docking_ok_frame [OF frame_moveTo _ that]) simp
  moreover have "docking_ok (setOpacity v w d1)" for v by (rule docking_ok_frame [OF frame_setOpacity _ ok]) simp
  ultimately show ?thesis using ok by (simp add: window_onBoundsChanging_def d1 Let_def)
qed

section \<open>Docking and undocking keep the invariant\<close>

lemma group_add_groups:
  "dw_group (dk_window (group_add k w d) v) = (if v = w then Some k else dw_group (dk_window d v))"
  "dk_children (group_add k w d) j =
     (if j = k \<and> dw_group (dk_window d w) \<noteq> Some k then dk_children d k @ [w] else dk_children d j)"
  "dk_nextGroup (group_add k w d) = dk_nextGroup d" "dk_next (group_add k w d) = dk_next d"
  "dk_windows (group_add k w d) = dk_windows d" "dk_instances (group_add k w d) = dk_instances d"
  "dk_snapped (group_add k w d) = dk_snapped d"
  "bx_currentRange (dk_window (group_add k w d) v) = bx_currentRange (dk_window d v)"
  "dw_isDocked (dk_window (group_add k w d) v) = dw_isDocked (dk_window d v)"
  "dw_name (dk_window (group_add k w d) v) = dw_name (dk_window d v)"
  by (simp_all add: group_add_def)

lemma window_docked_sel:
  "dw_group (dk_window (window_docked w g d) v) = dw_group (dk_window d v)"
  "dk_children (window_docked w g d) = dk_children d" "dk_nextGroup (window_docked w g d) = dk_nextGroup d"
  "dk_next (window_docked w g d) = dk_next d" "dk_windows (window_docked w g d) = dk_windows d"
  "dk_instances (window_docked w g d) = dk_instances d" "dk_snapped (window_docked w g d) = dk_snapped d"
  "bx_currentRange (dk_window (window_docked w g d) v) = bx_currentRange (dk_window d v)"
  "dw_isDocked (dk_window (window_docked w g d) v) = (v = w \<or> dw_isDocked (dk_window d v))"
  "dw_name (dk_window (window_docked w g d) v) = dw_name (dk_window d v)"
  by (simp_all add: window_docked_def Let_def)

lemma ok_group_add:
  assumes "docking_ok d" and "w < dk_next d" and "k < dk_nextGroup d" and "dw_group (dk_window d w) = None"
  shows "docking_ok (group_add k w d)"
proof -
  have g: "groups_ok d" and r: "refs_ok d" and s: "snapped_ok d" using assms(1) by (simp_all add: docking_ok_def)
  have "w \<notin> set (dk_children d j)" for j using g assms(4) by (simp add: groups_ok_def)
  then have "groups_ok (group_add k w d)" using g assms by (auto simp: groups_ok_def group_add_groups)
  moreover have "refs_ok (group_add k w d)" using r by (auto simp: refs_ok_def group_add_groups)
  moreover have "snapped_ok (group_add k w d)" using s by (simp add: snapped_ok_def group_add_groups)
  ultimately show ?thesis by (simp add: docking_ok_def)
qed

lemma ok_new_group:
  assumes "docking_ok d"
  shows "docking_ok (d\<lparr>dk_nextGroup := Suc (dk_nextGroup d), dk_children := (dk_children d)(dk_nextGroup d := [])\<rparr>)"
proof -
  have "dk_children d (dk_nextGroup d) = []" using assms by (simp add: docking_ok_def groups_ok_def)
  then have "(dk_children d)(dk_nextGroup d := []) = dk_children d" by auto
  then show ?thesis using assms by (simp add: docking_ok_def groups_ok_def refs_ok_def snapped_ok_def)
qed

lemma ok_window_docked:
  "docking_ok d \<Longrightarrow> dw_group (dk_window d w) \<noteq> None \<Longrightarrow> docking_ok (window_docked w g d)"
  by (simp add: docking_ok_def groups_ok_def refs_ok_def snapped_ok_def window_docked_sel)

lemma ok_joinGroup:
  assumes "docking_ok d" and "w < dk_next d" and "g < dk_next d"
  shows "docking_ok (window_joinGroup w g d)"
proof (cases "dw_group (dk_window d w) = None \<and> dw_dockableToOthers (dk_window d w) \<and> dw_acceptDockingConnection (dk_window d g)")
  case False
  then show ?thesis using assms(1) by (auto simp: window_joinGroup_def)
next
  case True
  then have free: "dw_group (dk_window d w) = None" by simp
  show ?thesis
  proof (cases "dw_group (dk_window d g)")
    case (Some k)
    then have "k < dk_nextGroup d" using assms(1) unfolding docking_ok_def groups_ok_def
      by (metis empty_iff leI list.set(1))
    then have "docking_ok (window_docked w g (group_add k w d))"
      using ok_group_add [OF assms(1,2) _ free] by (simp add: ok_window_docked group_add_groups)
    then show ?thesis using True Some assms(1) by (simp add: window_joinGroup_def)
  next
    case None
    let ?k = "dk_nextGroup d"
    let ?d = "d\<lparr>dk_nextGroup := Suc ?k, dk_children := (dk_children d)(?k := [])\<rparr>"
    have 1: "docking_ok (group_add ?k g ?d)"
      using ok_new_group [OF assms(1)] assms(3) None by (intro ok_group_add) simp_all
    have 2: "docking_ok (group_add ?k w (group_add ?k g ?d))"
    proof (cases "w = g")
      case True
      then have "group_add ?k w (group_add ?k g ?d) = group_add ?k g ?d" by (simp add: group_add_def)
      with 1 show ?thesis by simp
    next
      case False
      then show ?thesis using assms(2) free by (intro ok_group_add [OF 1]) (simp_all add: group_add_groups)
    qed
    then have "docking_ok (window_docked w g (group_add ?k w (group_add ?k g ?d)))"
      by (rule ok_window_docked) (simp add: group_add_groups)
    then show ?thesis using True None by (simp add: window_joinGroup_def Let_def)
  qed
qed

lemma next_joinGroup [simp]: "dk_next (window_joinGroup w g d) = dk_next d"
  by (simp add: window_joinGroup_def window_docked_sel group_add_groups Let_def split: option.splits)

lemma next_setOpacity [simp]: "dk_next (setOpacity v w d) = dk_next d"
  by (simp add: setOpacity_def)

lemma ok_setOpacity: "docking_ok d \<Longrightarrow> docking_ok (setOpacity v w d)"
  by (rule docking_ok_frame [OF frame_setOpacity]) simp_all

lemma dock_snapped_ok:
  assumes "docking_ok d"
  shows "docking_ok (dock_snapped d name)"
proof -
  have dropped: "docking_ok (d\<lparr>dk_snapped := obj_set name None (dk_snapped d)\<rparr>)"
      "docking_ok (d\<lparr>dk_snapped := obj_delete name (dk_snapped d)\<rparr>)"
    by (rule docking_ok_snapped [OF assms]; simp add: dock_frame_def obj_get_set obj_get_delete split: if_splits)+
  moreover have "w1 < dk_next d \<and> w2 < dk_next d"
    if "obj_get (dk_snapped d) name = Some (Some (w1, w2, s))" for w1 w2 s
    using assms that unfolding docking_ok_def snapped_ok_def by blast
  ultimately show ?thesis
    by (auto simp: dock_snapped_def addWindowToTheGroup_def intro!: ok_joinGroup ok_setOpacity split: option.splits)
qed

lemma dockAllSnappedWindows_ok: "docking_ok d \<Longrightarrow> docking_ok (dockAllSnappedWindows d)"
proof -
  have "docking_ok (foldl dock_snapped d names)" if "docking_ok d" for names
    using that by (induction names arbitrary: d) (simp_all add: dock_snapped_ok)
  then show "docking_ok d \<Longrightarrow> docking_ok (dockAllSnappedWindows d)" by (simp add: dockAllSnappedWindows_def)
qed

lemma leave_begin_sel:
  "dk_next (leave_begin w d) = dk_next d" "dk_nextGroup (leave_begin w d) = dk_nextGroup d"
  "dk_windows (leave_begin w d) = dk_windows d" "dk_instances (leave_begin w d) = dk_instances d"
  "dk_snapped (leave_begin w d) = dk_snapped d"
  "bx_currentRange (dk_window (leave_begin w d) v) = bx_currentRange (dk_window d v)"
  "dw_isDocked (dk_window (leave_begin w d) v) = (v \<noteq> w \<and> dw_isDocked (dk_window d v))"
  "dw_name (dk_window (leave_begin w d) v) = dw_name (dk_window d v)"
  "dk_children (leave_begin w d) j =
     (if dw_group (dk_window d w) = Some j then remove1 w (dk_children d j) else dk_children d j)"
  by (auto simp: leave_begin_def group_remove_def remove1_idem Let_def split: option.splits)

lemma leave_begin_group:
  "groups_ok d \<Longrightarrow> dw_group (dk_window (leave_begin w d) v) = (if v = w then None else dw_group (dk_window d v))"
  by (auto simp: leave_begin_def group_remove_def groups_ok_def Let_def split: option.splits)

lemma ok_leave_begin:
  assumes "docking_ok d"
  shows "docking_ok (leave_begin w d)"
proof -
  have g: "groups_ok d" and r: "refs_ok d" and s: "snapped_ok d" using assms by (simp_all add: docking_ok_def)
  have "groups_ok (leave_begin w d)"
    using g by (auto simp: groups_ok_def leave_begin_sel leave_begin_group [OF g])
  moreover have "refs_ok (leave_begin w d)"
    using r by (auto simp: refs_ok_def leave_begin_sel leave_begin_group [OF g])
  moreover have "snapped_ok (leave_begin w d)" using s by (simp add: snapped_ok_def leave_begin_sel)
  ultimately show ?thesis by (simp add: docking_ok_def)
qed

lemma frame_leave_end: "dock_frame d (leave_end grp w d)"
proof -
  have storage: "dock_frame d' (d'\<lparr>dk_storage := x\<rparr>)" for d' x by (simp add: dock_frame_def)
  define d1 where "d1 = (if isInView d w then d
    else window_moveTo w 0 0 (Some (rc_width (dk_window d w))) (Some (rc_height (dk_window d w))) d)"
  define d2 where "d2 = (case grp of None \<Rightarrow> d1 | Some k \<Rightarrow>
    (case dk_children d1 k of [] \<Rightarrow> d1 | c # cs \<Rightarrow> if isGroupInView d1 k then d1 else window_moveTo c 0 0 None None d1))"
  have "dock_frame d d1" by (simp add: d1_def frame_moveTo)
  moreover have "dock_frame d1 d2" by (simp add: d2_def frame_moveTo split: option.splits list.splits)
  ultimately have "dock_frame d (d2\<lparr>dk_storage := x\<rparr>)" for x by (blast intro: dock_frame_trans storage)
  then show ?thesis by (simp add: leave_end_def Let_def flip: d1_def d2_def)
qed

lemma snapped_leave_end: "dk_snapped (leave_end grp w d) = dk_snapped d"
  by (auto simp: leave_end_def Let_def split: option.splits list.splits)

lemma ok_leave_end: "docking_ok d \<Longrightarrow> docking_ok (leave_end grp w d)"
  by (rule docking_ok_frame [OF frame_leave_end snapped_leave_end])

section \<open>Leaving a group returns\<close>

text \<open>What is left of a group when a window leaves: a window left alone leaves too.\<close>

definition remaining :: "nat \<Rightarrow> nat list \<Rightarrow> nat list" where
  "remaining w members = (let rest = remove1 w members in if length rest = 1 then [] else rest)"

definition leaves :: "nat \<Rightarrow> docking \<Rightarrow> docking \<Rightarrow> bool" where
  "leaves w d d' \<longleftrightarrow>
     (\<forall>k. dk_children d' k = (if dw_group (dk_window d w) = Some k then remaining w (dk_children d k) else dk_children d k))
     \<and> dk_next d' = dk_next d \<and> dk_windows d' = dk_windows d \<and> (\<forall>v. dw_name (dk_window d' v) = dw_name (dk_window d v))"

lemma leave_end_sel:
  "dk_children (leave_end grp w d) = dk_children d" "dk_next (leave_end grp w d) = dk_next d"
  "dk_windows (leave_end grp w d) = dk_windows d"
  "dw_name (dk_window (leave_end grp w d) v) = dw_name (dk_window d v)"
  using frame_leave_end [of d grp w] by (simp_all add: dock_frame_def)

lemma leaveGroup_alone:
  assumes "docking_ok d" and "left_alone (dw_group (dk_window d w)) (leave_begin w d) = None"
  shows "window_leaveGroup w d = Some (leave_end (dw_group (dk_window d w)) w (leave_begin w d))"
  using assms(2) by (simp add: window_leaveGroup.simps Let_def)

lemma left_alone_Some: "left_alone grp d = Some c \<longleftrightarrow> (\<exists>k. grp = Some k \<and> dk_children d k = [c])"
  by (auto simp: left_alone_def split: option.splits list.splits)

lemma leaveGroup_ok:
  assumes "docking_ok d"
  shows "\<exists>d'. window_leaveGroup w d = Some d' \<and> docking_ok d' \<and> leaves w d d'"
proof (cases "left_alone (dw_group (dk_window d w)) (leave_begin w d)")
  case None
  let ?d = "leave_end (dw_group (dk_window d w)) w (leave_begin w d)"
  have "length (remove1 w (dk_children d k)) \<noteq> 1" if "dw_group (dk_window d w) = Some k" for k
    using None that by (auto simp: left_alone_def leave_begin_sel split: list.splits)
  then have "leaves w d ?d" by (simp add: leaves_def remaining_def leave_end_sel leave_begin_sel Let_def)
  then show ?thesis using leaveGroup_alone [OF assms None] ok_leave_end [OF ok_leave_begin [OF assms]] by blast
next
  case (Some c)
  let ?d = "leave_begin w d"
  obtain k where k: "dw_group (dk_window d w) = Some k" and c: "dk_children ?d k = [c]"
    using Some by (auto simp: left_alone_Some)
  have ok: "docking_ok ?d" using assms by (rule ok_leave_begin)
  then have gc: "dw_group (dk_window ?d c) = Some k" using c unfolding docking_ok_def groups_ok_def
    by (metis list.set_intros(1))
  have "left_alone (dw_group (dk_window ?d c)) (leave_begin c ?d) = None"
    using c by (simp add: gc left_alone_def leave_begin_sel)
  from leaveGroup_alone [OF ok this]
  have inner: "window_leaveGroup c ?d = Some (leave_end (Some k) c (leave_begin c ?d))" by (simp add: gc)
  let ?d' = "leave_end (Some k) w (leave_end (Some k) c (leave_begin c ?d))"
  have "window_leaveGroup w d = Some ?d'"
    using Some inner by (subst window_leaveGroup.simps) (simp add: k Let_def)
  moreover have "docking_ok ?d'" using ok by (simp add: ok_leave_end ok_leave_begin)
  moreover have "leaves w d ?d'"
    using c k gc by (auto simp: leaves_def remaining_def leave_end_sel leave_begin_sel Let_def)
  ultimately show ?thesis by blast
qed

interpretation leaving: total_handler "\<lambda>d w. window_leaveGroup w d" docking_ok
  by unfold_locales (use leaveGroup_ok in blast)

interpretation undocking: total_handler "undock_window name" docking_ok for name
  by unfold_locales (use leaveGroup_ok in \<open>auto simp: undock_window_def\<close>)

section \<open>Every event keeps the invariant\<close>

lemma ok_set_dock_fields:
  "docking_ok d \<Longrightarrow> docking_ok (d\<lparr>dk_minimized := b\<rparr>)"
  "docking_ok d \<Longrightarrow> docking_ok (d\<lparr>dk_monitors := ms\<rparr>)"
  by (simp_all add: docking_ok_def groups_ok_def refs_ok_def snapped_ok_def)

lemma ok_set_window_flag:
  "docking_ok d \<Longrightarrow> docking_ok (set_window w (dw_minimized_update f) d)"
  "docking_ok d \<Longrightarrow> docking_ok (set_window w (dw_subscribed_update f) d)"
  by (rule docking_ok_frame; simp add: dock_frame_def)+

lemma onWindowMinimize_ok: "docking_ok d \<Longrightarrow> docking_ok (onWindowMinimize d)"
  unfolding onWindowMinimize_def
  by (auto intro!: docking_ok_frame [OF frame_fold [OF frame_minimize] snapped_fold] ok_set_dock_fields)

lemma onWindowRestore_ok: "docking_ok d \<Longrightarrow> docking_ok (onWindowRestore d)"
  unfolding onWindowRestore_def
  by (auto intro!: docking_ok_frame [OF frame_fold [OF frame_restore] snapped_fold] ok_set_dock_fields)

lemma add_dockable_fields:
  assumes "docking_ok d"
  shows "add_dockable new calls dockable d = d\<lparr>dk_next := Suc (dk_next d),
     dk_window := (dk_window d)(dk_next d := new\<lparr>dw_dockableToOthers := (dockable \<noteq> Some False)\<rparr>),
     dk_windows := dk_windows d @ [dk_next d], dk_instances := obj_set (dw_name new) (dk_next d) (dk_instances d),
     dk_calls := dk_calls d @ calls\<rparr>"
proof -
  have "dk_next d \<notin> set (dk_windows d)" using assms by (auto simp: docking_ok_def refs_ok_def)
  then show ?thesis by (simp add: add_dockable_def set_window_def dock_calls_def Let_def)
qed

lemma add_dockable_ok:
  assumes "docking_ok d" and "dw_group new = None" "\<not> dw_isDocked new" "bx_currentRange new = 40"
  shows "docking_ok (add_dockable new calls dockable d)"
proof -
  have g: "groups_ok d" and r: "refs_ok d" and s: "snapped_ok d" using assms(1) by (simp_all add: docking_ok_def)
  note fields_new = add_dockable_fields [OF assms(1)]
  have "dw_group (dk_window d (dk_next d)) = None" using g by (simp add: groups_ok_def)
  then have "groups_ok (add_dockable new calls dockable d)"
    using g assms(2) by (auto simp: fields_new groups_ok_def)
  moreover have "refs_ok (add_dockable new calls dockable d)"
    using r assms(2-4) by (auto simp: fields_new refs_ok_def obj_get_set less_Suc_eq split: if_splits)
  moreover have "snapped_ok (add_dockable new calls dockable d)"
    using s by (auto simp: fields_new snapped_ok_def less_Suc_eq)
  ultimately show ?thesis by (simp add: docking_ok_def)
qed

lemma dock_register_ok:
  "docking_ok d \<Longrightarrow> docking_ok (dock_register native name dockable d)"
  "docking_ok d \<Longrightarrow> docking_ok (dock_register_options native options dockable d)"
  unfolding dock_register_def dock_register_options_def
  by (rule add_dockable_ok; simp add: dockable_of_def prototype_window_def)+

lemma dock_unregister_ok: "docking_ok d \<Longrightarrow> docking_ok (dock_unregister w d)"
  by (auto simp: docking_ok_def groups_ok_def refs_ok_def snapped_ok_def dock_unregister_def dest: notin_set_remove1)

lemma window_onLoad_ok:
  assumes "docking_ok d" and "w < dk_next d"
  shows "docking_ok (snd (window_onLoad w name d))"
proof -
  let ?d = "set_window w (dw_subscribed_update (\<lambda>_. False)) d"
  have ok: "docking_ok ?d" using assms(1) by (rule ok_set_window_flag)
  have "win < dk_next ?d" if "obj_get (dk_instances ?d) n = Some win" for n win
    using ok that by (simp add: docking_ok_def refs_ok_def)
  then have "docking_ok (window_joinGroup w win ?d)" if "obj_get (dk_instances ?d) n = Some win" for n win
    using ok_joinGroup [OF ok] assms(2) that by simp
  then show ?thesis using assms(1) ok by (auto simp: window_onLoad_def Let_def split: option.splits)
qed

lemma dock_step_ok:
  assumes "docking_ok d"
  shows "\<exists>d'. dock_step d e = Some d' \<and> docking_ok d'"
proof -
  have window: "docking_ok (window_onWindowCreated w d)" "docking_ok (window_onMoved w d)" "docking_ok (window_onBounds w l t wd ht d)"
      "docking_ok (window_onBoundsChanged w d)" "docking_ok (window_onMinimized w d)" "docking_ok (window_onRestored w d)"
    for w l t wd ht
    using assms docking_ok_frame [OF frame_onWindowCreated] docking_ok_frame [OF frame_onMoved] docking_ok_frame [OF frame_onBounds]
    by (simp_all add: window_onBoundsChanged_def window_onMinimized_def window_onRestored_def dockAllSnappedWindows_ok
        ok_setOpacity onWindowMinimize_ok onWindowRestore_ok ok_set_window_flag)
  have manager: "docking_ok (dock_unregister_native n d)" "docking_ok (onVisibilityChanged b d)" "docking_ok (onMonitorInfo ms d)"
    for n b ms
    using assms by (simp_all add: dock_unregister_native_def dock_unregister_ok onVisibilityChanged_def onWindowMinimize_ok
        onWindowRestore_ok onMonitorInfo_def ok_set_dock_fields split: option.splits)
  show ?thesis
    using assms window manager undocking.run_returns [OF assms] leaving.run_returns [OF assms]
    by (cases e) (simp_all add: dock_step_def onUndock_def undockAll_def undock_named_def leave_all_def dock_register_ok dock_unregister_ok
        window_onLoad_ok onBoundsChanging_ok)
qed

interpretation docks: total_handler dock_step docking_ok
  by unfold_locales (rule dock_step_ok)

lemma dock_reachable_ok: "dock_run (new_docking storage) es = Some d \<Longrightarrow> docking_ok d"
  by (rule docks.run_inv [OF docking_ok_new])

section \<open>Where a snapped window goes\<close>

lemmas geometry_defs = snap_side_def isSnapable_def isPointInVerticalZone_def isPointInHorizontalZone_def
  getVerticalEdgeSnapping_def getHorizontalEdgeSnapping_def dock_range_def dock_spacing_def

definition near :: "int \<Rightarrow> int option \<Rightarrow> bool" where
  "near z p \<longleftrightarrow> (case p of None \<Rightarrow> True | Some q \<Rightarrow> \<bar>q - z\<bar> \<le> 54)"

lemma near_Some [simp]: "near z (Some q) \<longleftrightarrow> \<bar>q - z\<bar> \<le> 54"
  by (simp add: near_def)

lemma near_first: "near z p \<Longrightarrow> near z q \<Longrightarrow> near z (first_coordinate p q)"
  by (simp add: first_coordinate_def)

lemma edges_near:
  "near (rc_y b) (getVerticalEdgeSnapping v b)" "near (rc_x b) (getHorizontalEdgeSnapping v b)"
  by (auto simp: near_def getVerticalEdgeSnapping_def getHorizontalEdgeSnapping_def dock_range_def)

lemma isSnapable_range:
  assumes "isSnapable a v = Some s" and "bx_currentRange a \<in> {40, 50}"
  shows "s = SideRight \<Longrightarrow> \<bar>rc_x v + rc_width v - rc_x a\<bar> < 50"
    and "s = SideLeft \<Longrightarrow> \<bar>rc_x v - (rc_x a + rc_width a)\<bar> < 50"
    and "s = SideBottom \<Longrightarrow> \<bar>rc_y v + rc_height v - rc_y a\<bar> < 50"
    and "s = SideTop \<Longrightarrow> \<bar>rc_y v - (rc_y a + rc_height a)\<bar> < 50"
  using assms by (auto simp: isSnapable_def Let_def split: if_splits)

lemma isSnapable_zone:
  assumes "isSnapable a v = Some s"
  shows "s \<in> {SideRight, SideLeft} \<and> isPointInVerticalZone (rc_y v) (rc_y v + rc_height v) (rc_y a) (rc_height a)
    \<or> s \<in> {SideTop, SideBottom} \<and> isPointInHorizontalZone (rc_x v) (rc_x v + rc_width v) (rc_x a) (rc_width a)"
  using assms by (auto simp: isSnapable_def Let_def split: if_splits)

lemma zone_meets:
  "isPointInVerticalZone lo hi y h \<Longrightarrow> 0 \<le> h \<Longrightarrow> y \<le> hi \<and> lo \<le> y + h"
  "isPointInHorizontalZone lo hi x w \<Longrightarrow> 0 \<le> w \<Longrightarrow> x \<le> hi \<and> lo \<le> x + w"
  by (auto simp: isPointInVerticalZone_def isPointInHorizontalZone_def Let_def)

lemma snap_near:
  assumes "snap_side b v = Some s" and "bx_currentRange b \<in> {40, 50}" and "bx_currentRange v \<in> {40, 50}"
    and "rc_width w = rc_width b" and "rc_height w = rc_height b"
  shows "near (rc_x b) (fst (snapToWindow w b v s))" and "near (rc_y b) (snd (snapToWindow w b v s))"
proof -
  consider "isSnapable b v = Some s" | s' where "isSnapable v b = Some s'" "s = reverse_side s'"
    using assms(1) by (auto simp: snap_side_def split: option.splits)
  then have "near (rc_x b) (fst (snapToWindow w b v s)) \<and> near (rc_y b) (snd (snapToWindow w b v s))"
  proof cases
    case 1
    from isSnapable_range [OF this assms(2)] show ?thesis
      using assms(4,5) edges_near [of b v] by (cases s) (auto simp: dock_spacing_def)
  next
    case 2
    from isSnapable_range [OF 2(1) assms(3)] show ?thesis
      using 2(2) assms(4,5) edges_near [of b v] by (cases s') (auto simp: dock_spacing_def)
  qed
  then show "near (rc_x b) (fst (snapToWindow w b v s))" and "near (rc_y b) (snd (snapToWindow w b v s))" by simp_all
qed

text \<open>The loop leaves the geometry of all windows alone.\<close>

definition same_geometry :: "docking \<Rightarrow> docking \<Rightarrow> bool" where
  "same_geometry d d' \<longleftrightarrow> (\<forall>v. rect.truncate (dk_window d' v) = rect.truncate (dk_window d v))"

lemma same_geometry_trans: "same_geometry d d' \<Longrightarrow> same_geometry d' d'' \<Longrightarrow> same_geometry d d''"
  by (simp add: same_geometry_def)

lemma geometry_setOpacity: "same_geometry d (setOpacity v w d)"
  by (simp add: same_geometry_def setOpacity_def rect.defs)

lemma geometry_addToSnapList: "same_geometry d (addToSnapList w v s d)"
proof -
  have "same_geometry d (d\<lparr>dk_snapped := x\<rparr>)" for x by (simp add: same_geometry_def)
  then show ?thesis unfolding addToSnapList_def by (blast intro: same_geometry_trans geometry_setOpacity)
qed

lemma geometry_removeFromSnapList: "same_geometry d (removeFromSnapList w v d)"
proof -
  have "same_geometry d (d\<lparr>dk_snapped := x\<rparr>)" for x by (simp add: same_geometry_def)
  then have "same_geometry d (setOpacity 1 v (d\<lparr>dk_snapped := x\<rparr>))" for x
    by (blast intro: same_geometry_trans geometry_setOpacity)
  moreover have "same_geometry d d" by (simp add: same_geometry_def)
  ultimately show ?thesis by (simp add: removeFromSnapList_def Let_def split: option.splits)
qed

lemma geometry_still_snapped: "same_geometry d (foldl still_snapped d names)"
proof (induction names arbitrary: d)
  case Nil
  then show ?case by (simp add: same_geometry_def)
next
  case (Cons name names)
  have "same_geometry d d" by (simp add: same_geometry_def)
  then have "same_geometry d (still_snapped d name)"
    by (auto simp: still_snapped_def geometry_removeFromSnapList split: option.splits)
  then show ?case using Cons.IH by (auto intro: same_geometry_trans)
qed

lemma same_geometryD:
  assumes "same_geometry d d'"
  shows "rc_x (dk_window d' v) = rc_x (dk_window d v)" "rc_y (dk_window d' v) = rc_y (dk_window d v)"
    "rc_width (dk_window d' v) = rc_width (dk_window d v)" "rc_height (dk_window d' v) = rc_height (dk_window d v)"
proof -
  have "rect.truncate (dk_window d' v) = rect.truncate (dk_window d v)" using assms by (simp add: same_geometry_def)
  then show "rc_x (dk_window d' v) = rc_x (dk_window d v)" "rc_y (dk_window d' v) = rc_y (dk_window d v)"
    "rc_width (dk_window d' v) = rc_width (dk_window d v)" "rc_height (dk_window d' v) = rc_height (dk_window d v)"
    by (simp_all add: rect.defs)
qed

lemma geometry_range: "same_geometry d (set_window w (bx_currentRange_update f) d)"
  by (simp add: same_geometry_def rect.defs)

lemma snap_turn_near:
  assumes "docking_ok d" and "w < dk_next d" and "v < dk_next d"
    and "rc_width (dk_window d w) = rc_width b" and "rc_height (dk_window d w) = rc_height b" and "bx_currentRange b \<in> {40, 50}"
    and "near (rc_x b) px" and "near (rc_y b) py"
    and "snap_turn w b v (d, px, py) = (d', px', py')"
  shows "near (rc_x b) px' \<and> near (rc_y b) py' \<and> same_geometry d d'"
proof (cases "snap_side b (dk_window d v)")
  case None
  then have "same_geometry d d'" and "px' = px" "py' = py"
    using assms(9) by (auto intro: same_geometry_trans geometry_range geometry_removeFromSnapList)
  then show ?thesis using assms(7,8) by simp
next
  case (Some s)
  let ?d = "set_window w (bx_currentRange_update (\<lambda>_. dock_range + 10)) d"
  let ?p = "snapToWindow (dk_window ?d w) b (dk_window ?d v) s"
  have p: "?p = snapToWindow (dk_window d w) b (dk_window d v) s"
    by (cases s; cases "v = w") (simp_all add: getVerticalEdgeSnapping_def getHorizontalEdgeSnapping_def)
  have "bx_currentRange (dk_window d v) \<in> {40, 50}" using assms(1) by (simp add: docking_ok_def refs_ok_def)
  from snap_near [OF Some assms(6) this assms(4,5)]
  have "near (rc_x b) (fst ?p)" "near (rc_y b) (snd ?p)" by (simp_all only: p)
  moreover have "px' = first_coordinate px (fst ?p)" "py' = first_coordinate py (snd ?p)" "d' = addToSnapList w v s ?d"
    using assms(9) Some by (simp_all add: Let_def split_beta)
  ultimately show ?thesis
    using assms(7,8) same_geometry_trans [OF geometry_range geometry_addToSnapList] by (simp add: near_first)
qed

lemma snap_loop_near:
  assumes "docking_ok d" and "w < dk_next d" and "set vs \<subseteq> {..<dk_next d}"
    and "rc_width (dk_window d w) = rc_width b" and "rc_height (dk_window d w) = rc_height b" and "bx_currentRange b \<in> {40, 50}"
    and "foldr (snap_turn w b) vs (d, None, None) = (d', px, py)"
  shows "near (rc_x b) px \<and> near (rc_y b) py \<and> same_geometry d d'"
  using assms(3,7)
proof (induction vs arbitrary: d' px py)
  case Nil
  then show ?case by (auto simp: near_def same_geometry_def)
next
  case (Cons v vs)
  obtain d1 px1 py1 where d1: "foldr (snap_turn w b) vs (d, None, None) = (d1, px1, py1)" by (rule prod_cases3)
  from Cons.IH [OF _ d1] Cons.prems(1)
  have IH: "near (rc_x b) px1" "near (rc_y b) py1" "same_geometry d d1" by simp_all
  from snap_loop_ok [OF assms(1,2), of vs b] Cons.prems(1)
  have ok: "docking_ok d1" and "dock_frame d d1" by (simp_all add: d1)
  then have nxt: "dk_next d1 = dk_next d" by (simp add: dock_frame_def)
  have step: "snap_turn w b v (d1, px1, py1) = (d', px, py)" using Cons.prems(2) by (simp add: d1 del: snap_turn.simps)
  have "near (rc_x b) px \<and> near (rc_y b) py \<and> same_geometry d1 d'"
    by (rule snap_turn_near [OF ok _ _ _ _ assms(6) IH(1,2) step])
      (use assms Cons.prems(1) nxt same_geometryD [OF IH(3)] in simp_all)
  then show ?case using same_geometry_trans [OF IH(3)] by blast
qed

lemma onWindowMove_near:
  assumes "docking_ok d" and "w < dk_next d" and "onWindowMove w left tp d = (True, d')"
  shows "\<bar>rc_x (dk_window d' w) - left\<bar> \<le> 54 \<and> \<bar>rc_y (dk_window d' w) - tp\<bar> \<le> 54
    \<and> rc_width (dk_window d' w) = rc_width (dk_window d w) \<and> rc_height (dk_window d' w) = rc_height (dk_window d w)"
proof -
  let ?b = "snap_bounds d w left tp"
  obtain d1 px py where d1: "foldr (snap_turn w ?b) (dk_windows d) (d, None, None) = (d1, px, py)" by (rule prod_cases3)
  have "set (dk_windows d) \<subseteq> {..<dk_next d}" "bx_currentRange ?b \<in> {40, 50}"
    using assms(1) by (simp_all add: docking_ok_def refs_ok_def snap_bounds_def)
  note vs = this
  have size: "rc_width (dk_window d w) = rc_width ?b" "rc_height (dk_window d w) = rc_height ?b"
    and at: "rc_x ?b = left" "rc_y ?b = tp" by (simp_all add: snap_bounds_def)
  have near: "near left px" "near tp py" "same_geometry d d1"
    using snap_loop_near [OF assms(1,2) vs(1) size vs(2) d1] unfolding at by blast+
  define x where "x = (if unset_coordinate px then left else the px)"
  define y where "y = (if unset_coordinate py then tp else the py)"
  have xy: "\<bar>x - left\<bar> \<le> 54" "\<bar>y - tp\<bar> \<le> 54"
    using near(1,2) by (auto simp: x_def y_def near_def unset_coordinate_def)
  have free: "dw_group (dk_window d w) = None"
    by (rule ccontr) (use assms(3) in \<open>simp add: onWindowMove_def\<close>)
  have "onWindowMove w left tp d =
      (if \<not> unset_coordinate px \<or> \<not> unset_coordinate py
       then (True, checkIfStillSnapped (window_moveTo w x y None None d1)) else (False, d1))"
    by (simp only: onWindowMove_def free d1 x_def y_def Let_def prod.case simp_thms if_False if_True)
  with assms(3) have d': "d' = checkIfStillSnapped (window_moveTo w x y None None d1)"
    by (metis prod.inject)
  have "same_geometry (window_moveTo w x y None None d1) d'"
    unfolding d' checkIfStillSnapped_def by (rule geometry_still_snapped)
  from same_geometryD [OF this, of w] same_geometryD [OF near(3), of w] xy
  show ?thesis by (simp add: window_moveTo_def keep_size_def Let_def)
qed

section \<open>Properties\<close>

text \<open>Two windows side by side, the second dragged up to the right edge of the first.\<close>

definition example_docking_events :: "dock_event list" where
  "example_docking_events = [RegisterWindow 7 ''A'' None, RegisterWindow 8 ''B'' (Some True),
     BoundsReported 0 200 100 300 200, BoundsReported 1 900 500 300 200]"

definition example_windows :: "nat \<Rightarrow> dockable" where
  "example_windows = (\<lambda>w. prototype_window)
     (0 := (dockable_of 7 ''A'' True)\<lparr>rc_x := 200, rc_y := 100, rc_width := 300, rc_height := 200\<rparr>,
      1 := (dockable_of 8 ''B'' True)\<lparr>rc_x := 900, rc_y := 500, rc_width := 300, rc_height := 200\<rparr>)"

definition example_docking :: docking where
  "example_docking = (new_docking [])\<lparr>dk_window := example_windows, dk_next := 2, dk_windows := [0, 1],
     dk_instances := [(''A'', 0), (''B'', 1)], dk_calls := [GetBounds 0, DisableFrame 0, GetBounds 1, DisableFrame 1]\<rparr>"

lemma example_docking_run: "dock_run (new_docking []) example_docking_events = Some example_docking"
  by (simp add: example_docking_events_def example_docking_def example_windows_def dock_step_def dock_register_def add_dockable_def window_created_calls_def
      window_onBounds_def new_docking_def dockable_of_def prototype_window_def set_window_def dock_calls_def Let_def
      fun_eq_iff)

text \<open>C23: whatever OpenFin, its bus and the user do, every operation of the docking manager returns, and a window is among
  the children of a group exactly when that group is its group, once. A window that is marked as docked is in a group.\<close>

theorem docking_consistent:
  "\<exists>d. dock_run (new_docking storage) es = Some d
    \<and> (\<forall>k w. w \<in> set (dk_children d k) \<longleftrightarrow> dw_group (dk_window d w) = Some k)
    \<and> (\<forall>k. distinct (dk_children d k))
    \<and> {w. dw_isDocked (dk_window d w)} \<subseteq> {w. dw_group (dk_window d w) \<noteq> None}"
proof -
  obtain d where "dock_run (new_docking storage) es = Some d" and "docking_ok d"
    using docks.run_returns [OF docking_ok_new] by blast
  then show ?thesis by (auto simp: docking_ok_def groups_ok_def refs_ok_def)
qed

text \<open>C34: undocking a window returns and takes it out of its group. The others stay together in their order, unless only one
  is left, which is undocked too; no other group changes.\<close>

theorem undock_leaves_nobody_alone:
  assumes "dock_run (new_docking storage) es = Some d"
  shows "\<exists>d'. window_leaveGroup w d = Some d' \<and> dw_group (dk_window d' w) = None
    \<and> (\<forall>k. dk_children d' k =
         (if dw_group (dk_window d w) = Some k
          then (if length (remove1 w (dk_children d k)) = 1 then [] else remove1 w (dk_children d k))
          else dk_children d k))"
proof -
  have ok: "docking_ok d" using assms by (rule dock_reachable_ok)
  from leaveGroup_ok [OF this] obtain d' where d': "window_leaveGroup w d = Some d'" "docking_ok d'" "leaves w d d'" by blast
  have "w \<notin> set (dk_children d' k)" for k
    using ok d'(3) by (auto simp: docking_ok_def groups_ok_def leaves_def remaining_def Let_def split: if_splits)
  then have "dw_group (dk_window d' w) = None" using d'(2) by (cases "dw_group (dk_window d' w)") (auto simp: docking_ok_def groups_ok_def)
  then show ?thesis using d' by (intro exI [of _ d']) (auto simp: leaves_def remaining_def Let_def)
qed

lemma undock_leaves_nobody_alone_witness:
  "\<exists>d'. window_leaveGroup 1 example_docking = Some d' \<and> dk_children d' 0 = []"
  using undock_leaves_nobody_alone [OF example_docking_run, of 1]
  by (auto simp: example_docking_def new_docking_def example_windows_def dockable_of_def prototype_window_def)

text \<open>C36: a snap never moves a window more than 54 pixels in either direction from where the user dragged it, and keeps its
  size, however many windows it snaps to.\<close>

theorem snap_moves_little:
  assumes "dock_run (new_docking storage) es = Some d" and "w < dk_next d" and "onWindowMove w left tp d = (True, d')"
  shows "\<bar>rc_x (dk_window d' w) - left\<bar> \<le> 54 \<and> \<bar>rc_y (dk_window d' w) - tp\<bar> \<le> 54
    \<and> rc_width (dk_window d' w) = rc_width (dk_window d w) \<and> rc_height (dk_window d' w) = rc_height (dk_window d w)"
  using dock_reachable_ok [OF assms(1)] assms(2,3) by (rule onWindowMove_near)

lemma example_snap: "fst (onWindowMove 1 520 110 example_docking)"
  by code_simp

lemma snap_moves_little_witness:
  "\<bar>rc_x (dk_window (snd (onWindowMove 1 520 110 example_docking)) 1) - 520\<bar> \<le> 54"
proof -
  have "onWindowMove 1 520 110 example_docking = (True, snd (onWindowMove 1 520 110 example_docking))"
    using example_snap by (simp add: prod_eq_iff)
  from snap_moves_little [OF example_docking_run _ this] show ?thesis by (simp add: example_docking_def)
qed

text \<open>The box of a window put where it snaps to.\<close>

definition placed :: "box \<Rightarrow> int option \<times> int option \<Rightarrow> box" where
  "placed b p = b\<lparr>rc_x := (case fst p of None \<Rightarrow> rc_x b | Some x \<Rightarrow> x), rc_y := (case snd p of None \<Rightarrow> rc_y b | Some y \<Rightarrow> y)\<rparr>"

definition grown :: "int \<Rightarrow> box \<Rightarrow> box" where
  "grown n b = b\<lparr>rc_x := rc_x b - n, rc_y := rc_y b - n, rc_width := rc_width b + 2 * n, rc_height := rc_height b + 2 * n\<rparr>"

text \<open>The place a window snaps to lies beside the other window: they do not touch, and a margin of five pixels around
  the one reaches the other.\<close>

theorem snapped_beside:
  assumes "snap_side b v = Some s" and "0 \<le> rc_width b" "0 \<le> rc_height b" "0 \<le> rc_width v" "0 \<le> rc_height v"
  shows "\<not> intersact (placed b (snapToWindow b b v s)) v \<and> intersact (grown 5 (placed b (snapToWindow b b v s))) v"
proof -
  have meets: "(s = SideRight \<or> s = SideLeft) \<and> rc_y b \<le> rc_y v + rc_height v \<and> rc_y v \<le> rc_y b + rc_height b
      \<or> (s = SideTop \<or> s = SideBottom) \<and> rc_x b \<le> rc_x v + rc_width v \<and> rc_x v \<le> rc_x b + rc_width b"
  proof (cases "isSnapable b v")
    case None
    then obtain s' where "isSnapable v b = Some s'" and "s = reverse_side s'" using assms(1) by (auto simp: snap_side_def)
    then show ?thesis using isSnapable_zone [of v b s'] assms(2-5) by (cases s') (auto dest: zone_meets)
  next
    case (Some s')
    then show ?thesis using isSnapable_zone [of b v s'] assms by (auto simp: snap_side_def dest: zone_meets)
  qed
  obtain p where p: "getVerticalEdgeSnapping v b = p" by blast
  obtain q where q: "getHorizontalEdgeSnapping v b = q" by blast
  have "p \<in> {None, Some (rc_y v), Some (rc_y v + rc_height v - rc_height b)}"
    and "q \<in> {None, Some (rc_x v), Some (rc_x v + rc_width v - rc_width b)}"
    unfolding p [symmetric] q [symmetric] by (simp_all add: getVerticalEdgeSnapping_def getHorizontalEdgeSnapping_def)
  with meets assms(2-5) show ?thesis
    by (cases s) (auto simp: placed_def grown_def intersact_def dock_spacing_def p q)
qed

lemma snapped_beside_witness:
  "\<not> intersact (placed \<lparr>rc_x = 520, rc_y = 110, rc_width = 300, rc_height = 200, bx_currentRange = 40\<rparr> (Some 505, Some 100))
     \<lparr>rc_x = 200, rc_y = 100, rc_width = 300, rc_height = 200, bx_currentRange = (40 :: int)\<rparr>"
  using snapped_beside [of "\<lparr>rc_x = 520, rc_y = 110, rc_width = 300, rc_height = 200, bx_currentRange = 40\<rparr>"
      "\<lparr>rc_x = 200, rc_y = 100, rc_width = 300, rc_height = 200, bx_currentRange = 40\<rparr>" SideRight]
  by (simp add: geometry_defs Let_def)

text \<open>A window that snaps to a place at the edge of the screen, where the coordinate is zero, stays where it was
  dragged, as zero counts as no position. It is listed for docking all the same.\<close>

theorem snap_to_zero_is_lost:
  assumes "dk_windows d = [v, w]" and "v \<noteq> w" and "dw_group (dk_window d w) = None"
    and "snap_side (snap_bounds d w left tp) (dk_window d w) = None"
    and "snap_side (snap_bounds d w left tp) (dk_window d v) = Some s"
    and "snapToWindow (dk_window d w) (snap_bounds d w left tp) (dk_window d v) s = (Some 0, None)"
  shows "\<exists>d'. onWindowMove w left tp d = (False, d') \<and> rc_x (dk_window d' w) = rc_x (dk_window d w)
    \<and> obj_get (dk_snapped d') (dw_name (dk_window d w) @ dw_name (dk_window d v)) = Some (Some (w, v, s))"
proof -
  let ?b = "snap_bounds d w left tp"
  define d1 where "d1 = removeFromSnapList w w (set_window w (bx_currentRange_update (\<lambda>_. dock_range)) d)"
  define d2 where "d2 = set_window w (bx_currentRange_update (\<lambda>_. dock_range + 10)) d1"
  have self: "snap_turn w ?b w (d, None, None) = (d1, None, None)" by (simp add: assms(4) d1_def)
  have v1: "dk_window d1 v = dk_window d v"
    using assms(2) by (simp add: d1_def removeFromSnapList_def setOpacity_def Let_def split: option.splits)
  have geo: "same_geometry d d1" unfolding d1_def
    by (rule same_geometry_trans [OF geometry_range geometry_removeFromSnapList])
  have name: "dw_name (dk_window d1 u) = dw_name (dk_window d u)" for u
    by (simp add: d1_def removeFromSnapList_def setOpacity_def Let_def split: option.splits)
  have "snapToWindow (dk_window d2 w) ?b (dk_window d2 v) s = (Some 0, None)"
    using assms(2,6) same_geometryD [OF geo, of w] v1
    by (cases s) (simp_all add: d2_def getVerticalEdgeSnapping_def getHorizontalEdgeSnapping_def)
  then have "snap_turn w ?b v (d1, None, None) = (addToSnapList w v s d2, Some 0, None)"
    using assms(5) by (simp add: v1 first_coordinate_def unset_coordinate_def flip: d2_def)
  with self have "onWindowMove w left tp d = (False, addToSnapList w v s d2)"
    using assms(1,3) by (simp add: onWindowMove_def unset_coordinate_def del: snap_turn.simps)
  moreover have "obj_get (dk_snapped (addToSnapList w v s d2)) (dw_name (dk_window d w) @ dw_name (dk_window d v)) = Some (Some (w, v, s))"
    by (simp add: snapped_addToSnapList obj_get_set d2_def name)
  moreover have "rc_x (dk_window (addToSnapList w v s d2) w) = rc_x (dk_window d w)"
    using same_geometryD(1) [OF same_geometry_trans [OF geo same_geometry_trans [OF geometry_range geometry_addToSnapList]], of w]
    by (simp add: d2_def)
  ultimately show ?thesis by blast
qed

definition example_edge :: docking where
  "example_edge = example_docking\<lparr>dk_window := example_windows(0 := (example_windows 0)\<lparr>rc_x := 305, rc_height := 400\<rparr>)\<rparr>"

lemma snap_to_zero_is_lost_witness:
  "\<exists>d'. onWindowMove 1 (- 10) 180 example_edge = (False, d')
     \<and> obj_get (dk_snapped d') ''BA'' = Some (Some (1, 0, SideLeft))"
proof -
  note defs = example_edge_def example_docking_def example_windows_def new_docking_def dockable_of_def prototype_window_def
    snap_bounds_def
  have "\<exists>d'. onWindowMove 1 (- 10) 180 example_edge = (False, d') \<and> rc_x (dk_window d' 1) = rc_x (dk_window example_edge 1)
    \<and> obj_get (dk_snapped d') (dw_name (dk_window example_edge 1) @ dw_name (dk_window example_edge 0)) = Some (Some (1, 0, SideLeft))"
    by (rule snap_to_zero_is_lost) (simp_all add: defs geometry_defs Let_def)
  then show ?thesis by (simp add: defs) blast
qed

text \<open>After a restart the first window that was docked when the application was last used fails with an exception when it
  has loaded: its partner's name is still in the local storage and no window of that name exists yet.\<close>

theorem first_docked_window_fails_to_load:
  assumes "obj_get storage name = Some partner" and "partner \<noteq> ''''" and "partner \<noteq> name"
  shows "\<exists>d. dock_run (new_docking storage) [RegisterWindow native name dockable, BoundsReported 0 l t wd ht] = Some d
    \<and> fst (window_onLoad 0 name d) = Some (TypeError ''Cannot read property 'y' of undefined'')"
  using assms by (simp add: dock_step_def dock_register_def add_dockable_def window_created_calls_def new_docking_def dockable_of_def prototype_window_def
      window_onBounds_def set_window_def dock_calls_def window_onLoad_def Let_def)

lemma first_docked_window_fails_to_load_witness:
  "\<exists>d. dock_run (new_docking [(''EURUSD'', ''USDJPY'')]) [RegisterWindow 1 ''EURUSD'' None, BoundsReported 0 10 10 300 200] = Some d
    \<and> fst (window_onLoad 0 ''EURUSD'' d) = Some (TypeError ''Cannot read property 'y' of undefined'')"
  by (rule first_docked_window_fails_to_load [where partner = "''USDJPY''"]) simp_all

end
