(* ===== verification/Popouts.thy ===== *)
theory Popouts imports Docking Views begin

text \<open>
  The windows views are popped out into (\<open>ui/common/popout\<close>): the browser's (\<open>browserPopoutService.js\<close>), the
  container's (\<open>openfinPopoutService.js\<close>) with the docking manager behind it, and the choice between them
  (\<open>getPopoutService.js\<close>, \<open>popoutServiceBase.js\<close>). A window is the number the platform gave it. React's rendering into a
  window is a call on the outside.
\<close>

section \<open>The browser's windows\<close>

text \<open>Options of \<open>window.open\<close> are numbers, truth values and texts.\<close>

datatype option_value = OptionNumber rat | OptionBool bool | OptionText string

fun mapWindowOptionValue :: "option_value \<Rightarrow> string" where
  "mapWindowOptionValue (OptionBool b) = (if b then ''yes'' else ''no'')"
| "mapWindowOptionValue (OptionNumber x) = js_String (Num x)"
| "mapWindowOptionValue (OptionText s) = s"

fun join_with :: "string \<Rightarrow> string list \<Rightarrow> string" where
  "join_with sep [] = ''''"
| "join_with sep [s] = s"
| "join_with sep (s # t # ts) = s @ sep @ join_with sep (t # ts)"

text \<open>The window is centred on the page it is opened from, unless its options say where it goes.\<close>

record page =
  pg_innerWidth :: rat
  pg_innerHeight :: rat
  pg_screenX :: rat
  pg_screenY :: rat

definition centred :: "rat \<Rightarrow> rat \<Rightarrow> rat \<Rightarrow> rat" where
  "centred inner extent screen = fl (fl (fl (inner - extent) / 2) + screen)"

definition default_options :: "option_value object" where
  "default_options = [(''height'', OptionNumber 400), (''width'', OptionNumber 400)]"

definition option_number :: "option_value object \<Rightarrow> string \<Rightarrow> rat" where
  "option_number options key = (case obj_get options key of Some (OptionNumber x) \<Rightarrow> x | _ \<Rightarrow> 0)"

definition getWindowOptionsString :: "page \<Rightarrow> option_value object option \<Rightarrow> string" where
  "getWindowOptionsString pg given =
     (let options = (case given of None \<Rightarrow> default_options | Some opts \<Rightarrow> opts);
          placed = [(''top'', OptionNumber (centred (pg_innerHeight pg) (option_number options ''height'') (pg_screenY pg))),
                    (''left'', OptionNumber (centred (pg_innerWidth pg) (option_number options ''width'') (pg_screenX pg)))];
          windowOptions = foldl (\<lambda>ob (k, v). obj_set k v ob) placed options
      in join_with '','' (map (\<lambda>(k, v). k @ ''='' @ mapWindowOptionValue v) windowOptions))"

datatype browser_event = OpenBrowserPopout string string "option_value object option" bool | BrowserLoad | BrowserUnload

datatype browser_call =
    OpenWindow string string string
  | RenderInto string
  | UnmountFrom string
  | OnClosing

text \<open>One window: whether its container was made, and whether closing it is to be told.\<close>

record browser_popout =
  bp_container :: bool
  bp_hasOnClosing :: bool

definition popoutContainerId :: string where "popoutContainerId = ''popout-content-container''"

fun browser_step :: "page \<Rightarrow> (browser_popout, browser_event, browser_call) handler" where
  "browser_step pg b (OpenBrowserPopout url title options hasOnClosing) =
     (\<lparr>bp_container = False, bp_hasOnClosing = hasOnClosing\<rparr>, [OpenWindow url title (getWindowOptionsString pg options)])"
| "browser_step pg b BrowserLoad = (b\<lparr>bp_container := True\<rparr>, [RenderInto popoutContainerId])"
| "browser_step pg b BrowserUnload =
     (b, (if bp_container b then [UnmountFrom popoutContainerId] else []) @ (if bp_hasOnClosing b then [OnClosing] else []))"

section \<open>The container's windows\<close>

text \<open>What the service keeps: whether the docking manager is there, the windows by name, and the class of each
  window's content.\<close>

record popouts =
  pw_dockingManager :: bool
  pw_popouts :: "nat object"
  pw_className :: "nat \<Rightarrow> string"

definition new_popouts :: popouts where
  "new_popouts = \<lparr>pw_dockingManager = False, pw_popouts = [], pw_className = (\<lambda>w. ''openfin-chrome__content'')\<rparr>"

definition DOCKED_CLASS_NAME :: string where "DOCKED_CLASS_NAME = ''docked''"

text \<open>\<open>replace\<close> of every occurrence by nothing, from the left.\<close>

function erase :: "string \<Rightarrow> string \<Rightarrow> string" where
  "erase pat s =
     (if s = '''' then ''''
      else if pat \<noteq> '''' \<and> take (length pat) s = pat then erase pat (drop (length pat) s)
      else hd s # erase pat (tl s))"
  by pat_completeness auto
termination by (relation "measure (\<lambda>(pat, s). length s)") (auto simp: length_greater_0_conv [symmetric] simp del: length_greater_0_conv)

declare erase.simps [simp del]

datatype popout_event =
    DockingReady
  | PopoutCreated nat string "bool option"
  | LoadTimer string
  | CloseRequested nat string bool
  | UndockRequested string
  | BusDocked string
  | BusUndocked string

datatype popout_call =
    RenderPopout nat
  | RegisterDockable nat string "bool option"
  | StartLoadTimer string
  | PublishWindowLoad string
  | PublishUndock string
  | UnmountPopout nat
  | PopoutClosing
  | CloseWindow nat

definition undockPopout :: "string \<Rightarrow> popout_call list" where
  "undockPopout windowName = [PublishUndock windowName]"

definition registerWindow :: "nat \<Rightarrow> string \<Rightarrow> bool option \<Rightarrow> popouts \<Rightarrow> popouts \<times> popout_call list" where
  "registerWindow native name dockable p =
     (if pw_dockingManager p
      then (p\<lparr>pw_popouts := obj_set name native (pw_popouts p)\<rparr>, [RegisterDockable native name dockable, StartLoadTimer name])
      else (p, []))"

definition unregisterWindow :: "string \<Rightarrow> popouts \<Rightarrow> popouts \<times> popout_call list" where
  "unregisterWindow name p = (p\<lparr>pw_popouts := obj_delete name (pw_popouts p)\<rparr>, undockPopout name)"

definition set_className :: "nat \<Rightarrow> string \<Rightarrow> popouts \<Rightarrow> popouts" where
  "set_className w c p = p\<lparr>pw_className := (pw_className p)(w := c)\<rparr>"

fun popout_step :: "(popouts, popout_event, popout_call) handler" where
  "popout_step p DockingReady = (p\<lparr>pw_dockingManager := True\<rparr>, [])"
| "popout_step p (PopoutCreated native name dockable) =
     (let (p', calls) = registerWindow native name dockable p in (p', RenderPopout native # calls))"
| "popout_step p (LoadTimer name) = (p, [PublishWindowLoad name])"
| "popout_step p (CloseRequested native name hasOnClosing) =
     (let (p', calls) = unregisterWindow name p
      in (p', calls @ [UnmountPopout native] @ (if hasOnClosing then [PopoutClosing] else []) @ [CloseWindow native]))"
| "popout_step p (UndockRequested name) = (p, undockPopout name)"
| "popout_step p (BusDocked name) =
     (case obj_get (pw_popouts p) name of
        None \<Rightarrow> (p, [])
      | Some w \<Rightarrow> (set_className w (pw_className p w @ '' '' @ DOCKED_CLASS_NAME) p, []))"
| "popout_step p (BusUndocked name) =
     (case obj_get (pw_popouts p) name of
        None \<Rightarrow> (p, [])
      | Some w \<Rightarrow> (set_className w (erase DOCKED_CLASS_NAME (pw_className p w)) p, []))"

text \<open>The service is chosen once.\<close>

datatype popout_service = OpenfinPopoutService | BrowserPopoutService

definition getPopoutService :: "bool \<Rightarrow> popout_service option \<Rightarrow> popout_service" where
  "getPopoutService isRunningInOpenFin popoutService =
     (case popoutService of
        None \<Rightarrow> if isRunningInOpenFin then OpenfinPopoutService else BrowserPopoutService
      | Some s \<Rightarrow> s)"

section \<open>Popouts and docking together\<close>

text \<open>The docking manager gets what the service registers and publishes; every window made hears the load message.\<close>

fun docking_inputs :: "docking \<Rightarrow> popout_call \<Rightarrow> dock_event list" where
  "docking_inputs d (RegisterDockable native name dockable) = [RegisterWindow native name dockable]"
| "docking_inputs d (PublishUndock name) = [UndockWindow name]"
| "docking_inputs d (PublishWindowLoad name) = map (\<lambda>w. WindowLoad w name) [0..<dk_next d]"
| "docking_inputs d call = []"

definition deliver_call :: "docking \<Rightarrow> popout_call \<Rightarrow> docking option" where
  "deliver_call d call = dock_run d (docking_inputs d call)"

abbreviation deliver :: "docking \<Rightarrow> popout_call list \<Rightarrow> docking option" where
  "deliver \<equiv> run_option deliver_call"

definition popout_docking_step ::
    "popouts \<times> docking \<Rightarrow> popout_event + dock_event \<Rightarrow> (popouts \<times> docking) option" where
  "popout_docking_step pd e =
     (case e of
        Inl pe \<Rightarrow> (let (p', calls) = popout_step (fst pd) pe in map_option (\<lambda>d'. (p', d')) (deliver (snd pd) calls))
      | Inr de \<Rightarrow> map_option (\<lambda>d'. (fst pd, d')) (dock_step (snd pd) de))"

abbreviation popout_docking_run ::
    "popouts \<times> docking \<Rightarrow> (popout_event + dock_event) list \<Rightarrow> (popouts \<times> docking) option" where
  "popout_docking_run \<equiv> run_option popout_docking_step"

section \<open>Lemmas\<close>

lemma erase_docked: "erase DOCKED_CLASS_NAME ''openfin-chrome__content docked'' = ''openfin-chrome__content ''"
  by code_simp

interpretation delivery: total_handler deliver_call docking_ok
  by unfold_locales (simp add: deliver_call_def docks.run_returns)

lemma popout_docking_step_ok:
  "docking_ok (snd pd) \<Longrightarrow> \<exists>pd'. popout_docking_step pd e = Some pd' \<and> docking_ok (snd pd')"
proof (cases e)
  case (Inl pe)
  assume ok: "docking_ok (snd pd)"
  obtain p' calls where step: "popout_step (fst pd) pe = (p', calls)" by (cases "popout_step (fst pd) pe")
  obtain d' where "deliver (snd pd) calls = Some d'" "docking_ok d'" using delivery.run_returns [OF ok] by blast
  then show ?thesis using Inl step by (simp add: popout_docking_step_def del: popout_step.simps)
next
  case (Inr de)
  assume "docking_ok (snd pd)"
  then obtain d' where "dock_step (snd pd) de = Some d'" "docking_ok d'" using dock_step_ok by blast
  then show ?thesis using Inr by (simp add: popout_docking_step_def)
qed

interpretation popouts_docked: total_handler popout_docking_step "\<lambda>pd. docking_ok (snd pd)"
  by unfold_locales (rule popout_docking_step_ok)

text \<open>A window that is in no group stays in none while others leave, and every window of the name leaves.\<close>

lemma leaves_group:
  assumes "docking_ok d" and "docking_ok d'" and "leaves w d d'"
  shows "dw_group (dk_window d' w) = None"
    and "dw_group (dk_window d v) = None \<Longrightarrow> dw_group (dk_window d' v) = None"
proof -
  have fewer: "set (dk_children d' k) \<subseteq> set (dk_children d k) - {w}" for k
    using assms(1,3) by (auto simp: leaves_def remaining_def Let_def docking_ok_def groups_ok_def dest: notin_set_remove1 split: if_splits)
  have "v \<in> set (dk_children d' k)" if "dw_group (dk_window d' v) = Some k" for v k
    using assms(2) that by (simp add: docking_ok_def groups_ok_def)
  with fewer show "dw_group (dk_window d' w) = None" by (cases "dw_group (dk_window d' w)") blast+
  assume none: "dw_group (dk_window d v) = None"
  have "v \<notin> set (dk_children d k)" for k using assms(1) none by (simp add: docking_ok_def groups_ok_def)
  with fewer \<open>\<And>v k. dw_group (dk_window d' v) = Some k \<Longrightarrow> v \<in> set (dk_children d' k)\<close>
  show "dw_group (dk_window d' v) = None" by (cases "dw_group (dk_window d' v)") blast+
qed

lemma undock_named_frees:
  assumes "docking_ok d" and "undock_named name ws d = Some d'"
  shows "(\<forall>v. dw_group (dk_window d v) = None \<longrightarrow> dw_group (dk_window d' v) = None)
    \<and> (\<forall>v \<in> set ws. dw_name (dk_window d v) = name \<longrightarrow> dw_group (dk_window d' v) = None)
    \<and> (\<forall>v. dw_name (dk_window d' v) = dw_name (dk_window d v)) \<and> dk_windows d' = dk_windows d"
  using assms unfolding undock_named_def
proof (induction ws arbitrary: d)
  case Nil
  then show ?case by simp
next
  case (Cons w ws)
  show ?case
  proof (cases "dw_name (dk_window d w) = name")
    case False
    with Cons show ?thesis by (auto simp: undock_window_def [of name d w])
  next
    case True
    obtain d1 where d1: "window_leaveGroup w d = Some d1" "docking_ok d1" "leaves w d d1"
      using leaveGroup_ok [OF Cons.prems(1)] by blast
    with Cons.prems(2) True have "run_option (undock_window name) d1 ws = Some d'" by (simp add: undock_window_def [of name d w])
    from Cons.IH [OF d1(2) this] leaves_group [OF Cons.prems(1) d1(2,3)] d1(3)
    show ?thesis by (auto simp: leaves_def)
  qed
qed

section \<open>Properties\<close>

text \<open>C30: whatever happened before, when a popped out window is asked to close it is taken out of its group before it is closed:
  afterwards no registered window of its name is in a group, and the service has forgotten it.\<close>

theorem closing_undocks:
  "\<exists>p d p' d'. popout_docking_run (new_popouts, new_docking storage) es = Some (p, d)
    \<and> popout_docking_step (p, d) (Inl (CloseRequested native name told)) = Some (p', d')
    \<and> snd (popout_step p (CloseRequested native name told)) =
        PublishUndock name # UnmountPopout native # (if told then [PopoutClosing] else []) @ [CloseWindow native]
    \<and> obj_get (pw_popouts p') name = None \<and> dk_windows d' = dk_windows d
    \<and> {w \<in> set (dk_windows d'). dw_name (dk_window d' w) = name \<and> dw_group (dk_window d' w) \<noteq> None} = {}"
proof -
  obtain p d where pd: "popout_docking_run (new_popouts, new_docking storage) es = Some (p, d)" "docking_ok d"
    using popouts_docked.run_returns [of "(new_popouts, new_docking storage)"] docking_ok_new [of storage] by fastforce
  obtain d' where d': "undock_named name (dk_windows d) d = Some d'" using undocking.run_returns [OF pd(2)] unfolding undock_named_def by blast
  have calls: "snd (popout_step p (CloseRequested native name told)) =
      PublishUndock name # UnmountPopout native # (if told then [PopoutClosing] else []) @ [CloseWindow native]"
    by (simp add: unregisterWindow_def undockPopout_def)
  have step: "popout_docking_step (p, d) (Inl (CloseRequested native name told)) =
      Some (p\<lparr>pw_popouts := obj_delete name (pw_popouts p)\<rparr>, d')"
    using d' by (simp add: popout_docking_step_def deliver_call_def unregisterWindow_def undockPopout_def dock_step_def onUndock_def)
  have "obj_get (pw_popouts (p\<lparr>pw_popouts := obj_delete name (pw_popouts p)\<rparr>)) name = None" by (simp add: obj_get_delete)
  moreover have "{w \<in> set (dk_windows d'). dw_name (dk_window d' w) = name \<and> dw_group (dk_window d' w) \<noteq> None} = {}"
    and "dk_windows d' = dk_windows d"
    using undock_named_frees [OF pd(2) d'] by auto
  ultimately show ?thesis using pd(1) step calls by blast
qed

end
