(* ===== verification/Charts.thy ===== *)
theory Charts imports Analytics begin

text \<open>
  What the analytics views compute: the colour gradients of the profit and loss chart
  (\<open>chartGradient.js\<close>), the bars of the pairs (\<open>analyticsBarChart.jsx\<close>, \<open>pnlBar.jsx\<close>) and the header
  (\<open>analyticsView.jsx\<close>). The DOM below the chart is the part the gradients look at and change; widths
  measured by the browser are arguments. Percentages are the number before the sign.
\<close>

section \<open>The gradients\<close>

text \<open>The offsets of the four stops of a gradient, from the top: the upper colour from the first to the second,
  the lower one from the third to the fourth.\<close>

record gradient =
  gr_parent :: "nat option"
  gr_stop1 :: rat
  gr_stop1End :: rat
  gr_stop2 :: rat
  gr_stop2End :: rat

record chart_gradient =
  cg_linear :: gradient
  cg_stroke :: gradient

definition createGradients :: chart_gradient where
  "createGradients =
     (let g = \<lparr>gr_parent = None, gr_stop1 = 0, gr_stop1End = 50, gr_stop2 = 50, gr_stop2End = 100\<rparr>
      in \<lparr>cg_linear = g, cg_stroke = g\<rparr>)"

text \<open>The group of the rendered chart, absent before the first rendering: its \<open>defs\<close> element, by identity, and the
  classes of the area and the line, each perhaps absent.\<close>

record chart_group =
  gp_defs :: "nat option"
  gp_area :: "string list option"
  gp_line :: "string list option"

definition add_class :: "string \<Rightarrow> string list option \<Rightarrow> string list option" where
  "add_class c = map_option (\<lambda>cs. if c \<in> set cs then cs else cs @ [c])"

text \<open>\<open>fresh\<close> is the identity of a \<open>defs\<close> element made here. The last result says that the update is to be tried again in
  ten milliseconds.\<close>

definition appendLinearGradients ::
    "nat \<Rightarrow> chart_group option \<Rightarrow> chart_gradient \<Rightarrow> chart_group option \<times> chart_gradient \<times> bool" where
  "appendLinearGradients fresh nvGroups cg =
     (case nvGroups of
        None \<Rightarrow> (None, cg, True)
      | Some group0 \<Rightarrow>
          let defs = (case gp_defs group0 of None \<Rightarrow> fresh | Some d \<Rightarrow> d);
              group1 = group0\<lparr>gp_defs := Some defs\<rparr>;
              (group2, linear) =
                (if gr_parent (cg_linear cg) \<noteq> Some defs
                 then (group1\<lparr>gp_area := add_class ''new-chart-area'' (gp_area group1)\<rparr>, (cg_linear cg)\<lparr>gr_parent := Some defs\<rparr>)
                 else (group1, cg_linear cg));
              (group3, stroke) =
                (if gr_parent (cg_stroke cg) \<noteq> Some defs
                 then (group2\<lparr>gp_line := add_class ''new-chart-stroke'' (gp_line group2)\<rparr>, (cg_stroke cg)\<lparr>gr_parent := Some defs\<rparr>)
                 else (group2, cg_stroke cg))
          in (Some group3, \<lparr>cg_linear = linear, cg_stroke = stroke\<rparr>, False))"

text \<open>The bounds are undefined before the first update of the model.\<close>

definition zero_offset :: "rat \<Rightarrow> rat \<Rightarrow> rat" where
  "zero_offset domainMin domainMax =
     fl (fl (domainMax / fl (\<bar>domainMin\<bar> + \<bar>domainMax\<bar>)) * 100)"

definition set_stops :: "rat \<Rightarrow> gradient \<Rightarrow> gradient" where
  "set_stops zeroAt g = g\<lparr>gr_stop1 := 0, gr_stop1End := zeroAt, gr_stop2 := zeroAt, gr_stop2End := 100\<rparr>"

definition updateStops :: "rat option \<Rightarrow> rat option \<Rightarrow> chart_gradient \<Rightarrow> chart_gradient" where
  "updateStops domainMin domainMax cg =
     (case (domainMin, domainMax) of
        (Some lo, Some hi) \<Rightarrow>
          if fl (\<bar>lo\<bar> + \<bar>hi\<bar>) = 0 then cg
          else cg\<lparr>cg_linear := set_stops (zero_offset lo hi) (cg_linear cg), cg_stroke := set_stops (zero_offset lo hi) (cg_stroke cg)\<rparr>
      | _ \<Rightarrow> cg)"

text \<open>A chart element is always there where the view calls this.\<close>

definition gradient_update ::
    "nat \<Rightarrow> chart_group option \<Rightarrow> rat option \<Rightarrow> rat option \<Rightarrow> chart_gradient \<Rightarrow> chart_group option \<times> chart_gradient \<times> bool" where
  "gradient_update fresh nvGroups domainMin domainMax cg =
     (let (group1, cg1, again) = appendLinearGradients fresh nvGroups cg
      in (group1, updateStops domainMin domainMax cg1, again))"

section \<open>The bars\<close>

text \<open>The largest profit or loss of the pairs, without a sign; \<open>None\<close> without pairs.\<close>

definition bar_maxVal :: "currency_pair_position list \<Rightarrow> rat option" where
  "bar_maxVal series =
     (case map pos_basePnl series of
        [] \<Rightarrow> None
      | v # vs \<Rightarrow> Some (max \<bar>foldl max v vs\<bar> \<bar>foldl min v vs\<bar>))"

definition createBars :: "currency_pair_position list \<Rightarrow> (nat \<times> currency_pair_position \<times> rat) list" where
  "createBars series =
     (case bar_maxVal series of
        None \<Rightarrow> []
      | Some maxVal \<Rightarrow> map (\<lambda>i. (i, series ! i, maxVal)) [0..<length series])"

text \<open>The position of the pointer in per cent. Zero divided by zero is \<open>NaN\<close>; a bar's profit is never larger than the
  largest one.\<close>

definition getRelativePointerPosition :: "rat \<Rightarrow> rat \<Rightarrow> jsnum" where
  "getRelativePointerPosition baseValue maxVal =
     (if maxVal = 0 then NaN
      else let displayValue = fl (fl (\<bar>baseValue\<bar> / maxVal) * 100)
           in Num (if baseValue > 0 then fl (50 + fl (displayValue / 2)) else fl (50 - fl (displayValue / 2))))"

text \<open>The spacer before the label; both widths are positive once they can be measured.\<close>

definition getPusherRelativePosition :: "(rat \<times> rat) option \<Rightarrow> rat \<Rightarrow> rat \<Rightarrow> jsnum" where
  "getPusherRelativePosition widths baseValue maxVal =
     (case widths of
        None \<Rightarrow> Num 0
      | Some (container, label) \<Rightarrow>
          let availableSpace = fl (fl (1 - fl (label / container)) * 100)
          in (case getRelativePointerPosition baseValue maxVal of
               NaN \<Rightarrow> Num availableSpace
             | Num x \<Rightarrow>
                 let p = fl (x - fl (fl (fl (label / container) * 50) - 1));
                     p' = (if p < 0 then 0 else p)
                 in Num (if p' \<le> availableSpace then p' else availableSpace)))"

definition calculateOffset :: "((rat \<times> rat) \<times> (rat \<times> rat)) option \<Rightarrow> rat" where
  "calculateOffset bounds =
     (case bounds of
        None \<Rightarrow> 0
      | Some ((containerLeft, containerRight), (labelLeft, labelRight)) \<Rightarrow>
          let leftPoint = fl (labelLeft - containerLeft); rightPoint = fl (containerRight - labelRight)
          in if leftPoint < 0 then \<bar>leftPoint\<bar> else if rightPoint < 0 then rightPoint else 0)"

section \<open>The header\<close>

definition analyticsHeaderClasses :: "pnl_chart \<Rightarrow> (string \<times> bool) list" where
  "analyticsHeaderClasses chart =
     (let lastPos = (case pnl_lastPos chart of None \<Rightarrow> NaN | Some s \<Rightarrow> js_Number s)
      in [(''analytics__header-value'', True),
          (''analytics__header-value--negative'', case lastPos of NaN \<Rightarrow> False | Num x \<Rightarrow> x < 0),
          (''analytics__header-value--positive'', case lastPos of NaN \<Rightarrow> False | Num x \<Rightarrow> x > 0)])"

section \<open>Lemmas\<close>

lemma fl_exact [simp]: "fl 100 = 100" "fl 50 = 50" "fl 1 = 1" "fl 0 = 0"
  using fl_of_int [of 100] fl_of_int [of 50] fl_of_int [of 1] by (simp_all add: fl_def)

lemma fl_ratio:
  assumes "0 \<le> a" "a \<le> b" "0 < b"
  shows "0 \<le> fl (a / b) \<and> fl (a / b) \<le> 1"
  using fl_between [of "a / b" 1] assms by simp

lemma fl_percent:
  assumes "0 \<le> x" "x \<le> 1"
  shows "0 \<le> fl (x * 100) \<and> fl (x * 100) \<le> 100"
  using fl_between [of "x * 100" 100] assms by simp

lemma zero_offset_between:
  assumes "lo \<le> 0" "0 \<le> hi" "fl (\<bar>lo\<bar> + \<bar>hi\<bar>) \<noteq> 0" and "fl hi = hi"
  shows "0 \<le> zero_offset lo hi \<and> zero_offset lo hi \<le> 100"
proof -
  have "fl hi \<le> fl (\<bar>lo\<bar> + \<bar>hi\<bar>)" using assms(1,2) by (intro fl_mono) simp_all
  with assms(4) have le: "hi \<le> fl (\<bar>lo\<bar> + \<bar>hi\<bar>)" by simp
  moreover have "0 < fl (\<bar>lo\<bar> + \<bar>hi\<bar>)" using le assms(2,3) by linarith
  ultimately show ?thesis unfolding zero_offset_def using fl_ratio [OF assms(2)] fl_percent by blast
qed

text \<open>Where the colours change, against the zero line of the chart. The sum of two doubles is rounded by at most half a
  unit in its last place, however small it is, and so is a number between zero and a bound, relative to the bound.\<close>

definition least_double :: rat where "least_double = 2 powi (- 1074)"

lemma two_powi: "(2::rat) powi (int k + j) = of_int (2 ^ k) * 2 powi j"
  by (simp add: power_int_add)

lemma least_double_facts: "0 < least_double" "2 powi (- 1022) = 2 ^ 52 * least_double"
  using two_powi [of 52 "- 1074"] by (simp_all only: least_double_def) (simp_all only: zero_less_power_int zero_less_numeral of_int_power of_int_numeral
    of_nat_numeral arith_simps rel_simps diff_numeral_special)

lemma double_grid:
  assumes "fl x = x"
  obtains m where "x = of_int m * least_double"
proof (cases "x = 0")
  case True
  then show thesis using that [of 0] by simp
next
  case False
  define e where "e = max (exponent2 \<bar>x\<bar> - 52) (- 1074)"
  define n where "n = round_half_even (x / 2 powi e)"
  have x: "x = of_int n * 2 powi e" using assms False by (simp add: fl_def e_def n_def Let_def)
  have "- 1074 \<le> e" by (simp add: e_def)
  then have "e = int (nat (e + 1074)) + (- 1074)" by simp
  then have "2 powi e = of_int (2 ^ nat (e + 1074)) * least_double" by (metis two_powi least_double_def)
  with x have "x = of_int (n * 2 ^ nat (e + 1074)) * least_double" by simp
  then show thesis by (rule that)
qed

lemma grid_sum_error:
  assumes "x = of_int m * least_double" "y = of_int n * least_double"
  shows "\<bar>fl (x + y) - (x + y)\<bar> \<le> \<bar>x + y\<bar> / 2 ^ 53"
proof (cases "2 powi (- 1022) \<le> \<bar>x + y\<bar>")
  case False
  have sum: "x + y = of_int (m + n) * least_double" by (simp add: assms algebra_simps)
  have "\<bar>of_int (m + n)\<bar> * least_double < 2 ^ 52 * least_double"
    using False least_double_facts unfolding sum by (simp only: abs_mult abs_of_pos not_le)
  then have "\<bar>of_int (m + n) :: rat\<bar> < 2 ^ 52" using least_double_facts(1) by (simp only: mult_less_cancel_right_pos)
  then have "\<bar>m + n\<bar> < 2 ^ 52" by (metis of_int_abs of_int_less_iff of_int_numeral of_int_power)
  then have "fl (x + y) = x + y" unfolding sum least_double_def by (intro fl_representable) simp_all
  then show ?thesis by simp
qed (rule fl_error)

lemma least_normal:
  obtains d where "d = 2 powi (- 1022)" "0 < d" "fl d = d" "d \<le> 1 / 2 ^ 53"
proof -
  have "(2::rat) powi (- 1022) < 2 powi (- 53)" unfolding p2_less_iff by simp
  also have "\<dots> = 1 / 2 ^ 53" by simp
  finally have "(2::rat) powi (- 1022) \<le> 1 / 2 ^ 53" by (rule less_imp_le)
  moreover have "fl (of_int 1 * 2 powi (- 1022)) = of_int 1 * 2 powi (- 1022)" by (rule fl_representable) simp_all
  then have "fl (2 powi (- 1022)) = 2 powi (- 1022)" by (simp only: of_int_1 mult_1)
  moreover have "(0::rat) < 2 powi (- 1022)" by (rule zero_less_power_int) simp
  ultimately show thesis by (intro that [OF refl])
qed

lemma fl_bounded_error:
  assumes "0 \<le> x" "x \<le> b" "1 \<le> b"
  shows "\<bar>fl x - x\<bar> \<le> b / 2 ^ 53"
proof -
  obtain d where d: "d = 2 powi (- 1022)" "0 < d" "fl d = d" "d \<le> 1 / 2 ^ 53" by (rule least_normal)
  show ?thesis
  proof (cases "d \<le> x")
    case True
    then have "\<bar>fl x - x\<bar> \<le> x / 2 ^ 53" using fl_error [of x, folded d(1)] assms(1) by simp
    also have "\<dots> \<le> b / 2 ^ 53" using assms(2) by (simp add: divide_right_mono)
    finally show ?thesis .
  next
    case False
    then have "0 \<le> fl x" "fl x \<le> d" using fl_mono(1) [OF assms(1), of d] fl_mono(2) [of 0 x] assms(1) d(3) by simp_all
    then have "\<bar>fl x - x\<bar> \<le> d" using assms(1) False by linarith
    also have "\<dots> \<le> 1 / 2 ^ 53" by (rule d(4))
    also have "\<dots> \<le> b / 2 ^ 53" using assms(3) by (simp add: divide_right_mono)
    finally show ?thesis .
  qed
qed

lemma zero_offset_close:
  assumes "lo \<le> 0" "0 \<le> hi" "lo < hi" "fl lo = lo" "fl hi = hi"
  shows "fl (\<bar>lo\<bar> + \<bar>hi\<bar>) \<noteq> 0" and "\<bar>zero_offset lo hi - 100 * hi / (hi - lo)\<bar> \<le> 1 / 10 ^ 12"
proof -
  define s where "s = hi - lo"
  define t where "t = fl (\<bar>lo\<bar> + \<bar>hi\<bar>)"
  have s: "0 < s" "hi \<le> s" "\<bar>lo\<bar> + \<bar>hi\<bar> = s" using assms(1-3) by (simp_all add: s_def)
  obtain m where "lo = of_int m * least_double" by (rule double_grid [OF assms(4)])
  then have m: "\<bar>lo\<bar> = of_int (- m) * least_double" using assms(1) by simp
  obtain n where "hi = of_int n * least_double" by (rule double_grid [OF assms(5)])
  then have n: "\<bar>hi\<bar> = of_int n * least_double" using assms(2) by simp
  have t: "\<bar>t - s\<bar> \<le> s / 2 ^ 53" using grid_sum_error [OF m n] s(1) unfolding s(3) t_def by simp
  moreover have "s / 2 ^ 53 \<le> s / 2" using s(1) by (intro divide_left_mono) simp_all
  ultimately have t2: "s / 2 \<le> t" unfolding abs_le_iff by linarith
  then have "0 < t" using s(1) by linarith
  then show nonzero: "fl (\<bar>lo\<bar> + \<bar>hi\<bar>) \<noteq> 0" by (simp add: t_def)
  have "hi \<le> t" using fl_mono(1) [of hi s] assms(2,5) s by (simp add: t_def)
  then have ratio: "0 \<le> hi / t" "hi / t \<le> 1" using assms(2) \<open>0 < t\<close> by simp_all
  have "hi / t - hi / s = (hi / s) * ((s - t) / t)" using s(1) \<open>0 < t\<close> by (simp add: field_simps)
  moreover have "\<bar>(hi / s) * ((s - t) / t)\<bar> \<le> 1 * (2 / 2 ^ 53)"
    unfolding abs_mult
  proof (rule mult_mono)
    show "\<bar>hi / s\<bar> \<le> 1" using assms(2) s by simp
    have "\<bar>s - t\<bar> \<le> s / 2 * (2 / 2 ^ 53)" using t by (simp add: abs_minus_commute)
    also have "\<dots> \<le> t * (2 / 2 ^ 53)" using t2 by (intro mult_right_mono) simp_all
    finally show "\<bar>(s - t) / t\<bar> \<le> 2 / 2 ^ 53" using \<open>0 < t\<close> by (simp add: field_simps)
  qed simp_all
  ultimately have close: "\<bar>hi / t - hi / s\<bar> \<le> 2 / 2 ^ 53" by simp
  define r where "r = fl (hi / t)"
  have r: "\<bar>r - hi / t\<bar> \<le> 1 / 2 ^ 53" using fl_bounded_error [OF ratio] by (simp add: r_def)
  have r01: "0 \<le> r" "r \<le> 1" using fl_between [of "hi / t" 1] ratio by (simp_all add: r_def)
  have "\<bar>zero_offset lo hi - r * 100\<bar> \<le> 100 / 2 ^ 53"
    using fl_bounded_error [of "r * 100" 100] r01 by (simp add: zero_offset_def r_def t_def)
  moreover have "\<bar>r * 100 - 100 * (hi / s)\<bar> \<le> 300 / 2 ^ 53" using close r unfolding abs_le_iff by linarith
  ultimately have "\<bar>zero_offset lo hi - 100 * (hi / s)\<bar> \<le> 400 / 2 ^ 53" unfolding abs_le_iff by linarith
  also have "\<dots> \<le> 1 / 10 ^ 12" by simp
  finally show "\<bar>zero_offset lo hi - 100 * hi / (hi - lo)\<bar> \<le> 1 / 10 ^ 12" by (simp add: s_def)
qed

lemma foldl_extremes: "foldl max v vs = Max (set (v # vs))" "foldl min v vs = Min (set (v # vs))"
  for v :: "'a::linorder"
proof -
  have "foldl max v vs = fold max vs v" for v by (induction vs arbitrary: v) (simp_all add: max.commute)
  then show "foldl max v vs = Max (set (v # vs))" by (simp only: Max.set_eq_fold)
  have "foldl min v vs = fold min vs v" for v by (induction vs arbitrary: v) (simp_all add: min.commute)
  then show "foldl min v vs = Min (set (v # vs))" by (simp only: Min.set_eq_fold)
qed

lemma bar_maxVal_bound:
  assumes "bar_maxVal series = Some m" and "pos \<in> set series"
  shows "\<bar>pos_basePnl pos\<bar> \<le> m"
proof (cases "map pos_basePnl series")
  case Nil
  then show ?thesis using assms(1) by (simp add: bar_maxVal_def)
next
  case (Cons v vs)
  have m: "m = max \<bar>Max (set (v # vs))\<bar> \<bar>Min (set (v # vs))\<bar>"
    using assms(1) Cons by (simp add: bar_maxVal_def foldl_extremes del: set_simps)
  have "pos_basePnl pos \<in> set (v # vs)" unfolding Cons [symmetric] using assms(2) by simp
  then have "Min (set (v # vs)) \<le> pos_basePnl pos" "pos_basePnl pos \<le> Max (set (v # vs))"
    by (auto intro: Max_ge Min_le)
  then show ?thesis unfolding m by (simp only: abs_le_iff le_max_iff_disj) linarith
qed

lemma bar_maxVal_pos:
  assumes "bar_maxVal series = Some m" and "pos \<in> set series" and "pos_basePnl pos \<noteq> 0"
  shows "0 < m"
  using bar_maxVal_bound [OF assms(1,2)] assms(3) by linarith

lemma pointer_between:
  assumes "\<bar>v\<bar> \<le> m" and "0 < m"
  shows "\<exists>x. getRelativePointerPosition v m = Num x \<and> 0 \<le> x \<and> x \<le> 100 \<and> (v > 0 \<longrightarrow> 50 \<le> x) \<and> (v \<le> 0 \<longrightarrow> x \<le> 50)"
proof -
  define d where "d = fl (fl (\<bar>v\<bar> / m) * 100)"
  have "0 \<le> d" "d \<le> 100" unfolding d_def using fl_ratio [of "\<bar>v\<bar>" m] fl_percent assms by simp_all
  then have half: "0 \<le> fl (d / 2)" "fl (d / 2) \<le> 50" using fl_between [of "d / 2" 50] by simp_all
  have "50 \<le> fl (50 + fl (d / 2)) \<and> fl (50 + fl (d / 2)) \<le> 100"
    using fl_mono(1) [of 50 "50 + fl (d / 2)"] fl_mono(1) [of "50 + fl (d / 2)" 100] half by simp
  moreover have "0 \<le> fl (50 - fl (d / 2)) \<and> fl (50 - fl (d / 2)) \<le> 50"
    using fl_between [of "50 - fl (d / 2)" 50] half by simp
  ultimately show ?thesis using assms(2) by (simp add: getRelativePointerPosition_def Let_def flip: d_def)
qed

lemma pointer_at_end: "0 < m \<Longrightarrow> getRelativePointerPosition m m = Num 100 \<and> getRelativePointerPosition (- m) m = Num 0"
  by (simp add: getRelativePointerPosition_def Let_def)

lemma add_class_idem: "add_class c (add_class c cs) = add_class c cs"
  by (cases cs) (simp_all add: add_class_def)

section \<open>Properties\<close>

text \<open>Every bar of a panel on which some pair has a profit or a loss points within its scale, right of the middle exactly
  for a profit, and the largest profit or loss points to an end of the scale.\<close>

theorem pointers_in_scale:
  assumes "(i, pos, m) \<in> set (createBars series)" and "pos' \<in> set series" and "pos_basePnl pos' \<noteq> 0"
  shows "\<exists>x. getRelativePointerPosition (pos_basePnl pos) m = Num x \<and> 0 \<le> x \<and> x \<le> 100
    \<and> (pos_basePnl pos > 0 \<longrightarrow> 50 \<le> x) \<and> (pos_basePnl pos \<le> 0 \<longrightarrow> x \<le> 50)
    \<and> (\<bar>pos_basePnl pos\<bar> = m \<longrightarrow> x = 0 \<or> x = 100)"
proof -
  have m: "bar_maxVal series = Some m" and pos: "pos \<in> set series"
    using assms(1) by (auto simp: createBars_def split: option.splits)
  have "0 < m" using bar_maxVal_pos [OF m assms(2,3)] .
  moreover have "\<bar>pos_basePnl pos\<bar> \<le> m" using bar_maxVal_bound [OF m pos] .
  ultimately obtain x where x: "getRelativePointerPosition (pos_basePnl pos) m = Num x" "0 \<le> x" "x \<le> 100"
      "pos_basePnl pos > 0 \<longrightarrow> 50 \<le> x" "pos_basePnl pos \<le> 0 \<longrightarrow> x \<le> 50"
    using pointer_between by blast
  have "x = 0 \<or> x = 100" if "\<bar>pos_basePnl pos\<bar> = m"
  proof -
    have "pos_basePnl pos = m \<or> pos_basePnl pos = - m" using that by linarith
    then show ?thesis using x(1) pointer_at_end [OF \<open>0 < m\<close>] by auto
  qed
  with x show ?thesis by blast
qed

definition example_positions :: "currency_pair_position list" where
  "example_positions = (let pair = new_currency_pair ''EURUSD'' 5 4 in
     [\<lparr>pos_symbol = ''EURUSD'', pos_basePnl = 40, pos_baseTradedAmount = 1, pos_currencyPair = pair\<rparr>,
      \<lparr>pos_symbol = ''EURJPY'', pos_basePnl = - 80, pos_baseTradedAmount = 1, pos_currencyPair = pair\<rparr>])"

lemma pointers_in_scale_witness:
  "\<exists>x. getRelativePointerPosition 40 80 = Num x \<and> 50 \<le> x \<and> x \<le> 100"
  using pointers_in_scale [of 0 "hd example_positions" 80 example_positions "hd example_positions"]
  by (simp add: example_positions_def createBars_def bar_maxVal_def Let_def) blast

text \<open>The offsets of the stops of a gradient, from the top of the chart.\<close>

definition stops :: "gradient \<Rightarrow> rat list" where
  "stops g = [gr_stop1 g, gr_stop1End g, gr_stop2 g, gr_stop2End g]"

text \<open>C40: once the chart is rendered an update of its colours leaves both gradients in its \<open>defs\<close>. Unless all profits shown
  are zero, the colours of both then change at the zero line, whose place in per cent from the top is given by the bounds
  of the chart, up to rounding; if they are all zero the colours stay where they were. Doing it again changes nothing.\<close>

theorem gradient_follows_chart:
  assumes "pnl_chart_update chart positions = Inr chart'" and "pnl_minPnl chart' = Some lo" and "pnl_maxPnl chart' = Some hi"
    and "fl lo = lo" and "fl hi = hi"
  shows "\<exists>nvGroup' cg' defs. gradient_update fresh (Some nvGroup) (Some lo) (Some hi) cg = (Some nvGroup', cg', False)
    \<and> gp_defs nvGroup' = Some defs \<and> gr_parent (cg_linear cg') = Some defs \<and> gr_parent (cg_stroke cg') = Some defs
    \<and> (if lo = hi then stops (cg_linear cg') = stops (cg_linear cg) \<and> stops (cg_stroke cg') = stops (cg_stroke cg)
       else \<exists>zeroAt. 0 \<le> zeroAt \<and> zeroAt \<le> 100 \<and> \<bar>zeroAt - 100 * hi / (hi - lo)\<bar> \<le> 1 / 10 ^ 12
         \<and> stops (cg_linear cg') = [0, zeroAt, zeroAt, 100] \<and> stops (cg_stroke cg') = [0, zeroAt, zeroAt, 100])
    \<and> gradient_update fresh' (Some nvGroup') (Some lo) (Some hi) cg' = (Some nvGroup', cg', False)"
proof -
  have lohi: "lo \<le> 0" "0 \<le> hi"
    using pnl_chart_in_view [of chart positions] assms(1-3) by auto
  show ?thesis
  proof (cases "lo = hi")
    case True
    then have "lo = 0" "hi = 0" using lohi by simp_all
    then show ?thesis
      by (cases "gp_defs nvGroup")
        (simp_all add: gradient_update_def appendLinearGradients_def updateStops_def stops_def Let_def add_class_idem)
  next
    case False
    with lohi have "lo < hi" by simp
    note zero = zero_offset_close [OF lohi this assms(4,5)]
    have within: "0 \<le> zero_offset lo hi \<and> zero_offset lo hi \<le> 100" by (rule zero_offset_between [OF lohi zero(1) assms(5)])
    show ?thesis
      using False zero within
      by (cases "gp_defs nvGroup")
        (simp_all add: gradient_update_def appendLinearGradients_def updateStops_def set_stops_def stops_def Let_def add_class_idem)
  qed
qed

definition example_history :: "historic_position list" where
  "example_history = [\<lparr>hp_timestamp = None, hp_usdPnl = Some 30\<rparr>, \<lparr>hp_timestamp = None, hp_usdPnl = Some (- 10)\<rparr>]"

lemma gradient_follows_chart_witness:
  "\<exists>nvGroup' cg' zeroAt. gradient_update 0 (Some \<lparr>gp_defs = None, gp_area = Some [''nv-area''], gp_line = None\<rparr>) (Some (- 10)) (Some 30)
      createGradients = (Some nvGroup', cg', False)
    \<and> stops (cg_linear cg') = [0, zeroAt, zeroAt, 100] \<and> \<bar>zeroAt - 75\<bar> \<le> 1 / 10 ^ 12"
proof -
  obtain chart' where chart': "pnl_chart_update new_pnl_chart example_history = Inr chart'"
    "pnl_minPnl chart' = Some (- 10)" "pnl_maxPnl chart' = Some 30"
    using pnl_chart_in_view [of new_pnl_chart example_history]
    by (auto simp: example_history_def known_pnls_def)
  have "fl (- 10) = - 10" "fl 30 = 30" using fl_of_int [of "- 10"] fl_of_int [of 30] by simp_all
  from gradient_follows_chart [OF chart' this, of 0 "\<lparr>gp_defs = None, gp_area = Some [''nv-area''], gp_line = None\<rparr>" createGradients 1]
  show ?thesis by auto
qed

text \<open>When no pair has a profit or loss the pointers have no position.\<close>

lemma pointer_without_profits: "getRelativePointerPosition 0 0 = NaN"
  by (simp add: getRelativePointerPosition_def)

end
