(* ===== verification/BubbleChart.thy ===== *)
theory BubbleChart imports Analytics begin

text \<open>
  The chart of positions as React drives it: the component of \<open>positionsBubbleChart.js\<close> with \<open>chartUtil.js\<close>. Its
  events are its mounting, new properties, and the callbacks of the force layout and of its own timer. The state is
  React's state (the nodes, the positions they were made from, whether a drawing is due), the fields \<open>scales\<close>,
  \<open>force\<close> and \<open>tooltip\<close>, and what is in the \<open>svg\<close> element: one group per position, with or without its circle.

  Inside one event \<open>this.state\<close> is the state before it: \<open>setState\<close> takes effect when the event is over, and then
  \<open>componentDidUpdate\<close> runs. \<open>prevPositionsData\<close> starts as an object without a length, which is \<open>None\<close> here. The scales
  and the layout of \<open>d3\<close> are parameters; the horizontal scale is \<open>NaN\<close> throughout, because \<open>createScales\<close> reads a
  \<open>containerWidth\<close> that nobody passes.
  The visitor with which a tick of the layout keeps the circles apart (\<open>collide\<close>) is a function of its own, since the tree that
  calls it is d3's.
\<close>

section \<open>State\<close>

record chart_props =
  cpr_data :: "currency_pair_position list"
  cpr_width :: rat
  cpr_height :: rat

record scales =
  sc_x :: "nat \<Rightarrow> jsnum"
  sc_r :: "rat \<Rightarrow> rat"

text \<open>The square root scale of \<open>d3\<close>, from a domain to the radii between 15 and 60.\<close>

type_synonym d3_sqrt = "(rat \<times> rat) option \<Rightarrow> rat \<Rightarrow> rat"

definition createScales :: "d3_sqrt \<Rightarrow> chart_props \<Rightarrow> scales" where
  "createScales d3_sqrt props = \<lparr>sc_x = (\<lambda>index. NaN), sc_r = d3_sqrt (radius_domain (cpr_data props))\<rparr>"

text \<open>A circle is its radius and its fill.\<close>

type_synonym svg_group = "string \<times> (rat \<times> string) option"

record bubble_chart =
  bch_nodes :: "bubble list"
  bch_prevPositionsData :: "(string \<times> rat) list option"
  bch_updateRequired :: bool
  bch_scales :: "scales option"
  bch_force :: bool
  bch_tooltip :: bool
  bch_svg :: "svg_group list"

definition new_bubble_chart :: bubble_chart where
  "new_bubble_chart = \<lparr>bch_nodes = [], bch_prevPositionsData = None, bch_updateRequired = False, bch_scales = None,
     bch_force = False, bch_tooltip = False, bch_svg = []\<rparr>"

datatype chart_event =
    Mount chart_props
  | ReceiveProps chart_props
  | LayoutTick "string \<Rightarrow> (rat \<times> rat) option"
  | RestartTimer

datatype chart_call =
    StartForce
  | ScheduleRestart nat

section \<open>What has changed\<close>

text \<open>\<open>modifiedData\<close> holds the indices at which the new positions differ from the old ones.\<close>

definition modifiedData :: "(string \<times> rat) list option \<Rightarrow> (string \<times> rat) list \<Rightarrow> nat list" where
  "modifiedData existing positionsData =
     filter (\<lambda>key. case existing of None \<Rightarrow> True
       | Some old \<Rightarrow> \<not> (key < length old \<and> old ! key = positionsData ! key)) [0..<length positionsData]"

definition stalePositions :: "(string \<times> rat) list option \<Rightarrow> (string \<times> rat) list \<Rightarrow> (string \<times> rat) list" where
  "stalePositions existing positionsData =
     filter (\<lambda>(symbol, amount). find_index (\<lambda>(s, a). s = symbol) positionsData = None)
       (case existing of None \<Rightarrow> [] | Some old \<Rightarrow> old)"

definition shouldRedrawChart :: "(string \<times> rat) list option \<Rightarrow> (string \<times> rat) list \<Rightarrow> bool" where
  "shouldRedrawChart existing positionsData =
     (case existing of None \<Rightarrow> True | Some old \<Rightarrow> length positionsData \<noteq> length old)"

section \<open>Drawing\<close>

text \<open>\<open>_update\<close>: the groups are joined with the nodes by id. If no group that stays or enters has a circle, all of them
  get one; otherwise the circles there are drawn again.\<close>

definition circle_of :: "bubble list \<Rightarrow> string \<Rightarrow> (rat \<times> string) option" where
  "circle_of nodes i = map_option (\<lambda>n. (bub_r n, bub_color n)) (find (\<lambda>n. bub_id n = i) nodes)"

definition joined_groups :: "svg_group list \<Rightarrow> bubble list \<Rightarrow> svg_group list" where
  "joined_groups groups nodes =
     filter (\<lambda>(i, c). i \<in> set (map bub_id nodes)) groups
     @ map (\<lambda>n. (bub_id n, None)) (filter (\<lambda>n. bub_id n \<notin> set (map fst groups)) nodes)"

definition chart_draw :: "bubble list \<Rightarrow> bubble_chart \<Rightarrow> bubble_chart \<times> chart_call list" where
  "chart_draw nodes s =
     (if \<not> bch_force s \<or> \<not> bch_updateRequired s then (s, [])
      else
        let groups = joined_groups (bch_svg s) nodes
        in if list_all (\<lambda>(i, c). c = None) groups
           then (s\<lparr>bch_updateRequired := False, bch_svg := map (\<lambda>(i, c). (i, circle_of nodes i)) groups\<rparr>, [StartForce])
           else (s\<lparr>bch_updateRequired := False,
                   bch_svg := map (\<lambda>(i, c). (i, if c = None then None else circle_of nodes i)) groups\<rparr>, [ScheduleRestart 200]))"

text \<open>\<open>updateNodes\<close>: a node the layout has given no place stands at the origin.\<close>

definition updateNodes :: "(string \<Rightarrow> (rat \<times> rat) option) \<Rightarrow> svg_group list \<Rightarrow> bubble list \<Rightarrow> bubble list" where
  "updateNodes layout groups nodes =
     map (\<lambda>n. if bub_id n \<in> set (map fst groups)
               then n\<lparr>bub_position := Some (case layout (bub_id n) of Some p \<Rightarrow> p | None \<Rightarrow> (0, 0))\<rparr> else n) nodes"

definition drawLabels :: "bubble \<Rightarrow> (nat \<times> nat) \<times> string \<times> string" where
  "drawLabels d = ((0, 3), ''analytics__positions-label'', bub_id d)"

section \<open>Keeping the circles apart\<close>

text \<open>\<open>collide\<close>: what one visit of the quadtree does to the circle \<open>d\<close> and the circle of the quadrant, if it holds another one, and
  whether the quadrant's children are skipped. The tree is d3's, the square root the language's. A length of zero, with both
  differences zero, multiplies zero by an infinity.\<close>

record force_node =
  fn_x :: jsnum
  fn_y :: jsnum
  fn_r :: rat

fun js_arith :: "(rat \<Rightarrow> rat \<Rightarrow> rat) \<Rightarrow> jsnum \<Rightarrow> jsnum \<Rightarrow> jsnum" where
  "js_arith f (Num x) (Num y) = Num (fl (f x y))"
| "js_arith f x y = NaN"

definition padding :: rat where "padding = 10"

definition collide_bounds :: "force_node \<Rightarrow> (jsnum \<times> jsnum) \<times> (jsnum \<times> jsnum)" where
  "collide_bounds d =
     (let r = Num (fl (fl (fn_r d + 10) + padding))
      in ((js_arith (-) (fn_x d) r, js_arith (+) (fn_x d) r), (js_arith (-) (fn_y d) r, js_arith (+) (fn_y d) r)))"

definition push_apart :: "(rat \<Rightarrow> rat) \<Rightarrow> rat \<Rightarrow> force_node \<Rightarrow> force_node \<Rightarrow> force_node \<times> force_node" where
  "push_apart sqrt_of alpha d point =
     (let x = js_arith (-) (fn_x d) (fn_x point); y = js_arith (-) (fn_y d) (fn_y point);
          r = fl (fl (fn_r d + fn_r point) + padding)
      in case js_arith (+) (js_arith (*) x x) (js_arith (*) y y) of
           NaN \<Rightarrow> (d, point)
         | Num square \<Rightarrow>
             let l = sqrt_of square
             in if l < r
                then let scale = (if l = 0 then NaN else Num (fl (fl (fl (l - r) / l) * alpha)));
                         dx = js_arith (*) x scale; dy = js_arith (*) y scale
                     in (d\<lparr>fn_x := js_arith (-) (fn_x d) dx, fn_y := js_arith (-) (fn_y d) dy\<rparr>,
                         point\<lparr>fn_x := js_arith (+) (fn_x point) dx, fn_y := js_arith (+) (fn_y point) dy\<rparr>)
                else (d, point))"

definition collide_visit ::
    "(rat \<Rightarrow> rat) \<Rightarrow> rat \<Rightarrow> (jsnum \<times> jsnum) \<times> (jsnum \<times> jsnum) \<Rightarrow> force_node \<Rightarrow> force_node option \<Rightarrow> rat \<times> rat \<times> rat \<times> rat
     \<Rightarrow> (force_node \<times> force_node option) \<times> bool" where
  "collide_visit sqrt_of alpha bounds d point quadrant =
     (case (bounds, quadrant) of
        (((nx1, nx2), (ny1, ny2)), (x1, y1, x2, y2)) \<Rightarrow>
          (case point of
             None \<Rightarrow> (d, None)
           | Some p \<Rightarrow> let (d', p') = push_apart sqrt_of alpha d p in (d', Some p'),
           nx2 < Num x1 \<or> Num x2 < nx1 \<or> ny2 < Num y1 \<or> Num y2 < ny1))"

text \<open>Two circles in the same place are not moved apart: their places stop being numbers.\<close>

lemma coincident_circles_lost:
  assumes "fn_x d = Num x" "fn_y d = Num y" "fn_x p = Num x" "fn_y p = Num y" "sqrt_of 0 = 0" "0 < fl (fl (fn_r d + fn_r p) + padding)"
  shows "push_apart sqrt_of alpha d p = (d\<lparr>fn_x := NaN, fn_y := NaN\<rparr>, p\<lparr>fn_x := NaN, fn_y := NaN\<rparr>)"
proof -
  have "fl 0 = 0" by (simp add: fl_def)
  with assms show ?thesis by (simp add: push_apart_def Let_def)
qed

section \<open>The component\<close>

text \<open>\<open>_redrawChart\<close> with \<open>_createTooltip\<close> and \<open>_createChartForce\<close>: an empty \<open>svg\<close>, new scales and a new layout. The call
  of \<open>_update\<close> at its end still sees the flag of the state before the event.\<close>

definition redrawChart :: "d3_sqrt \<Rightarrow> chart_props \<Rightarrow> bubble list \<Rightarrow> bool \<Rightarrow> bubble_chart \<Rightarrow> bubble_chart \<times> chart_call list" where
  "redrawChart d3_sqrt props nodes wasRequired s =
     (let s' = s\<lparr>bch_scales := Some (createScales d3_sqrt props), bch_force := True, bch_tooltip := True, bch_svg := []\<rparr>;
          (s'', calls) = chart_draw nodes (s'\<lparr>bch_updateRequired := wasRequired\<rparr>)
      in (s''\<lparr>bch_updateRequired := \<not> wasRequired\<rparr>, calls))"

text \<open>\<open>_updateNodes\<close> as a change of the state.\<close>

definition set_nodes :: "scales \<Rightarrow> currency_pair_position list \<Rightarrow> bubble list \<Rightarrow> bubble_chart \<Rightarrow> bubble_chart" where
  "set_nodes sc data nodes s =
     s\<lparr>bch_nodes := updateBubbles (sc_x sc) (sc_r sc) nodes data,
       bch_prevPositionsData := Some (getPositionsDataFromSeries data), bch_updateRequired := True\<rparr>"

text \<open>\<open>_updateNodesFromPropsData\<close>. The comparison \<open>this.props.data > 0\<close> is of an array with a number and never holds, so that
  the nodes are made from the new properties in both branches.\<close>

definition updateNodesFromPropsData :: "d3_sqrt \<Rightarrow> chart_props \<Rightarrow> bubble_chart \<Rightarrow> bubble_chart" where
  "updateNodesFromPropsData d3_sqrt nextProps s =
     (let positionsData = getPositionsDataFromSeries (cpr_data nextProps);
          s1 = (case bch_scales s of
              Some sc \<Rightarrow> if bch_nodes s = [] \<and> cpr_data nextProps \<noteq> [] then set_nodes sc (cpr_data nextProps) (bch_nodes s) s else s
            | None \<Rightarrow> s)
      in if modifiedData (bch_prevPositionsData s) positionsData \<noteq> [] \<or> stalePositions (bch_prevPositionsData s) positionsData \<noteq> []
         then let sc = createScales d3_sqrt nextProps
              in set_nodes sc (cpr_data nextProps) (bch_nodes s) (s1\<lparr>bch_scales := Some sc\<rparr>)
         else s1)"

text \<open>React mounts a component once and sends it properties afterwards.\<close>

fun chart_step :: "d3_sqrt \<Rightarrow> (bubble_chart, chart_event, chart_call) handler" where
  "chart_step d3_sqrt s (Mount props) =
     (if bch_force s then (s, [])
      else
        let (s1, calls) = redrawChart d3_sqrt props (bch_nodes s) (bch_updateRequired s) s;
            (s2, calls') = chart_draw (bch_nodes s1) s1
        in (s2, calls @ calls'))"
| "chart_step d3_sqrt s (ReceiveProps nextProps) =
     (if \<not> bch_force s then (s, [])
      else
        let s1 = updateNodesFromPropsData d3_sqrt nextProps s;
            (s2, calls) = (if shouldRedrawChart (bch_prevPositionsData s) (getPositionsDataFromSeries (cpr_data nextProps))
              then redrawChart d3_sqrt nextProps (bch_nodes s) (bch_updateRequired s) s1 else (s1, []));
            (s3, calls') = chart_draw (bch_nodes s2) s2
        in (s3, calls @ calls'))"
| "chart_step d3_sqrt s (LayoutTick layout) =
     (if bch_force s then (s\<lparr>bch_nodes := updateNodes layout (bch_svg s) (bch_nodes s)\<rparr>, []) else (s, []))"
| "chart_step d3_sqrt s RestartTimer = (s, if bch_force s then [StartForce] else [])"

text \<open>The text of the tooltip over a circle; \<open>numeral\<close> is a parameter.\<close>

definition tooltip_text :: "(rat \<Rightarrow> string) \<Rightarrow> string \<Rightarrow> bubble_chart \<Rightarrow> string" where
  "tooltip_text fmt i s =
     i @ '' '' @ getPositionValue fmt i (case bch_prevPositionsData s of None \<Rightarrow> [] | Some ps \<Rightarrow> ps)"

section \<open>Lemmas\<close>

lemma radius_domain_cong:
  "getPositionsDataFromSeries d = getPositionsDataFromSeries d' \<Longrightarrow> radius_domain d = radius_domain d'"
  by (simp add: radius_domain_def)

lemma aggregated_distinct: "distinct (map fst (getPositionsDataFromSeries d))"
  using aggregate_ok [of "[]" d] by (simp add: getPositionsDataFromSeries_def obj_ok_def distinct_map_filter)

text \<open>Nothing modified and nothing stale means nothing changed.\<close>

lemma unchanged_positions:
  assumes "modifiedData (Some old) ps = []" "stalePositions (Some old) ps = []" "distinct (map fst old)"
  shows "ps = old"
proof -
  have prefix: "k < length old \<and> old ! k = ps ! k" if "k < length ps" for k
    using assms(1) that by (auto simp: modifiedData_def filter_empty_conv)
  then have le: "length ps \<le> length old"
    by (metis linorder_not_less nless_le)
  have "length old \<le> length ps"
  proof (rule ccontr)
    assume "\<not> length old \<le> length ps"
    then have k: "length ps < length old" by simp
    then have "old ! length ps \<in> set old" by simp
    with assms(2) have "\<exists>p \<in> set ps. fst p = fst (old ! length ps)"
      by (fastforce simp: stalePositions_def filter_empty_conv find_index_None_iff split_beta)
    then obtain i where i: "i < length ps" "fst (ps ! i) = fst (old ! length ps)"
      by (auto simp: in_set_conv_nth)
    with prefix [OF i(1)] have "map fst old ! i = map fst old ! length ps" "i < length old" using k by simp_all
    with assms(3) i(1) k show False using nth_eq_iff_index_eq [OF assms(3), of i "length ps"] by simp
  qed
  with le prefix show ?thesis by (intro nth_equalityI) auto
qed

lemma changed_from_nothing:
  "modifiedData None ps = [] \<Longrightarrow> ps = []" "stalePositions None ps = []"
  by (auto simp: modifiedData_def stalePositions_def filter_empty_conv)

text \<open>What the nodes say of the positions.\<close>

definition shows_position :: "d3_sqrt \<Rightarrow> currency_pair_position list \<Rightarrow> bubble \<Rightarrow> string \<times> rat \<Rightarrow> bool" where
  "shows_position d3_sqrt d n p \<longleftrightarrow> bub_id n = fst p \<and> bub_r n = d3_sqrt (radius_domain d) \<bar>snd p\<bar>
     \<and> bub_color n = (if snd p > 0 then ''#6db910'' else ''#d90a0a'')"

definition nodes_ok :: "d3_sqrt \<Rightarrow> currency_pair_position list \<Rightarrow> bubble list \<Rightarrow> bool" where
  "nodes_ok d3_sqrt d nodes \<longleftrightarrow> list_all2 (shows_position d3_sqrt d) nodes (getPositionsDataFromSeries d)"

lemma nodes_ok_ids: "nodes_ok d3_sqrt d nodes \<Longrightarrow> map bub_id nodes = map fst (getPositionsDataFromSeries d)"
  unfolding nodes_ok_def by (induction rule: list_all2_induct) (simp_all add: shows_position_def)

lemma nodes_ok_cong:
  assumes "getPositionsDataFromSeries d = getPositionsDataFromSeries d'"
  shows "nodes_ok d3_sqrt d nodes = nodes_ok d3_sqrt d' nodes"
proof -
  have "shows_position d3_sqrt d = shows_position d3_sqrt d'"
    by (intro ext) (simp only: shows_position_def radius_domain_cong [OF assms])
  then show ?thesis by (simp only: nodes_ok_def assms)
qed

lemma nodes_ok_made: "nodes_ok d3_sqrt (cpr_data p)
    (updateBubbles (sc_x (createScales d3_sqrt p)) (sc_r (createScales d3_sqrt p)) nodes (cpr_data p))"
  unfolding nodes_ok_def updateBubbles_map
proof (rule list_all2_all_nthI)
  fix i
  let ?ps = "getPositionsDataFromSeries (cpr_data p)"
  assume "i < length (map (\<lambda>(index, symbol, amount). updateBubble (sc_x (createScales d3_sqrt p))
      (sc_r (createScales d3_sqrt p)) nodes index symbol amount) (enumerate 0 ?ps))"
  then show "shows_position d3_sqrt (cpr_data p) (map (\<lambda>(index, symbol, amount). updateBubble (sc_x (createScales d3_sqrt p))
      (sc_r (createScales d3_sqrt p)) nodes index symbol amount) (enumerate 0 ?ps) ! i) (?ps ! i)"
    by (simp add: nth_enumerate_eq shows_position_def createScales_def split_beta)
qed simp

lemma nodes_ok_placed: "nodes_ok d3_sqrt d nodes \<Longrightarrow> nodes_ok d3_sqrt d (updateNodes layout groups nodes)"
  by (auto simp: nodes_ok_def updateNodes_def list_all2_conv_all_nth shows_position_def)

text \<open>What is drawn of the nodes: one group each, and a circle is the circle of its node.\<close>

definition drawn_ok :: "bubble list \<Rightarrow> svg_group list \<Rightarrow> bool" where
  "drawn_ok nodes groups \<longleftrightarrow> distinct (map fst groups) \<and> fst ` set groups = bub_id ` set nodes
     \<and> (\<forall>(i, c) \<in> set groups. c = None \<or> c = circle_of nodes i)"

lemma joined_ok:
  assumes "distinct (map fst groups)" "distinct (map bub_id nodes)"
  shows "distinct (map fst (joined_groups groups nodes))" "fst ` set (joined_groups groups nodes) = bub_id ` set nodes"
proof -
  have first: "(\<lambda>(i, c). i \<in> set (map bub_id nodes)) = (\<lambda>x :: svg_group. fst x \<in> set (map bub_id nodes))" by auto
  have ids: "map fst (joined_groups groups nodes) = filter (\<lambda>i. i \<in> set (map bub_id nodes)) (map fst groups)
      @ filter (\<lambda>i. i \<notin> set (map fst groups)) (map bub_id nodes)"
    unfolding joined_groups_def first by (simp add: filter_map comp_def)
  then show "distinct (map fst (joined_groups groups nodes))"
    using assms by auto
  have "fst ` set (joined_groups groups nodes) = set (map fst (joined_groups groups nodes))" by simp
  also have "\<dots> = set (map bub_id nodes)" unfolding ids by (simp only: set_append set_filter) blast
  finally show "fst ` set (joined_groups groups nodes) = bub_id ` set nodes" by simp
qed

lemma circle_of_placed [simp]: "circle_of (updateNodes layout groups nodes) i = circle_of nodes i"
  by (induction nodes) (auto simp: circle_of_def updateNodes_def)

lemma placed_ids [simp]: "map bub_id (updateNodes layout groups nodes) = map bub_id nodes"
  "bub_id ` set (updateNodes layout groups nodes) = bub_id ` set nodes"
proof -
  show ids: "map bub_id (updateNodes layout groups nodes) = map bub_id nodes" by (simp add: updateNodes_def)
  show "bub_id ` set (updateNodes layout groups nodes) = bub_id ` set nodes"
    using arg_cong [OF ids, of set] by simp
qed

lemma drawn_after:
  assumes "distinct (map fst (bch_svg s))" "distinct (map bub_id nodes)" "bch_force s" "bch_updateRequired s"
  shows "drawn_ok nodes (bch_svg (fst (chart_draw nodes s)))"
  using joined_ok [OF assms(1,2)] assms(3,4)
  by (auto simp: drawn_ok_def chart_draw_def Let_def comp_def split_beta image_image)

text \<open>The state between two events, with the positions it shows.\<close>

definition chart_ok :: "d3_sqrt \<Rightarrow> currency_pair_position list \<Rightarrow> bubble_chart \<Rightarrow> bool" where
  "chart_ok d3_sqrt d s \<longleftrightarrow> bch_force s \<and> \<not> bch_updateRequired s \<and> bch_scales s \<noteq> None
     \<and> nodes_ok d3_sqrt d (bch_nodes s) \<and> drawn_ok (bch_nodes s) (bch_svg s)
     \<and> (case bch_prevPositionsData s of None \<Rightarrow> getPositionsDataFromSeries d = [] | Some ps \<Rightarrow> ps = getPositionsDataFromSeries d)"

lemma chart_ok_mount:
  assumes "\<not> bch_force s" "bch_nodes s = []" "bch_prevPositionsData s = None" "\<not> bch_updateRequired s"
  shows "chart_ok d3_sqrt [] (fst (chart_step d3_sqrt s (Mount p)))"
  using assms
  by (simp add: redrawChart_def chart_draw_def Let_def joined_groups_def chart_ok_def nodes_ok_def drawn_ok_def
      getPositionsDataFromSeries_def split_beta)

lemma updated_nodes:
  assumes "chart_ok d3_sqrt d s" "s1 = updateNodesFromPropsData d3_sqrt p s"
  shows "nodes_ok d3_sqrt (cpr_data p) (bch_nodes s1)" "bch_force s1" "bch_scales s1 \<noteq> None" "bch_svg s1 = bch_svg s"
    "case bch_prevPositionsData s1 of None \<Rightarrow> getPositionsDataFromSeries (cpr_data p) = []
      | Some ps \<Rightarrow> ps = getPositionsDataFromSeries (cpr_data p)"
    "bch_updateRequired s1 \<or> bch_nodes s1 = bch_nodes s"
proof -
  let ?ps = "getPositionsDataFromSeries (cpr_data p)"
  obtain sc where sc: "bch_scales s = Some sc" using assms(1) by (auto simp: chart_ok_def)
  consider "modifiedData (bch_prevPositionsData s) ?ps \<noteq> [] \<or> stalePositions (bch_prevPositionsData s) ?ps \<noteq> []"
    | "modifiedData (bch_prevPositionsData s) ?ps = []" "stalePositions (bch_prevPositionsData s) ?ps = []"
      "?ps = getPositionsDataFromSeries d"
  proof (cases "bch_prevPositionsData s")
    case None
    then show ?thesis using that assms(1) changed_from_nothing by (fastforce simp: chart_ok_def)
  next
    case (Some old)
    then have "old = getPositionsDataFromSeries d" using assms(1) by (simp add: chart_ok_def)
    then show ?thesis using that Some unchanged_positions [of old ?ps] aggregated_distinct [of d] by metis
  qed
  then have "nodes_ok d3_sqrt (cpr_data p) (bch_nodes s1) \<and> bch_force s1 \<and> bch_scales s1 \<noteq> None \<and> bch_svg s1 = bch_svg s
      \<and> (case bch_prevPositionsData s1 of None \<Rightarrow> ?ps = [] | Some ps \<Rightarrow> ps = ?ps) \<and> (bch_updateRequired s1 \<or> bch_nodes s1 = bch_nodes s)"
  proof cases
    case 1
    with sc assms nodes_ok_made show ?thesis
      by (auto simp: updateNodesFromPropsData_def set_nodes_def Let_def chart_ok_def)
  next
    case 2
    have old: "nodes_ok d3_sqrt (cpr_data p) (bch_nodes s)"
      using assms(1) nodes_ok_cong [OF 2(3)] by (simp add: chart_ok_def)
    show ?thesis
    proof (cases "bch_nodes s = [] \<and> cpr_data p \<noteq> []")
      case True
      then have "?ps = []" using nodes_ok_ids [OF old] by simp
      moreover from this have "updateBubbles x r ns (cpr_data p) = []" for x r ns by (simp add: updateBubbles_map)
      ultimately show ?thesis
        using 2(1,2) True sc assms by (auto simp: updateNodesFromPropsData_def set_nodes_def chart_ok_def nodes_ok_def)
    next
      case False
      then have "s1 = s" using 2(1,2) sc assms(2) by (auto simp: updateNodesFromPropsData_def)
      with old assms(1) 2(3) show ?thesis by (auto simp: chart_ok_def split: option.splits)
    qed
  qed
  then show "nodes_ok d3_sqrt (cpr_data p) (bch_nodes s1)" "bch_force s1" "bch_scales s1 \<noteq> None" "bch_svg s1 = bch_svg s"
    "case bch_prevPositionsData s1 of None \<Rightarrow> ?ps = [] | Some ps \<Rightarrow> ps = ?ps"
    "bch_updateRequired s1 \<or> bch_nodes s1 = bch_nodes s" by blast+
qed

lemma chart_ok_receive:
  assumes "chart_ok d3_sqrt d s"
  shows "chart_ok d3_sqrt (cpr_data p) (fst (chart_step d3_sqrt s (ReceiveProps p)))"
proof -
  define s1 where "s1 = updateNodesFromPropsData d3_sqrt p s"
  note u = updated_nodes [OF assms s1_def]
  have s: "bch_force s" "\<not> bch_updateRequired s" "drawn_ok (bch_nodes s) (bch_svg s)" using assms by (simp_all add: chart_ok_def)
  have distinct: "distinct (map bub_id (bch_nodes s1))" using nodes_ok_ids [OF u(1)] aggregated_distinct by simp
  let ?redraw = "shouldRedrawChart (bch_prevPositionsData s) (getPositionsDataFromSeries (cpr_data p))"
  define s2 where "s2 = (if ?redraw then s1\<lparr>bch_scales := Some (createScales d3_sqrt p), bch_force := True, bch_tooltip := True,
      bch_svg := [], bch_updateRequired := True\<rparr> else s1)"
  have step: "fst (chart_step d3_sqrt s (ReceiveProps p)) = fst (chart_draw (bch_nodes s2) s2)"
    using s(1,2) by (simp add: s2_def s1_def redrawChart_def chart_draw_def Let_def split_beta)
  have s2: "bch_nodes s2 = bch_nodes s1" "bch_force s2" "bch_scales s2 \<noteq> None" "distinct (map fst (bch_svg s2))"
    "bch_prevPositionsData s2 = bch_prevPositionsData s1"
    using u s(3) by (auto simp: s2_def drawn_ok_def)
  have draw: "bch_nodes (fst (chart_draw (bch_nodes s2) s2)) = bch_nodes s2" "bch_force (fst (chart_draw (bch_nodes s2) s2))"
    "\<not> bch_updateRequired (fst (chart_draw (bch_nodes s2) s2))" "bch_scales (fst (chart_draw (bch_nodes s2) s2)) = bch_scales s2"
    "bch_prevPositionsData (fst (chart_draw (bch_nodes s2) s2)) = bch_prevPositionsData s2"
    using s2(2) by (simp_all add: chart_draw_def Let_def)
  have "drawn_ok (bch_nodes s2) (bch_svg (fst (chart_draw (bch_nodes s2) s2)))"
  proof (cases "bch_updateRequired s2")
    case True
    with drawn_after [OF s2(4) _ s2(2)] distinct s2(1) show ?thesis by simp
  next
    case False
    then have "s2 = s1" "bch_nodes s1 = bch_nodes s" using u(6) by (auto simp: s2_def split: if_splits)
    with False s(3) u(4) show ?thesis by (simp add: chart_draw_def)
  qed
  with draw s2 u show ?thesis unfolding step chart_ok_def by simp
qed

lemma chart_ok_other:
  "chart_ok d3_sqrt d s \<Longrightarrow> chart_ok d3_sqrt d (fst (chart_step d3_sqrt s (LayoutTick layout)))"
  "chart_ok d3_sqrt d s \<Longrightarrow> chart_ok d3_sqrt d (fst (chart_step d3_sqrt s RestartTimer))"
  "chart_ok d3_sqrt d s \<Longrightarrow> fst (chart_step d3_sqrt s (Mount p)) = s"
  by (auto simp: chart_ok_def nodes_ok_placed drawn_ok_def)

lemma chart_ok_run:
  assumes "chart_ok d3_sqrt d s"
  shows "\<exists>d'. chart_ok d3_sqrt d' (final_state (chart_step d3_sqrt) s evs)"
    and "\<forall>ev \<in> set evs. \<forall>p. ev \<noteq> ReceiveProps p \<Longrightarrow> chart_ok d3_sqrt d (final_state (chart_step d3_sqrt) s evs)"
proof -
  show "\<exists>d'. chart_ok d3_sqrt d' (final_state (chart_step d3_sqrt) s evs)"
    using assms
  proof (induction evs arbitrary: d s)
    case (Cons ev evs)
    have "\<exists>d'. chart_ok d3_sqrt d' (fst (chart_step d3_sqrt s ev))"
      using Cons.prems chart_ok_receive chart_ok_other by (cases ev) metis+
    then show ?case using Cons.IH by (auto simp del: chart_step.simps)
  qed auto
  show "chart_ok d3_sqrt d (final_state (chart_step d3_sqrt) s evs)" if "\<forall>ev \<in> set evs. \<forall>p. ev \<noteq> ReceiveProps p"
    using assms that
  proof (induction evs arbitrary: s)
    case (Cons ev evs)
    have "chart_ok d3_sqrt d (fst (chart_step d3_sqrt s ev))"
      using Cons.prems chart_ok_other by (cases ev) (metis list.set_intros(1))+
    with Cons show ?case by (simp del: chart_step.simps)
  qed simp
qed

lemma chart_ok_mounted: "chart_ok d3_sqrt [] (fst (chart_step d3_sqrt new_bubble_chart (Mount p)))"
  by (rule chart_ok_mount) (simp_all add: new_bubble_chart_def)

section \<open>Properties\<close>

text \<open>C31: once the positions chart has been mounted, and whatever properties and layout callbacks it has got since, what it
  shows follows the last properties: there is one group for every base currency whose amounts, added as doubles in their
  order, do not come to zero and for no other, and each circle drawn is sized by that sum, on the scale of the current
  amounts, and coloured by its sign. For whole amounts of up to 53 bits together the sum is the exact net amount;
  decimals can leave a currency that nets to zero with a group.\<close>

theorem chart_follows_positions:
  assumes "double_amounts (cpr_data p)" "\<forall>ev \<in> set after. \<forall>q. ev \<noteq> ReceiveProps q"
    and "s = final_state (chart_step d3_sqrt) new_bubble_chart (Mount p0 # before @ ReceiveProps p # after)"
  shows "distinct (map fst (bch_svg s)) \<and> fst ` set (bch_svg s) = {c. summed_amount c (cpr_data p) \<noteq> 0}
    \<and> (\<forall>c radius fill. (c, Some (radius, fill)) \<in> set (bch_svg s) \<longrightarrow>
         radius = d3_sqrt (radius_domain (cpr_data p)) \<bar>summed_amount c (cpr_data p)\<bar>
       \<and> fill = (if summed_amount c (cpr_data p) > 0 then ''#6db910'' else ''#d90a0a''))
    \<and> (whole_amounts (cpr_data p) \<longrightarrow> (\<forall>c. summed_amount c (cpr_data p) = net_amount c (cpr_data p)))"
proof -
  let ?step = "chart_step d3_sqrt"
  obtain d where "chart_ok d3_sqrt d (final_state ?step (fst (?step new_bubble_chart (Mount p0))) before)"
    using chart_ok_run(1) [OF chart_ok_mounted] by blast
  from chart_ok_run(2) [OF chart_ok_receive [OF this] assms(2), of p]
  have ok: "chart_ok d3_sqrt (cpr_data p) s" unfolding assms(3) by (simp add: run_append del: chart_step.simps)
  note net = positions_sum [OF assms(1)]
  have nodes: "nodes_ok d3_sqrt (cpr_data p) (bch_nodes s)" and drawn: "drawn_ok (bch_nodes s) (bch_svg s)"
    using ok by (simp_all add: chart_ok_def)
  have "bub_id ` set (bch_nodes s) = fst ` set (getPositionsDataFromSeries (cpr_data p))"
    using nodes_ok_ids [OF nodes] by (metis set_map)
  also have "\<dots> = {c. summed_amount c (cpr_data p) \<noteq> 0}" using net(2) by force
  finally have ids: "fst ` set (bch_svg s) = {c. summed_amount c (cpr_data p) \<noteq> 0}"
    using drawn by (simp add: drawn_ok_def)
  have "radius = d3_sqrt (radius_domain (cpr_data p)) \<bar>summed_amount c (cpr_data p)\<bar>
      \<and> fill = (if summed_amount c (cpr_data p) > 0 then ''#6db910'' else ''#d90a0a'')"
    if "(c, Some (radius, fill)) \<in> set (bch_svg s)" for c radius fill
  proof -
    from drawn that have "circle_of (bch_nodes s) c = Some (radius, fill)" by (fastforce simp: drawn_ok_def)
    then obtain n where n: "n \<in> set (bch_nodes s)" "bub_id n = c" "radius = bub_r n" "fill = bub_color n"
      by (auto simp: circle_of_def find_Some_iff) (metis nth_mem)
    then obtain i where i: "i < length (bch_nodes s)" "n = bch_nodes s ! i" by (metis in_set_conv_nth)
    define q where "q = getPositionsDataFromSeries (cpr_data p) ! i"
    have "q \<in> set (getPositionsDataFromSeries (cpr_data p))" "shows_position d3_sqrt (cpr_data p) n q"
      using nodes i by (simp_all add: nodes_ok_def list_all2_conv_all_nth q_def)
    with n net(2) [of "fst q" "snd q"] show ?thesis by (simp add: shows_position_def)
  qed
  with drawn ids show ?thesis by (simp add: drawn_ok_def summed_amount_whole)
qed

definition example_props :: "currency_pair_position list \<Rightarrow> chart_props" where
  "example_props d = \<lparr>cpr_data = d, cpr_width = 400, cpr_height = 200\<rparr>"

lemma example_sums:
  "double_amounts example_series" "{c. summed_amount c example_series \<noteq> 0} = {''EUR'', ''GBP''}"
proof -
  have whole: "whole_amounts example_series"
    by (auto simp: whole_amounts_def example_series_def example_position_def)
  then show "double_amounts example_series" by (rule whole_amounts_double)
  show "{c. summed_amount c example_series \<noteq> 0} = {''EUR'', ''GBP''}" unfolding summed_amount_whole [OF whole]
    by (auto simp: net_amount_def example_series_def example_position_def new_currency_pair_def js_substr_def Let_def)
qed

lemma chart_follows_positions_witness:
  "fst ` set (bch_svg (final_state (chart_step (\<lambda>d x. x)) new_bubble_chart
     [Mount (example_props []), ReceiveProps (example_props example_series), LayoutTick (\<lambda>i. None), RestartTimer])) = {''EUR'', ''GBP''}"
  using chart_follows_positions [of "example_props example_series" "[LayoutTick (\<lambda>i. None), RestartTimer]" _ "\<lambda>d x. x"
      "example_props []" "[]", OF _ _ refl] example_sums
  by (simp add: example_props_def del: chart_step.simps)

text \<open>C33: when the positions change but not their number, a currency that comes in for one that nets out is not drawn as
  long as another circle stays: its group stays empty, without circle and label.\<close>

theorem replaced_currency_has_no_circle:
  assumes "s = final_state (chart_step d3_sqrt) new_bubble_chart (Mount p0 # before)"
    and "(kept, Some circle) \<in> set (bch_svg s)" "bch_prevPositionsData s = Some old"
    and "new = getPositionsDataFromSeries (cpr_data p)" "length new = length old"
    and "kept \<in> fst ` set new" "c \<in> fst ` set new" "c \<notin> fst ` set old"
  shows "(c, None) \<in> set (bch_svg (fst (chart_step d3_sqrt s (ReceiveProps p))))"
proof -
  obtain d where ok: "chart_ok d3_sqrt d s"
    using chart_ok_run(1) [OF chart_ok_mounted] assms(1) by (metis run_Cons(1))
  define s1 where "s1 = updateNodesFromPropsData d3_sqrt p s"
  note u = updated_nodes [OF ok s1_def]
  have s: "bch_force s" "\<not> bch_updateRequired s" "drawn_ok (bch_nodes s) (bch_svg s)" "nodes_ok d3_sqrt d (bch_nodes s)"
    "old = getPositionsDataFromSeries d"
    using ok assms(3) by (simp_all add: chart_ok_def)
  have ids: "bub_id ` set (bch_nodes s1) = fst ` set new" "bub_id ` set (bch_nodes s) = fst ` set old"
    using nodes_ok_ids [OF u(1)] nodes_ok_ids [OF s(4)] assms(4) s(5) by (metis set_map)+
  then have "bch_nodes s1 \<noteq> bch_nodes s" using assms(7,8) by metis
  then have required: "bch_updateRequired s1" using u(6) by blast
  have step: "fst (chart_step d3_sqrt s (ReceiveProps p)) = fst (chart_draw (bch_nodes s1) s1)"
    using s(1) assms(3-5) by (simp add: s1_def shouldRedrawChart_def Let_def split_beta)
  let ?groups = "joined_groups (bch_svg s) (bch_nodes s1)"
  have "kept \<in> bub_id ` set (bch_nodes s1)" using assms(6) ids(1) by simp
  then have "(kept, Some circle) \<in> set ?groups" using assms(2) by (simp add: joined_groups_def)
  then have some: "\<not> list_all (\<lambda>(i, c). c = None) ?groups" by (auto simp: list_all_iff)
  have "c \<notin> fst ` set (bch_svg s)" using s(3) ids(2) assms(8) by (simp add: drawn_ok_def)
  moreover from assms(7) ids(1) obtain n where "n \<in> set (bch_nodes s1)" "bub_id n = c" by force
  ultimately have "(c, None) \<in> set ?groups" by (auto simp: joined_groups_def)
  then show ?thesis
    using some required u(2,4) unfolding step by (force simp: chart_draw_def Let_def)
qed

lemma replaced_currency_has_no_circle_witness:
  "(''JPY'', None) \<in> set (bch_svg (final_state (chart_step (\<lambda>d x. x)) new_bubble_chart
     [Mount (example_props []), ReceiveProps (example_props [example_position ''EURUSD'' 5, example_position ''GBPUSD'' (- 2)]),
      ReceiveProps (example_props [example_position ''EURUSD'' 5, example_position ''JPYUSD'' 7])]))"
proof -
  let ?before = "[ReceiveProps (example_props [example_position ''EURUSD'' 5, example_position ''GBPUSD'' (- 2)])]"
  let ?p = "example_props [example_position ''EURUSD'' 5, example_position ''JPYUSD'' 7]"
  let ?s = "final_state (chart_step (\<lambda>d x. x)) new_bubble_chart (Mount (example_props []) # ?before)"
  have positions: "getPositionsDataFromSeries [example_position ''EURUSD'' 5, example_position ''GBPUSD'' (- 2)] = [(''EUR'', 5), (''GBP'', - 2)]"
    "getPositionsDataFromSeries [example_position ''EURUSD'' 5, example_position ''JPYUSD'' 7] = [(''EUR'', 5), (''JPY'', 7)]"
    by (simp_all add: getPositionsDataFromSeries_def aggregatePosition_def example_position_def new_currency_pair_def js_substr_def Let_def)
  have "(''EUR'', Some (5, ''#6db910'')) \<in> set (bch_svg ?s)" "bch_prevPositionsData ?s = Some [(''EUR'', 5), (''GBP'', - 2)]"
    by (simp_all add: example_props_def positions new_bubble_chart_def redrawChart_def chart_draw_def joined_groups_def circle_of_def
        updateNodesFromPropsData_def set_nodes_def modifiedData_def createScales_def updateBubbles_map updateBubble_def getRadius_def
        shouldRedrawChart_def getPositionsDataFromSeries_def [of "[]"] Let_def)
  from replaced_currency_has_no_circle [OF refl this refl, of ?p "''JPY''"] show ?thesis
    by (simp add: example_props_def positions del: chart_step.simps)
qed

end
