(* ===== verification/AppStart.thy ===== *)
theory AppStart imports Runtime Domain begin

text \<open>
  The pieces that start the application and tie it together: the user of the session
  (\<open>fakeUserRepository.js\<close>, \<open>user.js\<close>), the identifiers of the models (\<open>wellKnownModelIds.js\<close>), the browser check
  (\<open>environment.js\<close>), the bridge from a stream to the router (\<open>subscribeWithRouter.js\<close>) and the proxy of the autobahn
  connection (\<open>autobahnConnectionProxy.js\<close>), and the order in which \<open>appBootstrapper.js\<close> starts it all. The router, autobahn, the user agent parser and the random choice are the
  outside.
\<close>

section \<open>The user of the session\<close>

record user =
  us_firstName :: string
  us_lastName :: string
  us_code :: string

text \<open>The made up users: code, first name, last name.\<close>

definition fakeUserDetails :: "(string \<times> string \<times> string) list" where
  "fakeUserDetails =
     [(''LMO'', ''Lorretta'', ''Moe''), (''WMO'', ''Wenona'', ''Moshier''), (''NGA'', ''Nita'', ''Garica''),
      (''HHA'', ''Hyun'', ''Havlik''), (''EDO'', ''Elizebeth'', ''Doverspike''), (''MDA'', ''Magali'', ''Dash''),
      (''DGR'', ''Dorinda'', ''Granillo''), (''JMC'', ''Jade'', ''Mccollister''), (''MPE'', ''Michiko'', ''Perl''),
      (''CZA'', ''Chanda'', ''Zager''), (''JED'', ''Jarrett'', ''Eddings''), (''HLU'', ''Harley'', ''Luther''),
      (''DOR'', ''Dong'', ''Ortega''), (''KLA'', ''King'', ''Lamb''), (''AZE'', ''Andres'', ''Zebrowski''),
      (''RNI'', ''Rufus'', ''Nilges''), (''FAP'', ''Fritz'', ''Aparicio''), (''DNA'', ''Don'', ''Nason''),
      (''ESP'', ''Eldridge'', ''Spoor''), (''AGE'', ''Ambrose'', ''Gerdts'')]"

definition currentUser :: "((string \<times> string \<times> string) list \<Rightarrow> string \<times> string \<times> string) \<Rightarrow> user" where
  "currentUser sample =
     (case sample fakeUserDetails of
        (code, firstName, lastName) \<Rightarrow> \<lparr>us_firstName = firstName, us_lastName = lastName, us_code = code\<rparr>)"

section \<open>Models and the router\<close>

definition WellKnownModelIds :: "string list" where
  "WellKnownModelIds =
     [''workspaceRegionModelId'', ''popoutRegionModelId'', ''sidebarRegionModelId'', ''blotterRegionModelId'',
      ''shellModelId'', ''footerModelId'', ''analyticsModelId'', ''blotterModelId'', ''chromeModelId'', ''sidebarModelId'']"

text \<open>\<open>ModelBase\<close> checks its arguments.\<close>

datatype router_call =
    AddModel string
  | ObserveEventsOn string
  | RemoveModel string
  | StopObserving string

definition new_model_base :: "js_value \<Rightarrow> js_value \<Rightarrow> checked" where
  "new_model_base modelId router =
     bind_result (Guard_isString modelId (JString ''modelId required and must be a string'')) (\<lambda>u.
       Guard_isDefined router (JString ''router required''))"

text \<open>The calls made, and the disposables handed over, which undo them.\<close>

definition observeEvents :: "string \<Rightarrow> router_call list \<times> router_call list" where
  "observeEvents modelId =
     ([AddModel modelId, ObserveEventsOn modelId], [RemoveModel modelId, StopObserving modelId])"

text \<open>What a materialized stream asks of the router. A handler that was not given skips its message, except an
  error without handler, which is thrown.\<close>

datatype 'a stream_message = NextMessage 'a | ErrorMessage js_error | CompletedMessage

datatype 'a router_action = RunOnNext 'a | RunOnError js_error | RunOnCompleted

definition subscribeWithRouter :: "bool \<Rightarrow> bool \<Rightarrow> bool \<Rightarrow> 'a stream_message \<Rightarrow> 'a router_action list result" where
  "subscribeWithRouter hasOnNext hasOnError hasOnCompleted message =
     (case message of
        NextMessage v \<Rightarrow> Inr (if hasOnNext then [RunOnNext v] else [])
      | ErrorMessage e \<Rightarrow> if hasOnError then Inr [RunOnError e] else Inl e
      | CompletedMessage \<Rightarrow> Inr (if hasOnCompleted then [RunOnCompleted] else []))"

text \<open>Whether the browser is Internet Explorer, asked of the parser once.\<close>

fun contains_text :: "string \<Rightarrow> string \<Rightarrow> bool" where
  "contains_text pat [] = (pat = [])"
| "contains_text pat (c # cs) = (take (length pat) (c # cs) = pat \<or> contains_text pat cs)"

definition isRunningInIE :: "string \<Rightarrow> bool option \<Rightarrow> bool option \<times> bool" where
  "isRunningInIE browser cached =
     (case cached of
        Some b \<Rightarrow> (cached, b)
      | None \<Rightarrow> let b = contains_text ''IE'' browser in (Some b, b))"

section \<open>The autobahn connection\<close>

record transport =
  tp_type :: string
  tp_url :: string

definition autobahn_transports :: "string \<Rightarrow> string \<Rightarrow> transport list" where
  "autobahn_transports protocol url =
     (let useSecure = (protocol = ''https:'')
      in [\<lparr>tp_type = ''websocket'',
           tp_url = (if useSecure then ''wss://'' @ url @ '':8000/ws'' else ''ws://'' @ url @ '':8080/ws'')\<rparr>,
          \<lparr>tp_type = ''longpoll'',
           tp_url = (if useSecure then ''https://'' @ url @ '':8000/lp'' else ''http://'' @ url @ '':8080/lp'')\<rparr>])"

text \<open>The proxy hears autobahn once it was opened, and passes on what it hears if there is a callback.\<close>

record autobahn_proxy =
  ap_listening :: bool
  ap_hasOnopen :: bool
  ap_hasOnclose :: bool
  ap_session :: "nat option"

datatype autobahn_event = ProxyOpen | ProxyClose | ProxyOnopen | ProxyOnclose | AutobahnOpened nat | AutobahnClosed string

datatype autobahn_call = OpenAutobahn | CloseAutobahn | CallOnopen nat | CallOnclose string

fun autobahn_step :: "(autobahn_proxy, autobahn_event, autobahn_call) handler" where
  "autobahn_step p ProxyOpen = (p\<lparr>ap_listening := True\<rparr>, [OpenAutobahn])"
| "autobahn_step p ProxyClose = (p, [CloseAutobahn])"
| "autobahn_step p ProxyOnopen = (p\<lparr>ap_hasOnopen := True\<rparr>, [])"
| "autobahn_step p ProxyOnclose = (p\<lparr>ap_hasOnclose := True\<rparr>, [])"
| "autobahn_step p (AutobahnOpened s) =
     (if \<not> ap_listening p then (p, [])
      else (p\<lparr>ap_session := Some s\<rparr>, if ap_hasOnopen p then [CallOnopen s] else []))"
| "autobahn_step p (AutobahnClosed reason) =
     (p, if ap_listening p \<and> ap_hasOnclose p then [CallOnclose reason] else [])"

section \<open>The bootstrapper\<close>

text \<open>\<open>appBootstrapper.js\<close>: the order in which the pieces are made, connected and shown. A constructor that only keeps its
  arguments makes no call.\<close>

datatype boot_call =
    MakeConnection string string string
  | ConnectService string
  | StartCompositeStatus
  | LoadReferenceData
  | OpenConnection
  | ObserveModel string
  | MakeRegionManager "string list" bool
  | BeginLoadTiles
  | SubscribeHasLoaded
  | BroadcastInit
  | WaitForContainer
  | RenderModel string

definition endpointURL :: "bool \<Rightarrow> string \<Rightarrow> string \<Rightarrow> string" where
  "endpointURL overwriteServerEndpoint serverEndPointUrl hostname =
     (if overwriteServerEndpoint then serverEndPointUrl else hostname)"

definition startServices :: "user \<Rightarrow> string \<Rightarrow> boot_call list" where
  "startServices u url =
     [MakeConnection (us_code u) url ''com.weareadaptive.reactivetrader'',
      ConnectService PricingServiceKey, ConnectService BlotterServiceKey, ConnectService ExecutionServiceKey,
      ConnectService AnalyticsServiceKey, StartCompositeStatus, ConnectService ReferenceServiceKey, LoadReferenceData, OpenConnection]"

text \<open>In the container the broadcast waits for the container to be ready.\<close>

definition startModels :: "bool \<Rightarrow> boot_call list" where
  "startModels isRunningInOpenFin =
     [ObserveModel ''workspaceRegionModelId'', ObserveModel ''popoutRegionModelId'', ObserveModel ''blotterRegionModelId'',
      ObserveModel ''sidebarRegionModelId'',
      MakeRegionManager [''workspace'', ''popout'', ''blotter'', ''sidebar''] isRunningInOpenFin,
      ObserveModel ''chromeModelId'', BeginLoadTiles, ObserveModel ''blotterModelId'', ObserveModel ''analyticsModelId'',
      ObserveModel ''footerModelId'', ObserveModel ''shellModelId'', SubscribeHasLoaded,
      (if isRunningInOpenFin then WaitForContainer else BroadcastInit)]"

definition containerReady :: "boot_call list" where "containerReady = [BroadcastInit]"

definition displayUi :: "boot_call list" where "displayUi = [RenderModel ''shellModelId'']"

text \<open>Only the root page runs it; a popout's page has a path or a hash.\<close>

definition boot :: "string \<Rightarrow> string \<Rightarrow> user \<Rightarrow> string \<Rightarrow> bool \<Rightarrow> boot_call list" where
  "boot pathname hash u url isRunningInOpenFin =
     (if pathname = ''/'' \<and> length hash = 0 then startServices u url @ startModels isRunningInOpenFin @ displayUi else [])"

text \<open>What broadcasting an event to the models reaches: the router's models at that time.\<close>

definition models_at_init :: "boot_call list \<Rightarrow> string list" where
  "models_at_init calls =
     List.map_filter (\<lambda>c. case c of ObserveModel m \<Rightarrow> Some m | _ \<Rightarrow> None) (takeWhile (\<lambda>c. c \<noteq> BroadcastInit) calls)"

section \<open>Lemmas\<close>

lemma model_ids_distinct: "distinct WellKnownModelIds"
  by (simp add: WellKnownModelIds_def)

text \<open>Every model the bootstrapper makes sees the one \<open>init\<close>, in the container or not, and is one of the well known; the sidebar
  has an identifier but no model. Services are connected before the connection opens.\<close>

lemma init_reaches_all:
  assumes "calls = boot ''/'' [] u url isRunningInOpenFin @ (if isRunningInOpenFin then containerReady else [])"
  shows "set (models_at_init calls) = set WellKnownModelIds - {''sidebarModelId''}"
    and "count_list calls BroadcastInit = 1"
    and "set (dropWhile (\<lambda>c. c \<noteq> OpenConnection) calls) \<inter> range ConnectService = {}"
  by (auto simp: assms boot_def startServices_def startModels_def displayUi_def containerReady_def models_at_init_def
      WellKnownModelIds_def map_filter_def)

end
