(* ===== verification/Screens.thy ===== *)
theory Screens imports TradeFlow StatusBar Regions Blotter Charts AppStart begin

text \<open>
  What the React views render: the blotter (\<open>blotterView.jsx\<close>, \<open>notionalCell.jsx\<close>, \<open>dateCell.jsx\<close>), the spot tile
  (\<open>spotTileView.jsx\<close>, \<open>priceButton.jsx\<close>, \<open>priceMovementIndicator.jsx\<close>, \<open>notionalInput.jsx\<close>,
  \<open>tradeNotification.jsx\<close>), the pop-up of a trade (\<open>tradeNotificationView.jsx\<close>), the analytics panel
  (\<open>analyticsView.jsx\<close>, \<open>analyticsBarChart.jsx\<close>, \<open>pnlBar.jsx\<close>), the regions (\<open>ui/regions/views\<close>), the footer
  (\<open>footerView.jsx\<close>, \<open>statusIndicator.jsx\<close>), the shell with its dialog (\<open>shellView.jsx\<close>, \<open>modal.jsx\<close>) and the
  chrome of the window (\<open>chrome.jsx\<close>, \<open>openFinChrome.jsx\<close>, \<open>browserChrome.jsx\<close>).

  A view is a function from the model to the element it returns. An element keeps its class list as the
  arguments of \<open>classnames\<close> and its handlers as what they do when they are called. React, \<open>SmartComponent\<close>, the
  table and the charts of the packages are outside: a component of theirs is a leaf with its properties. A view that
  reads a field of \<open>undefined\<close> gives the error instead of an element.
\<close>

section \<open>Elements\<close>

text \<open>What a handler does: publish an event to a model without arguments, call \<open>_onExecuteTrade\<close>, hand the input
  event to the notional field, open a link, or call the property \<open>dismissNotification\<close>.\<close>

datatype ui_action =
    PublishEvent string string
  | TradeOn direction
  | FieldInput string
  | FollowLink string
  | DismissPopup

datatype html =
    Txt string
  | Elem string class_list "(string \<times> string) list" "(string \<times> ui_action) list" "html list"
  | Smart string string "string option" class_list "html list"
  | Component string "(string \<times> string) list"

definition plain :: "string \<Rightarrow> class_list" where "plain c = [(c, True)]"

abbreviation elem :: "string \<Rightarrow> string \<Rightarrow> html list \<Rightarrow> html" where
  "elem tag c kids \<equiv> Elem tag (plain c) [] [] kids"

abbreviation clickable :: "string \<Rightarrow> class_list \<Rightarrow> ui_action \<Rightarrow> html list \<Rightarrow> html" where
  "clickable tag cs action kids \<equiv> Elem tag cs [] [(''onClick'', action)] kids"

text \<open>What can be done to an element, what it says, and the models it shows.\<close>

fun actions :: "html \<Rightarrow> ui_action list" where
  "actions (Txt s) = []"
| "actions (Elem tag cs attrs hs kids) = map snd hs @ concat (map actions kids)"
| "actions (Smart modelId view context cs kids) = concat (map actions kids)"
| "actions (Component name props) = []"

fun says :: "html \<Rightarrow> string" where
  "says (Txt s) = s"
| "says (Elem tag cs attrs hs kids) = concat (map says kids)"
| "says (Smart modelId view context cs kids) = concat (map says kids)"
| "says (Component name props) = ''''"

fun hosts :: "html \<Rightarrow> string list" where
  "hosts (Txt s) = []"
| "hosts (Elem tag cs attrs hs kids) = concat (map hosts kids)"
| "hosts (Smart modelId view context cs kids) = modelId # concat (map hosts kids)"
| "hosts (Component name props) = []"

text \<open>The formats of the packages: \<open>numeral(n).format(f)\<close>, \<open>numeral(s).format()\<close> of a text or nothing, \<open>time.format(f)(d)\<close>
  of d3 and \<open>moment(s).format(f)\<close>.\<close>

record view_formats =
  vf_numeral :: "string \<Rightarrow> rat \<Rightarrow> string"
  vf_numeral_text :: "string option \<Rightarrow> string"
  vf_time :: "string \<Rightarrow> js_date \<Rightarrow> string"
  vf_moment :: "string \<Rightarrow> string \<Rightarrow> string"

section \<open>The blotter\<close>

definition NotionalCell :: "view_formats \<Rightarrow> string option \<Rightarrow> string \<Rightarrow> string \<Rightarrow> rat \<Rightarrow> nat \<Rightarrow> html" where
  "NotionalCell vf format suffix className notionalValue width =
     (let formatted = vf_numeral vf (case format of None \<Rightarrow> ''0,000,000[.]00'' | Some f \<Rightarrow> f) notionalValue @ suffix
      in Elem ''Cell'' (plain className) [(''width'', dec_digits width)] [] [Txt formatted])"

definition DateCell :: "view_formats \<Rightarrow> string option \<Rightarrow> string \<Rightarrow> js_date \<Rightarrow> nat \<Rightarrow> html" where
  "DateCell vf format prefix dateValue width =
     (let formatted = vf_time vf (case format of None \<Rightarrow> ''%e-%b %H:%M:%S'' | Some f \<Rightarrow> f) dateValue
      in Elem ''Cell'' [] [(''width'', dec_digits width)] [] [Txt prefix, Txt formatted])"

text \<open>A column of the table: its \<open>cell\<close> is asked for a row by index and with the width the table gives it.\<close>

record table_column =
  tc_key :: string
  tc_header :: html
  tc_cell :: "nat \<Rightarrow> nat \<Rightarrow> html result"
  tc_flexGrow :: nat
  tc_width :: nat

record data_table =
  dt_rowHeight :: nat
  dt_headerHeight :: nat
  dt_rowsCount :: nat
  dt_size :: "rat \<times> rat"
  dt_rowClassNameGetter :: "nat \<Rightarrow> class_list result"
  dt_columns :: "table_column list"

record blotter_page =
  bp_classes :: class_list
  bp_controls :: html
  bp_table :: data_table

definition cell_of :: "blotter \<Rightarrow> (trade \<Rightarrow> html) \<Rightarrow> nat \<Rightarrow> html result" where
  "cell_of b cell rowIndex =
     (if rowIndex < length (bl_trades b) then Inr (cell (row_trade (bl_trades b ! rowIndex)))
      else Inl (TypeError ''Cannot read property trade of undefined''))"

definition createGridColumns :: "view_formats \<Rightarrow> blotter \<Rightarrow> table_column list" where
  "createGridColumns vf b =
     (let Cell = (\<lambda>s. Elem ''Cell'' [] [] [] [Txt s]);
          RightCell = (\<lambda>s. elem ''Cell'' ''blotter__trade-field--align-right'' [Txt s]);
          column = (\<lambda>key header width cell.
            \<lparr>tc_key = key, tc_header = header, tc_cell = (\<lambda>rowIndex w. cell_of b (cell w) rowIndex), tc_flexGrow = 1, tc_width = width\<rparr>)
      in [column ''Id'' (Cell ''Id'') 50 (\<lambda>w t. Cell (js_String (Num (of_int (tr_tradeId t))))),
          column ''Date'' (Cell ''Date'') 150 (\<lambda>w t. DateCell vf None '''' (tr_tradeDate t) w),
          column ''Dir'' (Cell ''Direction'') 80 (\<lambda>w t. Cell (map to_upper (direction_name (tr_direction t)))),
          column ''CCY'' (Cell ''CCYCCY'') 70 (\<lambda>w t. Cell (cp_symbol (tr_currencyPair t))),
          column ''Notional'' (RightCell ''Notional'') 120 (\<lambda>w t.
            NotionalCell vf None ('' '' @ cp_base (tr_currencyPair t)) ''blotter__trade-field--align-right'' (tr_notional t) w),
          column ''Rate'' (RightCell ''Rate'') 80 (\<lambda>w t. RightCell (js_String (Num (tr_spotRate t)))),
          column ''Status'' (Cell ''Status'') 80 (\<lambda>w t. elem ''Cell'' ''blotter__trade-status'' [Txt (trade_status_name (tr_status t))]),
          column ''Value date'' (Cell ''Value date'') 100 (\<lambda>w t. DateCell vf (Some ''%d %b'') ''SP. '' (tr_valueDate t) w),
          column ''Trader'' (Cell ''Trader'') 80 (\<lambda>w t. Cell (tr_traderName t))])"

definition to_lower :: "char \<Rightarrow> char" where
  "to_lower c = (if 65 \<le> (of_char c :: nat) \<and> (of_char c :: nat) \<le> 90 then char_of (of_char c + 32 :: nat) else c)"

definition getRowClass :: "blotter \<Rightarrow> nat \<Rightarrow> class_list result" where
  "getRowClass b index =
     (if index < length (bl_trades b)
      then let rowItem = bl_trades b ! index; status = map to_lower (trade_status_name (tr_status (row_trade rowItem)))
           in Inr [(''blotter__trade'', True),
                   (''blotter__trade--new'', row_isNew rowItem),
                   (''blotter__trade--highlighted'', row_isInFocus rowItem),
                   (''blotter__trade--rejected'', status = ''rejected''),
                   (''blotter__trade--processing'', status = ''processing'')]
      else Inl (TypeError ''Cannot read property isNew of undefined''))"

definition blotterView :: "view_formats \<Rightarrow> bool \<Rightarrow> rat \<times> rat \<Rightarrow> string \<Rightarrow> blotter \<Rightarrow> blotter_page" where
  "blotterView vf canPopout size_me modelId b =
     \<lparr>bp_classes = [(''blotter'', True), (''blotter--online'', bl_isConnected b), (''blotter--offline'', \<not> bl_isConnected b)],
      bp_controls = elem ''div'' ''blotter__controls popout__controls''
        [clickable ''i'' [(''glyphicon glyphicon-new-window'', True), (''blotter__controls--hidden'', canPopout)]
           (PublishEvent modelId ''tearOffBlotter'') []],
      bp_table = \<lparr>dt_rowHeight = 30, dt_headerHeight = 30, dt_rowsCount = length (bl_trades b), dt_size = size_me,
        dt_rowClassNameGetter = getRowClass b, dt_columns = createGridColumns vf b\<rparr>\<rparr>"

section \<open>The spot tile\<close>

definition PriceButton :: "string \<Rightarrow> direction \<Rightarrow> rate \<Rightarrow> html" where
  "PriceButton className direction r =
     (let button = priceButton r
      in clickable ''div'' [(''price-button'', True), (className, True)] (TradeOn direction)
           [elem ''span'' ''price-button__wrapper''
              [elem ''span'' ''price-button__big-figure''
                 [elem ''span'' ''price-button__direction'' [Txt (direction_name direction)], Elem ''br'' [] [] [] [],
                  Txt (pb_bigFigure button)],
               elem ''span'' ''price-button__pip'' [Txt (pb_pips button)],
               elem ''span'' ''price-button__tenth'' [Txt (pb_pipFraction button)]]])"

definition PriceMovementIndicator :: "price_movement \<Rightarrow> spread \<Rightarrow> html" where
  "PriceMovementIndicator priceMovementType s =
     Elem ''div'' [] [] []
       [elem ''div'' ''price-movement''
          [Elem ''i'' (upDirectionClasses priceMovementType) [] [] [],
           elem ''span'' ''price-movement__value'' [Txt (sp_formattedValue s)],
           Elem ''i'' (downDirectionClasses priceMovementType) [] [] []]]"

text \<open>When React renders the field again; the last component is the identity of the closure \<open>onChange\<close>.\<close>

type_synonym notional_props = "class_list \<times> rat \<times> string \<times> nat"

definition shouldComponentUpdate :: "notional_props \<Rightarrow> notional_props \<Rightarrow> bool" where
  "shouldComponentUpdate props nextProps \<longleftrightarrow>
     (case (props, nextProps) of ((c, n, s, f), (c', n', s', f')) \<Rightarrow> c \<noteq> c' \<or> n \<noteq> n' \<or> s \<noteq> s' \<or> f \<noteq> f')"

definition NotionalInput :: "view_formats \<Rightarrow> class_list \<Rightarrow> rat \<Rightarrow> currency_pair \<Rightarrow> html" where
  "NotionalInput vf className notional currencyPair =
     (let formattedSize = vf_numeral vf ''0,000,000[.]00'' notional
      in Elem ''div'' ((''notional'', True) # className) [] []
           [elem ''label'' ''notional__currency-pair'' [Txt (cp_base currencyPair)],
            Elem ''input'' (plain ''notional__size-input'') [(''type'', ''text''), (''defaultValue'', formattedSize)]
              (map (\<lambda>h. (h, FieldInput h)) [''onClick'', ''onChange'', ''onBlur'', ''onKeyPress'']) []])"

definition createPriceComponents :: "spot_tile \<Rightarrow> html list" where
  "createPriceComponents t =
     (case stl_currentSpotPrice t of
        None \<Rightarrow> []
      | Some price \<Rightarrow>
          [Elem ''div'' [(''hide'', tile_hasNotification t)] [] []
             [elem ''span'' ''spot-tile__symbol'' [Txt (stl_tileTitle t)],
              PriceButton ''spot-tile__price spot-tile__price--bid'' Sell (px_bid price),
              elem ''div'' ''spot-tile__price-movement'' [PriceMovementIndicator (px_priceMovementType price) (px_spread price)],
              PriceButton ''spot-tile__price spot-tile__price--ask'' Buy (px_ask price)]])"

text \<open>The summary of a trade. Without an error it reads the status's name, and a status that is not there throws.\<close>

definition detail_items :: "string \<Rightarrow> string \<Rightarrow> string \<Rightarrow> html" where
  "detail_items modifier label v =
     elem ''ul'' (''trade-notification__details-items trade-notification__details-items--'' @ modifier)
       [elem ''li'' ''trade-notification__details-item trade-notification__details-item--label'' [Txt label],
        elem ''li'' ''trade-notification__details-item trade-notification__details-item--value'' [Txt v]]"

definition TradeNotification :: "string \<Rightarrow> trade_fields option \<Rightarrow> string option \<Rightarrow> ui_action \<Rightarrow> html result" where
  "TradeNotification className trade err onDismissedClicked =
     (case err of
        Some e \<Rightarrow> Inr (Elem ''div'' [(''trade-notification'', True), (''trade-notification--error'', True), (className, True)] [] []
          [Txt e, Txt ''. The execution status is unknown. Please contact your sales rep.'',
           Elem ''a'' (plain ''trade-notification__button--dismiss'') [(''href'', ''#'')] [(''onClick'', onDismissedClicked)] [Txt ''Done'']])
      | None \<Rightarrow> (case trade of
          None \<Rightarrow> Inl (TypeError ''Cannot read property name of undefined'')
        | Some f \<Rightarrow> Inr (Elem ''div'' [(''trade-notification'', True), (className, True),
              (''trade-notification--rejected'', tf_status f = Rejected)] [] []
            [elem ''span'' ''trade-notification__trade-status'' [Txt (trade_status_name (tf_status f))],
             elem ''ul'' ''trade-notification__summary-items''
               [elem ''li'' ''trade-notification__summary-item trade-notification__summary-item--direction''
                  [Txt (tf_direction f), Txt '' ''],
                elem ''li'' ''trade-notification__summary-item trade-notification__summary-item--notional''
                  [Txt (tf_dealtCurrency f), Txt '' '', Txt (tf_notional f)],
                elem ''li'' ''trade-notification__summary-item trade-notification__summary-item--currency''
                  [elem ''span'' ''trade-notification__label--versus'' [Txt ''vs ''], Txt (tf_termsCurrency f)]],
             elem ''div'' ''trade-notification__details-items-container''
               [detail_items ''rate'' ''Rate'' (js_String (Num (tf_spotRate f))),
                detail_items ''date'' ''Date'' (tf_formattedValueDate f),
                detail_items ''trade-id'' ''Trade ID '' (js_String (Num (of_int (tf_tradeId f))))],
             Elem ''a'' (plain ''trade-notification__button--dismiss'') [(''href'', ''#'')] [(''onClick'', onDismissedClicked)]
               [elem ''i'' ''trade-notification__button--dismiss-icon fa fa-share'' []]])))"

definition tryCreateNotification :: "spot_tile \<Rightarrow> html result option" where
  "tryCreateNotification t =
     (case stl_notification t of
        None \<Rightarrow> None
      | Some (TradeExecutionNotification trade err) \<Rightarrow>
          Some (TradeNotification ''spot-tile__trade-summary'' trade err (PublishEvent (stl_modelId t) ''tradeNotificationDismissed''))
      | Some (TextNotification m) \<Rightarrow> Some (Inr (elem ''div'' ''spot-tile__notification-message'' [Txt m])))"

definition spotTileView :: "view_formats \<Rightarrow> openfin \<Rightarrow> bool \<Rightarrow> spot_tile \<Rightarrow> html result" where
  "spotTileView vf fin canPopout t =
     (let notionalInputClass = [(''spot-tile__notional'', True), (''hide'', tile_hasNotification t)];
          spotDateClass = [(''spot-tile__delivery'', True), (''hide'', tile_hasNotification t)];
          formattedDate = (case stl_currentSpotPrice t of Some price \<Rightarrow> vf_moment vf ''DD MMM'' (px_valueDate price) | None \<Rightarrow> '''');
          spotTileContent = Elem ''div'' [] [] []
            (elem ''span'' ''spot-tile__execution-label'' [Txt ''Executing''] # createPriceComponents t @
             [NotionalInput vf notionalInputClass (stl_notional t) (stl_currencyPair t),
              Elem ''div'' spotDateClass [] []
                [elem ''span'' ''spot-tile__tenor'' [Txt ''SP''],
                 elem ''span'' ''spot-tile__delivery-date'' [Txt ''. '', Txt formattedDate]]])
      in bind_result (case tryCreateNotification t of None \<Rightarrow> Inr spotTileContent | Some r \<Rightarrow> r) (\<lambda>content. Inr
           (Elem ''div'' (spotTileClasses t) [] []
             [elem ''div'' ''spot-tile__container''
                [elem ''div'' ''spot-tile__controls''
                   [clickable ''i'' (chartIQIconClasses fin t) (PublishEvent (stl_modelId t) ''displayCurrencyChart'') [],
                    clickable ''i'' (newWindowClasses canPopout) (PublishEvent (stl_modelId t) ''popOutTile'') [],
                    clickable ''i'' (plain ''popout__undock spot-tile__icon--undock glyphicon glyphicon-log-out'')
                      (PublishEvent (stl_modelId t) ''undockTile'') []],
                 content]])))"

section \<open>The pop-up of a trade\<close>

definition popup_items :: "string \<Rightarrow> string \<Rightarrow> html" where
  "popup_items label v =
     elem ''ul'' ''notification__details-items''
       [elem ''li'' ''notification__details-item notification__details-item--label'' [Txt label],
        elem ''li'' ''notification__details-item notification__details-item--value'' [Txt v]]"

definition popupView :: "trade_notification \<Rightarrow> html" where
  "popupView tn =
     (let pop = tradeNotificationView tn
      in elem ''div'' ''notification''
           [elem ''div'' ''notification__content''
              [Elem ''span'' (pop_statusClasses pop) [] [] [Txt (pop_status pop)],
               Elem ''ul'' (pop_summaryClasses pop) [] []
                 [elem ''li'' ''notification__summary-item notification__summary-item--direction'' [Txt (pop_direction pop)],
                  elem ''li'' ''notification__summary-item notification__summary-item--notional''
                    [Txt (tn_baseCurrency tn), Txt '' '', Txt (tn_notional tn)],
                  elem ''li'' ''notification__summary-item notification__summary-item--currency''
                    [Txt ''vs '', Txt (tn_termsCurrency tn)]],
               elem ''div'' ''notification__details-items-container''
                 [popup_items ''Rate'' (js_String (Num (tn_spotRate tn))),
                  popup_items ''Date'' (tn_valueDate tn),
                  popup_items ''Trade Id'' (js_String (Num (of_int (tn_tradeId tn))))],
               Elem ''a'' (plain ''notification__button--dismiss'') [(''href'', ''#'')] [(''onClick'', DismissPopup)]
                 [elem ''i'' ''notification__button--dismiss-icon fa fa-share'' []]]])"

text \<open>What the pop-up does when it is sent a message, and when it is dismissed (\<open>notificationBootstrapper.js\<close>).\<close>

datatype popup_call = RenderPopup html | AckToApplication | ClosePopup

definition handleNotificationMessage :: "trade_notification \<Rightarrow> popup_call list" where
  "handleNotificationMessage message = [RenderPopup (popupView message), AckToApplication]"

definition dismissNotification :: "popup_call list" where
  "dismissNotification = [ClosePopup]"

section \<open>The analytics panel\<close>

text \<open>The label of a bar. The bounds of the bar and of its label are known once they are on the page.\<close>

definition renderedLabel :: "view_formats \<Rightarrow> ((rat \<times> rat) \<times> (rat \<times> rat)) option \<Rightarrow> currency_pair_position \<Rightarrow> rat \<times> html" where
  "renderedLabel vf bounds pos =
     (let amount = map to_upper (vf_numeral vf ''0a'' (pos_basePnl pos));
          amountHover = vf_numeral vf ''0,0'' (pos_basePnl pos);
          labelText = ''('' @ amount @ '') '' @ pos_symbol pos;
          approxLabelWidth = of_nat (length labelText * 8);
          offset = (if calculateOffset bounds \<noteq> 0 then calculateOffset bounds else - (approxLabelWidth / 2))
      in (offset,
          elem ''span'' ''analytics__barchart-label''
            [elem ''span'' ''analytics__barchart-label-amount'' [Txt ''('', Txt amount, Txt '') ''],
             Elem ''span'' [] [] [] [Txt (cp_base (pos_currencyPair pos))],
             elem ''span'' ''analytics__barchart-label-currency-terms'' [Txt (cp_terms (pos_currencyPair pos))],
             elem ''span'' ''analytics__barchart-label-amount--hover'' [Txt '' '', Txt amountHover]]))"

text \<open>A bar: where its label, its pusher and its pointer are (in pixels, and in per cent), and its elements.\<close>

record pnl_bar =
  bar_labelLeft :: rat
  bar_pusherWidth :: jsnum
  bar_pointerLeft :: jsnum
  bar_html :: html

definition pnlBarView ::
    "view_formats \<Rightarrow> ((rat \<times> rat) \<times> (rat \<times> rat)) option \<Rightarrow> (rat \<times> rat) option \<Rightarrow> currency_pair_position \<Rightarrow> rat \<Rightarrow> pnl_bar" where
  "pnlBarView vf bounds widths pos maxVal =
     (let (offset, label) = renderedLabel vf bounds pos
      in \<lparr>bar_labelLeft = offset,
          bar_pusherWidth = getPusherRelativePosition widths (pos_basePnl pos) maxVal,
          bar_pointerLeft = getRelativePointerPosition (pos_basePnl pos) maxVal,
          bar_html = elem ''div'' ''analytics__barchart-container''
            [Elem ''div'' [] [] []
               [elem ''div'' ''analytics__barchart-title-wrapper''
                  [elem ''div'' ''analytics__barchart-label-wrapper''
                     [elem ''div'' ''analytics__barchart-label-pusher'' [], label],
                   elem ''div'' ''analytics__barchart-pointer-container''
                     [elem ''div'' ''analytics__barchart-pointer--outline'' [], elem ''div'' ''analytics__barchart-pointer'' []]],
                elem ''div'' ''analytics__barchart-bar-wrapper''
                  [elem ''div'' ''analytics__barchart-bar-background'' [],
                   elem ''div'' ''analytics__barchart-border analytics__barchart-border--left'' [],
                   elem ''div'' ''analytics__barchart-border analytics__barchart-border--center'' [],
                   elem ''div'' ''analytics__barchart-border analytics__barchart-border--right'' []]]]\<rparr>)"

text \<open>The profit and loss chart of the package: its series and options, the range of its axis, its height in pixels and
  its tooltip.\<close>

record nvd3_series =
  ns_series :: string
  ns_label :: string
  ns_area :: bool
  ns_color :: string
  ns_values :: "price_point list"

definition pnl_getSeries :: "pnl_chart \<Rightarrow> nvd3_series list" where
  "pnl_getSeries chart =
     [\<lparr>ns_series = ''PNL'', ns_label = ''PNL'', ns_area = True, ns_color = ''slategray'', ns_values = pnl_seriesData chart\<rparr>]"

record nvd3_options =
  no_xTickFormat :: "js_date \<Rightarrow> string"
  no_yTickFormat :: "rat \<Rightarrow> string"
  no_showYAxis :: bool
  no_showXAxis :: bool
  no_showLegend :: bool
  no_useInteractiveGuideline :: bool
  no_duration :: nat
  no_margin :: "nat \<times> nat \<times> nat \<times> nat"

text \<open>The margins left, top, right and bottom.\<close>

definition pnl_options :: "view_formats \<Rightarrow> nvd3_options" where
  "pnl_options vf =
     \<lparr>no_xTickFormat = vf_time vf ''%X'', no_yTickFormat = vf_numeral vf ''0.0a'', no_showYAxis = True, no_showXAxis = True,
      no_showLegend = False, no_useInteractiveGuideline = True, no_duration = 0, no_margin = (30, 10, 0, 24)\<rparr>"

record nvd3_chart =
  nv_datum :: "nvd3_series list"
  nv_options :: nvd3_options
  nv_yDomain :: "rat option \<times> rat option"
  nv_yRange :: "nat \<times> nat"
  nv_height :: nat

definition pnlTooltip :: "view_formats \<Rightarrow> js_date \<Rightarrow> rat \<Rightarrow> string" where
  "pnlTooltip vf v y =
     ''<p class=\"analytics__chart-tooltip\"><strong class=\"analytics__chart-tooltip-date\">'' @ vf_time vf ''%X'' v @
     '':</strong> '' @ vf_numeral vf ''0.0a'' y @ ''</p>''"

definition pnlChartElement :: "view_formats \<Rightarrow> pnl_chart \<Rightarrow> nvd3_chart option" where
  "pnlChartElement vf chart =
     (if pnl_hasData chart
      then Some \<lparr>nv_datum = pnl_getSeries chart, nv_options = pnl_options vf, nv_yDomain = (pnl_minPnl chart, pnl_maxPnl chart),
             nv_yRange = (150, 0), nv_height = 240\<rparr>
      else None)"

definition createPnlComponents :: "view_formats \<Rightarrow> pnl_chart \<Rightarrow> html" where
  "createPnlComponents vf chart =
     (let formattedLastPos = vf_numeral_text vf (pnl_lastPos chart)
      in Elem ''div'' [] [] []
           [elem ''div'' ''analytics__header''
              [elem ''span'' ''analytics__header-title''
                 [elem ''i'' ''analytics__header-title-icon glyphicon glyphicon-stats'' [], Txt ''Profit & Loss''],
               Elem ''span'' (analyticsHeaderClasses chart) [] [] [Txt ''USD '', Txt formattedLastPos]],
            elem ''div'' ''analytics__chart-container''
              [case pnlChartElement vf chart of
                 Some nv \<Rightarrow> Component ''NVD3Chart'' [(''type'', ''lineChart'')]
               | None \<Rightarrow> Elem ''div'' [] [] [] [Txt ''No PNL data yet'']]])"

definition createPositionsChart :: html where
  "createPositionsChart =
     elem ''div'' ''analytics__bubblechart-container''
       [elem ''span'' ''analytics__chart-title analytics__bubblechart-title'' [Txt ''Positions''], Component ''PositionsBubbleChart'' []]"

text \<open>The bars are on the page from their first rendering on, measured from the second.\<close>

definition createPnlSliders ::
    "view_formats \<Rightarrow> (nat \<Rightarrow> ((rat \<times> rat) \<times> (rat \<times> rat)) option) \<Rightarrow> (nat \<Rightarrow> (rat \<times> rat) option) \<Rightarrow> currency_pair_position list \<Rightarrow> html" where
  "createPnlSliders vf bounds widths seriesData =
     Elem ''div'' [] [] []
       [elem ''div'' ''analytics__chart-container''
          [elem ''span'' ''analytics__chart-title'' [Txt ''PnL''],
           Elem ''div'' [] [] []
             (map (\<lambda>(i, pos, maxVal). bar_html (pnlBarView vf (bounds i) (widths i) pos maxVal)) (createBars seriesData))]]"

definition analyticsView ::
    "view_formats \<Rightarrow> (nat \<Rightarrow> ((rat \<times> rat) \<times> (rat \<times> rat)) option) \<Rightarrow> (nat \<Rightarrow> (rat \<times> rat) option) \<Rightarrow> bool \<Rightarrow> string \<Rightarrow> analytics \<Rightarrow> html" where
  "analyticsView vf bounds widths canPopout modelId a =
     (if \<not> an_isAnalyticsServiceConnected a then elem ''div'' ''analytics__container'' [Elem ''div'' [] [] [] []]
      else elem ''div'' ''analytics analytics__container animated fadeIn''
        [elem ''div'' ''analytics__controls popout__controls''
           [clickable ''i'' [(''glyphicon glyphicon-new-window'', True), (''analytics__icon--tearoff'', \<not> canPopout),
              (''analytics__icon--tearoff--hidden'', canPopout)] (PublishEvent modelId ''popOutAnalytics'') []],
         createPnlComponents vf (an_pnlChart a),
         createPositionsChart,
         createPnlSliders vf bounds widths (pch_seriesData (an_positionsChart a))])"

text \<open>\<open>updateGradient\<close>, after each rendering: the colours follow the chart while it is on the page, and their object is made
  the first time. The last result says that it is to be tried again in ten milliseconds.\<close>

definition analytics_updateGradient ::
    "nat \<Rightarrow> analytics \<Rightarrow> chart_group option \<Rightarrow> chart_gradient option \<Rightarrow> chart_group option \<times> chart_gradient option \<times> bool" where
  "analytics_updateGradient fresh a nvGroups chartGradient =
     (if an_isAnalyticsServiceConnected a \<and> pnl_hasData (an_pnlChart a)
      then let cg = (case chartGradient of None \<Rightarrow> createGradients | Some g \<Rightarrow> g);
               (nvGroups', cg', again) = gradient_update fresh nvGroups (pnl_minPnl (an_pnlChart a)) (pnl_maxPnl (an_pnlChart a)) cg
           in (nvGroups', Some cg', again)
      else (nvGroups, chartGradient, False))"

section \<open>The regions\<close>

definition smart_item :: "registration \<Rightarrow> html" where
  "smart_item reg = Smart (reg_model reg) '''' (reg_displayContext reg) [] []"

definition singleItemRegionView :: "class_list \<Rightarrow> region \<Rightarrow> html" where
  "singleItemRegionView className r =
     (case rg_modelRegistrations r of
        [reg] \<Rightarrow> Elem ''div'' className [] [] [smart_item reg]
      | _ \<Rightarrow> Elem ''div'' (className @ [(''hide'', True)]) [] [] [])"

definition renderWorkspaceItems :: "registration list \<Rightarrow> html list" where
  "renderWorkspaceItems regs =
     map (\<lambda>reg. elem ''div'' ''workspace-region__item'' [smart_item reg]) regs
     @ replicate 6 (elem ''div'' ''workspace-region__spacer'' [])"

definition workspaceRegionView :: "class_list \<Rightarrow> region \<Rightarrow> html" where
  "workspaceRegionView className r =
     Elem ''div'' className [] []
       [elem ''div'' ''workspace-region''
          (if length (rg_modelRegistrations r) > 0 then renderWorkspaceItems (rg_modelRegistrations r)
           else [elem ''div'' ''workspace-region__icon--loading'' [elem ''i'' ''fa fa-5x fa-cog fa-spin'' []]])]"

text \<open>The sidebar; \<open>innerContent\<close> is an element and never null.\<close>

definition sidebarRegionView :: "class_list \<Rightarrow> string \<Rightarrow> region \<Rightarrow> html option" where
  "sidebarRegionView className modelId r =
     (if \<not> hasContent r then None
      else Some (Elem ''div'' className [] []
        [Elem ''div'' [(''sidebar-region__content'', True), (''sidebar-region__container--no-content'', rg_isCollapsed r)] [] []
           [smart_item (rg_modelRegistrations r ! 0)],
         elem ''div'' ''sidebar-region__container''
           [clickable ''i'' [(''sidebar-region__element-button glyphicon glyphicon-stats'', True),
              (''sidebar-region__element--active'', \<not> rg_isCollapsed r),
              (''sidebar-region__element--inactive'', rg_isCollapsed r)] (PublishEvent modelId ''toggleIsCollapsed'') [],
            elem ''div'' ''sidebar-region__element'' []]]))"

section \<open>The footer\<close>

definition ExternalURL_openfinURL :: string where "ExternalURL_openfinURL = ''http://openfin.co''"

definition ExternalURL_adaptiveURL :: string where "ExternalURL_adaptiveURL = ''http://www.weareadaptive.com''"

definition StatusIndicator :: "string \<Rightarrow> application_status \<Rightarrow> html" where
  "StatusIndicator className status =
     Elem ''div'' [(''status-indicator'', True), (className, True), (wrapperStatusCss status, wrapperStatusCss status \<noteq> '''')] [] []
       [Elem ''i'' [(''status-indicator__icon'', True), (iconStatusCss status, iconStatusCss status \<noteq> '''')] [] [] []]"

definition service_item :: "bool \<Rightarrow> string \<Rightarrow> html" where
  "service_item online label =
     elem ''li'' ''footer__service''
       [elem ''span'' ''footer__service-label''
          [elem ''i'' (if online then ''footer__icon--online fa fa-circle '' else ''footer__icon--offline fa fa-circle-o'') [], Txt label]]"

definition renderBrokerStatus :: "footer \<Rightarrow> html" where
  "renderBrokerStatus f = service_item (ft_isConnectedToBroker f) ''broker''"

definition renderServiceItem :: "service_status_lookup \<Rightarrow> string \<Rightarrow> html option" where
  "renderServiceItem lookup serviceType =
     map_option (service_item (case obj_get lookup serviceType of Some st \<Rightarrow> ss_isConnected st | None \<Rightarrow> False))
       (renderService lookup serviceType)"

definition renderServiceItems :: "footer \<Rightarrow> html list" where
  "renderServiceItems f =
     renderBrokerStatus f # List.map_filter (renderServiceItem (ft_serviceLookup f)) (obj_keys (ft_serviceLookup f))"

definition footerView :: "string \<Rightarrow> footer \<Rightarrow> html" where
  "footerView modelId f =
     Elem ''footer'' [(''footer'', True), (''footer--disconnected'', \<not> ft_isConnectedToBroker f)] [] []
       [elem ''span'' ''footer__connection-url'' [Txt (connection_text f), Txt '' ''],
        elem ''span'' ''footer__logo-container ''
          [clickable ''span'' [(''footer__logo'', True), (''footer__logo-openfin'', ft_isRunningInOpenFin f)] (FollowLink ExternalURL_openfinURL) [],
           clickable ''span'' (plain ''footer__logo footer__logo-adaptive'') (FollowLink ExternalURL_adaptiveURL) []],
        Elem ''div'' (plain ''footer__status-indicator-wrapper'') []
          [(''onMouseEnter'', PublishEvent modelId ''toggleServiceStatus''), (''onMouseLeave'', PublishEvent modelId ''toggleServiceStatus'')]
          [StatusIndicator ''footer__status-indicator'' (ft_applicationStatus f)],
        Elem ''div'' [(''footer__service-status-panel'', True), (''hide'', \<not> ft_shouldShowServiceStatus f)] [] []
          [elem ''ul'' ''footer__services'' (renderServiceItems f)]]"

section \<open>Shell and chrome\<close>

definition Modal :: "bool \<Rightarrow> string \<Rightarrow> html \<Rightarrow> html option" where
  "Modal shouldShow title child =
     (if \<not> shouldShow then None
      else Some (Elem ''div'' [] [] []
        [elem ''div'' ''modal__overlay'' [],
         elem ''div'' ''modal''
           [elem ''div'' ''modal__header'' [elem ''span'' ''modal__header-title'' [Txt title]],
            elem ''div'' ''modal__body'' [child]]]))"

definition reconnect_dialog :: "string \<Rightarrow> html" where
  "reconnect_dialog modelId =
     Elem ''div'' [] [] []
       [Elem ''div'' [] [] [] [Txt ''Your 15 minute session expired, you are now disconnected from the server.''],
        Elem ''div'' [] [] [] [Txt ''Click reconnect to start a new session.''],
        clickable ''button'' (plain ''btn shell__button--reconnect'') (PublishEvent modelId ''reconnectClicked'') [Txt ''Reconnect'']]"

definition option_elements :: "html option \<Rightarrow> html list" where
  "option_elements h = (case h of None \<Rightarrow> [] | Some e \<Rightarrow> [e])"

definition shellView :: "string \<Rightarrow> string \<Rightarrow> shell \<Rightarrow> html" where
  "shellView appVersion modelId s =
     Smart ''chromeModelId'' ''Chrome'' None []
       [Elem ''div'' [] [] []
          [elem ''div'' ''shell__splash''
             [elem ''span'' ''shell__splash-message'' [Txt appVersion, Elem ''br'' [] [] [] [], Txt ''Loading...'']],
           elem ''div'' ''shell__container''
             (option_elements (Modal (sh_sessionExpired s) ''Session expired'' (reconnect_dialog modelId))
              @ [elem ''div'' ''shell_workspace_blotter''
                   [Smart ''workspaceRegionModelId'' ''WorkspaceRegionView'' None (plain ''shell__workspace'') [],
                    Smart ''blotterRegionModelId'' ''SingleItemRegionView'' None (plain ''shell__blotter'') []],
                 Smart ''sidebarRegionModelId'' ''SidebarRegionView'' None (plain ''shell__sidebar'') []]),
           elem ''div'' ''shell__footer'' [Smart ''footerModelId'' ''FooterView'' None [] []]]]"

text \<open>Without \<open>minimize\<close> or \<open>maximize\<close> the button is missing.\<close>

definition header_control :: "string \<Rightarrow> ui_action \<Rightarrow> html" where
  "header_control icon action =
     elem ''li'' ''openfin-chrome__header-control'' [clickable ''a'' [] action [elem ''i'' icon []]]"

definition OpenFinChrome :: "ui_action option \<Rightarrow> ui_action option \<Rightarrow> ui_action \<Rightarrow> bool option \<Rightarrow> html list \<Rightarrow> html" where
  "OpenFinChrome minimize maximize close showHeaderBar children =
     elem ''div'' ''openfin-chrome''
       [Elem ''div'' [(''openfin-chrome__header'', True), (''openfin-chrome__header--no-bar'', showHeaderBar = Some False),
            (''openfin-chrome__header--with-bar'', showHeaderBar \<noteq> Some False)] [] []
          [elem ''div'' ''openfin-chrome__header-title''
             [elem ''span'' ''openfin-chrome__header-title-label'' [Txt ''Adaptive's Reactive Trader'']],
           elem ''div'' ''openfin-chrome__header-controls-container''
             [elem ''ul'' ''openfin-chrome__header-controls''
                ((case minimize of Some action \<Rightarrow> [header_control ''fa fa-minus fa-set-position'' action] | None \<Rightarrow> [])
                 @ (case maximize of Some action \<Rightarrow> [header_control ''fa fa-square-o'' action] | None \<Rightarrow> [])
                 @ [elem ''li'' ''openfin-chrome__header-control openfin-chrome__header-control--close''
                      [clickable ''a'' [] close [elem ''i'' ''fa fa-close'' []]]])]],
        Elem ''div'' [(''openfin-chrome__content'', True), (''openfin-chrome__content--no-header-bar'', showHeaderBar = Some False)] [] []
          children]"

definition BrowserChrome :: "html list \<Rightarrow> html" where
  "BrowserChrome children = elem ''div'' ''browser-chrome'' [elem ''div'' ''browser-chrome__content'' children]"

text \<open>Until its \<open>init\<close> the model does not know the container.\<close>

definition chromeView :: "string \<Rightarrow> chrome \<Rightarrow> html list \<Rightarrow> html" where
  "chromeView modelId c children =
     (if ch_isRunningInOpenFin c = Some True
      then OpenFinChrome (Some (PublishEvent modelId ''minimizeClicked'')) (Some (PublishEvent modelId ''maximizeClicked''))
        (PublishEvent modelId ''closeClicked'') None children
      else BrowserChrome children)"

end
