(* ===== verification/Pages.thy ===== *)
theory Pages imports Screens Connections begin

text \<open>
  The screens as a user meets them: the page of the shell with its regions and the windows of the popped out views
  (\<open>appBootstrapper.js\<close>, \<open>shellView.jsx\<close>, the region views, \<open>popoutRegionModel.js\<close>), the dialog of an expired session
  over the connection, the tile with the events its elements publish, and the blotter's table over its model.
\<close>

section \<open>The page and the windows of the popouts\<close>

text \<open>\<open>_createViewElement\<close> of the popout region. It hands over the display context under another name than the region views,
  so the element has no view context.\<close>

definition createViewElement :: "registration \<Rightarrow> html" where
  "createViewElement reg = Smart (reg_model reg) '''' None [] []"

text \<open>What the three region elements of the shell render.\<close>

definition page_regions :: "region_manager \<Rightarrow> html list" where
  "page_regions rm =
     (let region = (\<lambda>name. case obj_get (rm_regionsByName rm) name of Some r \<Rightarrow> r | None \<Rightarrow> new_region PlainRegion name)
      in [workspaceRegionView (plain ''shell__workspace'') (region RegionNames_workspace),
          singleItemRegionView (plain ''shell__blotter'') (region RegionNames_blotter)]
         @ option_elements (sidebarRegionView (plain ''shell__sidebar'') ''sidebarRegionModelId'' (region RegionNames_sidebar)))"

definition popout_windows :: "region_manager \<Rightarrow> html list" where
  "popout_windows rm =
     (case obj_get (rm_regionsByName rm) RegionNames_popout of
        Some r \<Rightarrow> map createViewElement (rg_modelRegistrations r) | None \<Rightarrow> [])"

definition hosted :: "html list \<Rightarrow> string list" where
  "hosted es = concat (map hosts es)"

text \<open>A view is popped out from the page: the style sheet of the popouts hides the button there.\<close>

fun from_page :: "region_helper list \<Rightarrow> region_manager \<Rightarrow> region_event list \<Rightarrow> bool" where
  "from_page hs rm [] = True"
| "from_page hs rm (ev # evs) =
     (user_event hs ev \<and> (case ev of HelperPopout h \<Rightarrow> hp_model h \<in> set (hosted (page_regions rm)) | _ \<Rightarrow> True)
      \<and> from_page hs (fst (regions_step rm ev)) evs)"

section \<open>No view is registered twice\<close>

definition neat :: "region_manager \<Rightarrow> bool" where
  "neat rm \<longleftrightarrow> (\<forall>name r. obj_get (rm_regionsByName rm) name = Some r \<longrightarrow> distinct (map reg_model (rg_modelRegistrations r)))"

lemma neat_update:
  assumes "neat rm" "distinct (map reg_model (rg_modelRegistrations r'))" "rm_regionsByName rm' = obj_set name r' (rm_regionsByName rm)"
  shows "neat rm'"
  using assms by (auto simp: neat_def obj_get_set split: if_splits)

lemma neat_add:
  assumes "neat rm" "model \<notin> models_in rm name" "manager_addToRegion name model options persist rm = (rm', called, calls)"
  shows "neat rm'"
proof (cases "obj_get (rm_regionsByName rm) name")
  case (Some r)
  obtain r' cs os where add: "region_addToRegion (rg_kind r) (rm_key rm) model options r = (r', cs, os)" by (metis prod_cases3)
  have "distinct (map reg_model (rg_modelRegistrations r))" using assms(1) Some by (simp add: neat_def)
  moreover have "model \<notin> reg_model ` set (rg_modelRegistrations r)" using assms(2) Some by (simp add: models_in_def)
  ultimately have "distinct (map reg_model (rg_modelRegistrations r'))"
    using add by (cases "rg_kind r") (auto simp: base_addToRegion_def new_registration_def split_beta Let_def)
  moreover have "rm_regionsByName rm' = obj_set name r' (rm_regionsByName rm)"
    using assms(3) Some add by (auto simp: manager_addToRegion_def saveState_def Let_def split: if_splits)
  ultimately show ?thesis using neat_update [OF assms(1)] by blast
qed (use assms in \<open>auto simp: manager_addToRegion_def\<close>)

lemma neat_remove:
  assumes "neat rm" "manager_removeFromRegion name model context external rm = (rm', called, calls)"
  shows "neat rm'"
proof (cases "obj_get (rm_regionsByName rm) name")
  case (Some r)
  let ?r = "fst (region_removeFromRegion model external context r)"
  have "distinct (map reg_model (rg_modelRegistrations r))" using assms(1) Some by (simp add: neat_def)
  then have "distinct (map reg_model (rg_modelRegistrations ?r))"
    by (auto simp: region_removeFromRegion_def base_removeFromRegion_def distinct_map_filter split: region_kind.split)
  moreover have "rm_regionsByName rm' = obj_set name ?r (rm_regionsByName rm)"
    using assms(2) Some by (auto simp: manager_removeFromRegion_def split_beta Let_def)
  ultimately show ?thesis using neat_update [OF assms(1)] by blast
qed (use assms in \<open>auto simp: manager_removeFromRegion_def\<close>)

lemma neat_popout:
  assumes "layout hs" "h \<in> set hs" "regions_inv hs rm" "neat rm" "hp_model h \<notin> models_in rm RegionNames_popout"
  shows "neat (fst (helper_popout h rm))"
proof -
  have home: "hp_regionName h \<in> home_regions" using assms(1,2) by (auto simp: layout_def)
  then have name: "hp_regionName h \<in> insert RegionNames_popout home_regions" "hp_regionName h \<noteq> RegionNames_popout"
    by (auto simp: region_names)
  obtain rm1 c1 o1 where rm1: "manager_removeFromRegion (hp_regionName h) (hp_model h) None False rm = (rm1, c1, o1)"
    by (metis prod_cases3)
  note one = remove_from [OF assms(3) name(1) rm1]
  obtain rm2 c2 o2 where rm2: "manager_addToRegion RegionNames_popout (hp_model h)
      (Some \<lparr>ro_displayContext = None, ro_onExternallyRemovedCallback = Some (ReturnTo (hp_regionName h) (hp_model h)),
             ro_regionSettings = Some (hp_regionSettings h)\<rparr>) True rm1 = (rm2, c2, o2)" by (metis prod_cases3)
  have "c2 = []" using add_popout(2) [OF assms(2) one(1) name(2) rm2] .
  then have "fst (helper_popout h rm) = rm2" by (simp add: helper_popout_def helper_removeFromRegion_def rm1 rm2)
  moreover have "neat rm2"
    by (rule neat_add [OF neat_remove [OF assms(4) rm1] _ rm2]) (use one(2) assms(5) name(2) in simp)
  ultimately show ?thesis by simp
qed

lemma placed_at:
  assumes "placed hs started popped rm" "h \<in> set hs"
  shows "hp_model h \<in> models_in rm RegionNames_popout \<longleftrightarrow> h \<in> started \<and> popped h"
    and "hp_model h \<in> models_in rm (hp_regionName h) \<longleftrightarrow> h \<in> started \<and> \<not> popped h"
  using assms by (auto simp: placed_def)

lemma neat_init:
  assumes "layout hs" "h \<in> set hs" "placed hs started popped rm" "h \<notin> started" "neat rm"
  shows "neat (fst (helper_init h rm))"
proof -
  obtain rm1 c1 o1 where rm1: "manager_addToRegion (hp_regionName h) (hp_model h) None False rm = (rm1, c1, o1)"
    by (metis prod_cases3)
  have inv: "regions_inv hs rm" using assms(3) by (simp add: placed_def)
  note one = add_home [OF assms(1,2) inv rm1]
  have name: "hp_regionName h \<noteq> RegionNames_popout" using assms(1,2) by (auto simp: layout_def region_names)
  have add: "helper_addToRegion h rm = (rm1, o1)" by (simp add: helper_addToRegion_def rm1 one(2))
  have neat1: "neat rm1" by (rule neat_add [OF assms(5) _ rm1]) (use placed_at [OF assms(3,2)] assms(4) in simp)
  have "hp_model h \<notin> models_in rm1 RegionNames_popout" using one(3) name placed_at [OF assms(3,2)] assms(4) by simp
  from neat_popout [OF assms(1,2) one(1) neat1 this] neat1 show ?thesis
    by (simp add: helper_init_def add split_beta Let_def)
qed

lemma filter_distinct_one:
  "distinct (map f xs) \<Longrightarrow> (\<And>x. x \<in> set xs \<Longrightarrow> P x \<Longrightarrow> f x = k) \<Longrightarrow> filter P xs = [] \<or> (\<exists>x. filter P xs = [x])"
proof (induction xs)
  case (Cons x xs)
  show ?case
  proof (cases "P x")
    case True
    with Cons.prems have "\<forall>y \<in> set xs. \<not> P y" by (metis imageI distinct.simps(2) list.set_intros list.simps(9) set_map)
    with True show ?thesis by simp
  qed (use Cons in simp)
qed simp

lemma neat_closed:
  assumes "layout hs" "h \<in> set hs" "placed hs started popped rm" "neat rm"
  shows "neat (fst (popoutClosed (hp_model h) rm))"
proof -
  obtain rm1 c1 o1 where rm1: "manager_removeFromRegion RegionNames_popout (hp_model h) None True rm = (rm1, c1, o1)"
    by (metis prod_cases3)
  have inv: "regions_inv hs rm" using assms(3) by (simp add: placed_def)
  note one = remove_from [OF inv insertI1 rm1]
  obtain r where r: "obj_get (rm_regionsByName rm) RegionNames_popout = Some r" "rg_kind r = PopoutRegion"
    "\<forall>reg \<in> set (rg_modelRegistrations r). registration_ok hs RegionNames_popout reg"
    by (rule regions_invD [OF inv insertI1]) (use that in simp)
  let ?regs = "filter (matches (hp_model h) None) (rg_modelRegistrations r)"
  have c1: "c1 = List.map_filter reg_onExternallyRemovedCallback ?regs"
    using rm1 r by (auto simp: manager_removeFromRegion_def region_removeFromRegion_def base_removeFromRegion_def Let_def)
  have neat1: "neat rm1" by (rule neat_remove [OF assms(4) rm1])
  have rm: "fst (popoutClosed (hp_model h) rm) = fst (run_callbacks c1 rm1)"
    by (simp add: popoutClosed_def rm1 split_beta Let_def)
  have "distinct (map reg_model (rg_modelRegistrations r))" using assms(4) r(1) by (simp add: neat_def)
  then consider "?regs = []" | reg where "?regs = [reg]"
    using filter_distinct_one [of reg_model "rg_modelRegistrations r" "matches (hp_model h) None" "hp_model h"]
    by (auto simp: matches_def)
  then show ?thesis
  proof cases
    case 1
    with rm neat1 c1 show ?thesis by simp
  next
    case 2
    then have reg: "reg \<in> set (rg_modelRegistrations r)" "reg_model reg = hp_model h"
      by (auto simp: matches_def dest: filter_eq_ConsD)
    with r(3) obtain h' where "h' \<in> set hs" "hp_model h' = hp_model h"
      "reg_onExternallyRemovedCallback reg = Some (ReturnTo (hp_regionName h') (hp_model h'))"
      by (auto simp: registration_ok_def)
    with distinct_helpers [OF assms(1) _ assms(2)] have called: "c1 = [ReturnTo (hp_regionName h) (hp_model h)]"
      using c1 2 by auto
    obtain rm2 c2 o2 where rm2: "manager_addToRegion (hp_regionName h) (hp_model h) None True rm1 = (rm2, c2, o2)"
      by (metis prod_cases3)
    have "c2 = []" by (rule add_home(2) [OF assms(1,2) one(1) rm2])
    then have "fst (run_callbacks c1 rm1) = rm2" by (simp add: called rm2)
    moreover have "hp_model h \<in> models_in rm RegionNames_popout" using r(1) reg by (force simp: models_in_def)
    then have "hp_model h \<notin> models_in rm1 (hp_regionName h)" using placed_at [OF assms(3,2)] by (simp add: one(2))
    ultimately show ?thesis using neat_add [OF neat1 _ rm2] rm by simp
  qed
qed

section \<open>What the page shows\<close>

definition models_of :: "region_manager \<Rightarrow> string \<Rightarrow> string list" where
  "models_of rm name = (case obj_get (rm_regionsByName rm) name of Some r \<Rightarrow> map reg_model (rg_modelRegistrations r) | None \<Rightarrow> [])"

lemma hosts_items [simp]:
  "hosts (workspaceRegionView cs r) = map reg_model (rg_modelRegistrations r)"
  "hosted (map createViewElement regs) = map reg_model regs"
proof -
  have "concat (map hosts (renderWorkspaceItems regs)) = map reg_model regs" for regs
    by (induction regs) (simp_all add: renderWorkspaceItems_def smart_item_def)
  then show "hosts (workspaceRegionView cs r) = map reg_model (rg_modelRegistrations r)"
    by (cases "rg_modelRegistrations r") (simp_all add: workspaceRegionView_def)
  show "hosted (map createViewElement regs) = map reg_model regs"
    by (induction regs) (simp_all add: hosted_def createViewElement_def)
qed

lemma home_helper:
  assumes "regions_inv hs rm" "name \<in> home_regions" "m \<in> models_in rm name"
  obtains h where "h \<in> set hs" "hp_model h = m" "hp_regionName h = name"
proof -
  obtain r where r: "obj_get (rm_regionsByName rm) name = Some r" "\<forall>reg \<in> set (rg_modelRegistrations r). registration_ok hs name reg"
    by (rule regions_invD [OF assms(1), of name]) (use assms(2) in auto)
  then obtain reg where "reg \<in> set (rg_modelRegistrations r)" "reg_model reg = m" using assms(3) by (auto simp: models_in_def)
  with r(2) have "registration_ok hs name reg" by blast
  moreover have "name \<noteq> RegionNames_popout" using assms(2) kind_of_simps(4) by blast
  ultimately show thesis using that \<open>reg_model reg = m\<close> unfolding registration_ok_def by metis
qed

lemma models_of_in: "set (models_of rm name) = models_in rm name"
  by (simp add: models_of_def models_in_def split: option.split)

lemma models_of_distinct: "neat rm \<Longrightarrow> distinct (models_of rm name)"
  by (simp add: neat_def models_of_def split: option.split)

text \<open>A region for one item has at most one, so both of its views show what it has.\<close>

lemma one_item:
  assumes "layout hs" "regions_inv hs rm" "neat rm" "name \<in> home_regions" "name \<noteq> RegionNames_workspace"
    and "obj_get (rm_regionsByName rm) name = Some r"
  shows "rg_modelRegistrations r = [] \<or> (\<exists>reg. rg_modelRegistrations r = [reg])"
proof -
  have same: "m = m'" if m: "m \<in> models_in rm name" "m' \<in> models_in rm name" for m m'
  proof -
    obtain h where h: "h \<in> set hs" "hp_model h = m" "hp_regionName h = name" by (rule home_helper [OF assms(2,4) m(1)])
    obtain h' where h': "h' \<in> set hs" "hp_model h' = m'" "hp_regionName h' = name" by (rule home_helper [OF assms(2,4) m(2)])
    have "h = h'" using assms(1,5) h h' unfolding layout_def by metis
    with h h' show ?thesis by simp
  qed
  have set: "models_in rm name = reg_model ` set (rg_modelRegistrations r)" using assms(6) by (simp add: models_in_def)
  have distinct: "distinct (map reg_model (rg_modelRegistrations r))" using assms(3,6) by (simp add: neat_def)
  show ?thesis
  proof (cases "rg_modelRegistrations r")
    case (Cons reg regs)
    show ?thesis
    proof (cases regs)
      case (Cons reg' regs')
      with \<open>rg_modelRegistrations r = reg # regs\<close> have "reg_model reg = reg_model reg'" by (intro same) (simp_all add: set)
      with distinct Cons \<open>rg_modelRegistrations r = reg # regs\<close> show ?thesis by simp
    qed (use Cons in simp)
  qed simp
qed

lemma hosted_page:
  assumes "layout hs" "regions_inv hs rm" "neat rm"
  shows "hosted (page_regions rm) = models_of rm RegionNames_workspace @ models_of rm RegionNames_blotter @ models_of rm RegionNames_sidebar"
    and "hosted (popout_windows rm) = models_of rm RegionNames_popout"
proof -
  obtain w where w: "obj_get (rm_regionsByName rm) RegionNames_workspace = Some w" using assms(2) by (auto elim: regions_invD)
  obtain b where b: "obj_get (rm_regionsByName rm) RegionNames_blotter = Some b" using assms(2) by (auto elim: regions_invD)
  obtain s where s: "obj_get (rm_regionsByName rm) RegionNames_sidebar = Some s" using assms(2) by (auto elim: regions_invD)
  have b1: "rg_modelRegistrations b = [] \<or> (\<exists>reg. rg_modelRegistrations b = [reg])"
    by (rule one_item [OF assms _ _ b]) (simp_all add: region_names)
  have s1: "rg_modelRegistrations s = [] \<or> (\<exists>reg. rg_modelRegistrations s = [reg])"
    by (rule one_item [OF assms _ _ s]) (simp_all add: region_names)
  have "hosts (singleItemRegionView cs b) = map reg_model (rg_modelRegistrations b)" for cs
    using b1 by (auto simp: singleItemRegionView_def smart_item_def)
  moreover have "hosted (option_elements (sidebarRegionView cs m s)) = map reg_model (rg_modelRegistrations s)" for cs m
    using s1 by (auto simp: sidebarRegionView_def hasContent_def option_elements_def hosted_def smart_item_def)
  ultimately show "hosted (page_regions rm) = models_of rm RegionNames_workspace @ models_of rm RegionNames_blotter @ models_of rm RegionNames_sidebar"
    by (simp add: page_regions_def hosted_def models_of_def w b s Let_def)
  show "hosted (popout_windows rm) = models_of rm RegionNames_popout"
    by (simp add: popout_windows_def models_of_def split: option.split) (simp add: hosted_def)
qed

lemma page_inv_step:
  assumes "layout hs" "placed hs (set hs) popped rm" "neat rm" "from_page hs rm (ev # evs)"
  shows "\<exists>popped. placed hs (set hs) popped (fst (regions_step rm ev)) \<and> neat (fst (regions_step rm ev))"
proof -
  have "\<exists>popped. placed hs (set hs) popped (fst (regions_step rm ev))"
    using placed_user [OF assms(1,2), of "[ev]"] assms(4) by simp
  moreover have "neat (fst (regions_step rm ev))"
  proof (cases ev)
    case (HelperPopout h)
    with assms(4) have h: "h \<in> set hs" "hp_model h \<in> set (hosted (page_regions rm))" by auto
    have inv: "regions_inv hs rm" using assms(2) by (simp add: placed_def)
    obtain name where name: "name \<in> home_regions" "hp_model h \<in> models_in rm name"
      using h(2) by (auto simp: hosted_page [OF assms(1) inv assms(3)] models_of_in)
    obtain h' where "h' \<in> set hs" "hp_model h' = hp_model h" "hp_regionName h' = name"
      by (rule home_helper [OF inv name])
    with distinct_helpers [OF assms(1) _ h(1)] name(2) have "hp_model h \<in> models_in rm (hp_regionName h)" by blast
    with placed_at [OF assms(2) h(1)] have "hp_model h \<notin> models_in rm RegionNames_popout" by simp
    from neat_popout [OF assms(1) h(1) inv assms(3) this] HelperPopout show ?thesis by simp
  next
    case (PopoutClosed model)
    with assms(4) obtain h where "h \<in> set hs" "model = hp_model h" by auto
    with neat_closed [OF assms(1) _ assms(2,3)] PopoutClosed show ?thesis by simp
  next
    case (ToggleIsCollapsed name)
    with assms(3) show ?thesis
      by (auto simp: neat_def obj_get_set toggleIsCollapsed_def split: option.splits if_splits)
  qed (use assms(4) in simp_all)
  ultimately show ?thesis by blast
qed

lemma page_inv_run:
  assumes "layout hs" "placed hs (set hs) popped rm" "neat rm" "from_page hs rm evs"
  shows "\<exists>popped. placed hs (set hs) popped (final_state regions_step rm evs) \<and> neat (final_state regions_step rm evs)"
  using assms(2-4)
proof (induction evs arbitrary: popped rm)
  case (Cons ev evs)
  obtain popped' where "placed hs (set hs) popped' (fst (regions_step rm ev))" "neat (fst (regions_step rm ev))"
    using page_inv_step [OF assms(1) Cons.prems] by blast
  from Cons.IH [OF this] Cons.prems(3) show ?case by simp
qed auto

lemma neat_inits:
  assumes "layout hs" "placed hs started popped rm" "neat rm" "set hs' \<subseteq> set hs" "distinct hs'" "set hs' \<inter> started = {}"
  shows "neat (final_state regions_step rm (map HelperInit hs'))"
  using assms(2-6)
proof (induction hs' arbitrary: started rm)
  case (Cons h hs')
  have "placed hs (insert h started) popped (fst (helper_init h rm))"
    by (rule placed_init [OF assms(1)]) (use Cons.prems in auto)
  moreover have "neat (fst (helper_init h rm))"
    by (rule neat_init [OF assms(1)]) (use Cons.prems in auto)
  ultimately show ?case using Cons.IH [of "insert h started"] Cons.prems by simp
qed simp

lemma page_start:
  assumes "layout hs"
  shows "\<exists>popped. placed hs (set hs) popped (session container hs [] storage) \<and> neat (session container hs [] storage)"
proof -
  let ?popped = "\<lambda>h. \<exists>saved. storage = Some saved \<and> (\<exists>name. obj_get saved (hp_model h) = Some name \<and> name \<noteq> hp_regionName h)"
  have distinct: "distinct hs" using assms by (auto simp: layout_def distinct_map)
  have "neat (application_regions container storage)"
    by (simp add: neat_def application_regions_def new_region_manager_def obj_get_set new_region_def)
  then have "neat (session container hs [] storage)"
    using neat_inits [OF assms placed_start [OF assms, of ?popped storage container], of hs] distinct by (simp add: session_def)
  with session_start [OF assms] show ?thesis by blast
qed

text \<open>A view in one list of distinct models.\<close>

lemma count_distinct: "distinct xs \<Longrightarrow> count_list xs x = (if x \<in> set xs then 1 else 0)"
  by (induction xs) auto

section \<open>Properties: the page\<close>

text \<open>C11: on the rendered screens no view is lost and none is there twice: whatever the user pops out from the
  page, closes and collapses, in the container or in a browser, and whatever state is stored at the start, each
  model is hosted exactly once, by the page or by the window of its popout.\<close>

theorem every_view_shown_once:
  assumes "layout hs" "from_page hs (session container hs [] storage) evs" "h \<in> set hs"
    and "rm = session container hs evs storage"
  shows "count_list (hosted (page_regions rm @ popout_windows rm)) (hp_model h) = 1"
proof -
  obtain popped0 where "placed hs (set hs) popped0 (session container hs [] storage)" "neat (session container hs [] storage)"
    using page_start [OF assms(1)] by blast
  moreover have "rm = final_state regions_step (session container hs [] storage) evs" by (simp add: assms(4) session_def run_append)
  ultimately obtain popped where placed: "placed hs (set hs) popped rm" and neat: "neat rm"
    using page_inv_run [OF assms(1) _ _ assms(2)] by blast
  have inv: "regions_inv hs rm" using placed by (simp add: placed_def)
  have count: "count_list (models_of rm name) (hp_model h) = (if hp_model h \<in> models_in rm name then 1 else 0)" for name
    by (simp only: count_distinct [OF models_of_distinct [OF neat]] models_of_in)
  have home: "hp_model h \<in> models_in rm name \<longleftrightarrow> hp_regionName h = name \<and> \<not> popped h" if "name \<in> home_regions" for name
  proof -
    have "hp_regionName h = name" if at: "hp_model h \<in> models_in rm name"
    proof -
      obtain h' where "h' \<in> set hs" "hp_model h' = hp_model h" "hp_regionName h' = name"
        by (rule home_helper [OF inv \<open>name \<in> home_regions\<close> at])
      with distinct_helpers [OF assms(1) _ assms(3)] show ?thesis by blast
    qed
    with placed_at [OF placed assms(3)] assms(3) show ?thesis by blast
  qed
  have "hp_regionName h \<in> home_regions" using assms(1,3) by (auto simp: layout_def)
  moreover have "hosted (xs @ ys) = hosted xs @ hosted ys" for xs ys by (simp add: hosted_def)
  ultimately show ?thesis
    using placed_at(1) [OF placed assms(3)] assms(3)
    by (auto simp: hosted_page [OF assms(1) inv neat] count home region_names)
qed

lemma every_view_shown_once_witness:
  "count_list (hosted (let rm = session True example_helpers [HelperPopout (hd example_helpers), PopoutClosed ''spotTile-EURUSD'',
      HelperPopout (example_helpers ! 1)] None in page_regions rm @ popout_windows rm)) ''blotterModelId'' = 1"
proof -
  have "layout example_helpers" by (simp add: layout_def example_helpers_def region_names)
  moreover have "from_page example_helpers (session True example_helpers [] None)
      [HelperPopout (hd example_helpers), PopoutClosed ''spotTile-EURUSD'', HelperPopout (example_helpers ! 1)]"
    by code_simp
  ultimately show ?thesis
    using every_view_shown_once [of example_helpers True None
        "[HelperPopout (hd example_helpers), PopoutClosed ''spotTile-EURUSD'', HelperPopout (example_helpers ! 1)]" "example_helpers ! 1", OF _ _ _ refl]
    by (simp add: example_helpers_def Let_def)
qed

section \<open>The session and its dialog\<close>

text \<open>The connection behind the shell. The shell subscribes to the connection's status at its \<open>init\<close> and is told the
  current one; \<open>SameStatus\<close> is not told twice (\<open>distinctUntilChanged\<close>), which the shell could not see anyway. A click
  counts if the rendered shell has an element that publishes the event.\<close>

record session_window =
  sw_connection :: connection
  sw_shell :: shell
  sw_subscribed :: bool

definition new_session_window :: session_window where
  "new_session_window = \<lparr>sw_connection = new_connection, sw_shell = new_shell, sw_subscribed = False\<rparr>"

datatype session_event = ConnectionEvent connection_event | ShellStarts | ClickReconnect

definition tell_shell :: "connection_status list \<Rightarrow> session_window \<Rightarrow> session_window" where
  "tell_shell sts w =
     (if sw_subscribed w then w\<lparr>sw_shell := final_state shell_step (sw_shell w) (map ShellConnection sts)\<rparr> else w)"

definition drive_connection :: "connection_event \<Rightarrow> session_window \<Rightarrow> session_window \<times> connection_call list" where
  "drive_connection ev w =
     (let (c, calls) = connection_step (sw_connection w) ev
      in (tell_shell (statuses calls) (w\<lparr>sw_connection := c\<rparr>), calls))"

abbreviation reconnect_click :: ui_action where
  "reconnect_click \<equiv> PublishEvent ''shellModelId'' ''reconnectClicked''"

definition offers_reconnect :: "session_window \<Rightarrow> bool" where
  "offers_reconnect w \<longleftrightarrow> reconnect_click \<in> set (actions (shellView '''' ''shellModelId'' (sw_shell w)))"

fun session_step :: "(session_window, session_event, connection_call) handler" where
  "session_step w (ConnectionEvent ev) = drive_connection ev w"
| "session_step w ShellStarts =
     (if SubscribeSessionExpired \<in> set (snd (shell_step (sw_shell w) ShellInit))
      then (tell_shell [cn_status (sw_connection w)] (w\<lparr>sw_subscribed := True\<rparr>), []) else (w, []))"
| "session_step w ClickReconnect =
     (if offers_reconnect w \<and> ConnectAgain \<in> set (snd (shell_step (sw_shell w) ReconnectClicked))
      then drive_connection Connect w else (w, []))"

lemma offers_expired: "offers_reconnect w \<longleftrightarrow> sh_sessionExpired (sw_shell w)"
  by (simp add: offers_reconnect_def shellView_def Modal_def reconnect_dialog_def option_elements_def split: if_splits)

lemma told: "sw_subscribed w \<Longrightarrow>
    sh_sessionExpired (sw_shell (tell_shell sts w)) =
      (if sts = [] then sh_sessionExpired (sw_shell w) else last sts = SessionExpired)"
proof -
  have "sh_sessionExpired (final_state shell_step s (map ShellConnection sts)) =
      (if sts = [] then sh_sessionExpired s else last sts = SessionExpired)" for s
    by (induction sts arbitrary: s) auto
  then show "sw_subscribed w \<Longrightarrow> ?thesis" by (simp add: tell_shell_def)
qed

lemma tell_shell_kept [simp]:
  "sw_connection (tell_shell sts w) = sw_connection w" "sw_subscribed (tell_shell sts w) = sw_subscribed w"
  by (simp_all add: tell_shell_def)

definition session_inv :: "session_window \<Rightarrow> bool" where
  "session_inv w \<longleftrightarrow> connection_inv (sw_connection w)
     \<and> (sw_subscribed w \<longrightarrow> (sh_sessionExpired (sw_shell w) \<longleftrightarrow> cn_status (sw_connection w) = SessionExpired))"

lemma status_told: "cn_status (fst (connection_step c ev)) = (if statuses (snd (connection_step c ev)) = [] then cn_status c
    else last (statuses (snd (connection_step c ev))))"
  by (cases ev) (auto simp: connection_defs Let_def split: option.splits)

lemma drive_inv: "session_inv w \<Longrightarrow> session_inv (fst (drive_connection ev w))"
  by (auto simp: session_inv_def drive_connection_def split_beta Let_def told status_told connection_inv_step
      simp del: connection_step.simps)

interpretation session: guarded_handler session_step session_inv "\<lambda>call. True"
proof unfold_locales
  fix w ev assume inv: "session_inv w"
  show "session_inv (fst (session_step w ev))"
  proof (cases ev)
    case ShellStarts
    with inv show ?thesis by (simp add: session_inv_def told)
  qed (use inv drive_inv in \<open>auto split: if_splits\<close>)
qed simp

lemma session_inv_new: "session_inv new_session_window"
  by (simp add: session_inv_def new_session_window_def)

lemma session_subscribed:
  "sw_subscribed w \<or> ShellStarts \<in> set evs \<Longrightarrow> sw_subscribed (final_state session_step w evs)"
proof (induction evs arbitrary: w)
  case (Cons ev evs)
  have "sw_subscribed w \<Longrightarrow> sw_subscribed (fst (session_step w ev))"
    by (cases ev) (auto simp: drive_connection_def split_beta Let_def)
  moreover have "ev = ShellStarts \<Longrightarrow> sw_subscribed (fst (session_step w ev))" by simp
  ultimately show ?case using Cons by auto
qed simp

section \<open>Properties: the session\<close>

abbreviation session_after :: "session_event list \<Rightarrow> session_window" where
  "session_after evs \<equiv> final_state session_step new_session_window evs"

text \<open>C13: an expired session is told to the user, who can start another. From the shell's start on the dialog with its
  button is rendered exactly while the status of the connection is \<open>sessionExpired\<close>. A socket that opens gets a timer of
  fifteen minutes; when it fires and the socket reports its close the dialog is there, the click on its button opens the
  socket again, and when it is open the dialog is gone.\<close>

theorem expired_session_can_be_renewed:
  assumes "ShellStarts \<in> set evs" "w = session_after evs" "socket_open = ConnectionEvent (Opened url type)"
    and "i = cn_nextTimer (sw_connection w)"
    and "expired = final_state session_step w [socket_open, ConnectionEvent (DisconnectTimer i), ConnectionEvent (Closed ''closed'')]"
  shows "(offers_reconnect w \<longleftrightarrow> cn_status (sw_connection w) = SessionExpired)
    \<and> (cn_connectCalled (sw_connection w) \<and> \<not> cn_disposed (sw_connection w) \<longrightarrow>
        ScheduleDisconnect i (15 * 60 * 1000) \<in> set (snd (session_step w socket_open))
        \<and> offers_reconnect expired \<and> snd (session_step expired ClickReconnect) = [AutobahnOpen]
        \<and> \<not> offers_reconnect (final_state session_step expired [ClickReconnect, socket_open]))"
proof -
  have inv: "session_inv w" using session_inv_new unfolding assms(2) by (rule session.run_inv)
  have sub: "sw_subscribed w" using assms(1) unfolding assms(2) by (simp add: session_subscribed)
  have dialog: "offers_reconnect u \<longleftrightarrow> cn_status (sw_connection u) = SessionExpired" if "session_inv u" "sw_subscribed u" for u
    using that by (simp add: session_inv_def offers_expired)
  have expired: "session_inv expired" "sw_subscribed expired"
    unfolding assms(5) by (rule session.run_inv [OF inv], rule session_subscribed, simp add: sub)
  have renewed: "session_inv (final_state session_step expired evs')" "sw_subscribed (final_state session_step expired evs')" for evs'
    by (rule session.run_inv [OF expired(1)], rule session_subscribed, simp add: expired(2))
  have "ScheduleDisconnect i (15 * 60 * 1000) \<in> set (snd (session_step w socket_open))
      \<and> cn_status (sw_connection expired) = SessionExpired \<and> \<not> cn_connectCalled (sw_connection expired) \<and> cn_wired (sw_connection expired)"
    if "cn_connectCalled (sw_connection w)" "\<not> cn_disposed (sw_connection w)"
    using that inv
    by (auto simp: assms(3-5) session_inv_def connection_inv_def drive_connection_def connection_defs Let_def
        DISCONNECT_SESSION_AFTER_def split: option.splits)
  moreover have "snd (session_step expired ClickReconnect) = [AutobahnOpen]
      \<and> cn_status (sw_connection (final_state session_step expired [ClickReconnect, socket_open])) = Connected"
    if "cn_status (sw_connection expired) = SessionExpired" "\<not> cn_connectCalled (sw_connection expired)" "cn_wired (sw_connection expired)"
    using that dialog [OF expired]
    by (auto simp: assms(3) drive_connection_def connection_defs Let_def split: option.splits)
  moreover note dialog [OF inv sub] dialog [OF expired] dialog [OF renewed [of "[ClickReconnect, socket_open]"]]
  ultimately show ?thesis by (auto simp del: run_Cons session_step.simps)
qed

lemma expired_session_can_be_renewed_witness:
  "offers_reconnect (session_after [ShellStarts, ConnectionEvent Connect, ConnectionEvent (Opened ''ws://broker'' ''websocket''),
     ConnectionEvent (DisconnectTimer 0), ConnectionEvent (Closed ''closed'')])"
  using expired_session_can_be_renewed [of "[ShellStarts, ConnectionEvent Connect]" _ _ "''ws://broker''" "''websocket''", OF _ refl refl refl refl]
  by (simp add: new_session_window_def new_connection_def drive_connection_def connection_connect_def)

section \<open>The tile on the screen\<close>

text \<open>The events of the tile without arguments, by the names its handlers observe, and what an action on the rendered
  tile makes the model see.\<close>

definition tile_observes :: "string \<Rightarrow> tile_event option" where
  "tile_observes eventType =
     map_of [(''init'', TileInit), (''tileClosed'', TileClosed), (''popOutTile'', PopOutTile), (''undockTile'', UndockTile),
       (''displayCurrencyChart'', DisplayCurrencyChart), (''tradeNotificationDismissed'', TradeNotificationDismissed)] eventType"

fun tile_clicked :: "spot_tile \<Rightarrow> ui_action \<Rightarrow> tile_event list option" where
  "tile_clicked t (PublishEvent modelId eventType) =
     (if modelId = stl_modelId t then map_option (\<lambda>ev. [ev]) (tile_observes eventType) else None)"
| "tile_clicked t (TradeOn direction) = Some (onExecuteTrade t direction)"
| "tile_clicked t action = None"

text \<open>A notification that can be rendered, and a tile that has been started.\<close>

definition tile_up :: "spot_tile \<Rightarrow> bool" where
  "tile_up t \<longleftrightarrow> stl_notification t \<noteq> Some (TradeExecutionNotification None None) \<and> stl_tileName t \<noteq> None"

fun says_what :: "tile_event \<Rightarrow> bool" where
  "says_what (ExecutionResponse i response) = (rs_hasError response \<or> rs_trade response \<noteq> None)"
| "says_what ev = True"

lemma execution_says_what:
  assumes "ev \<in> set (List.map_filter (to_tile i) (snd (execution_step request parse_date x (lookup, e))))"
  shows "says_what ev"
proof -
  have respond: "rs_hasError r \<or> rs_trade r \<noteq> None"
    if "Respond r \<in> set (snd (execution_step request parse_date x (lookup, e)))" for r
    using that
    by (cases e) (auto simp: response_create_def response_createForError_def timeout_response_def Let_def execution_defs
        split: if_splits sum.splits prod.splits option.splits)
  obtain call where "call \<in> set (snd (execution_step request parse_date x (lookup, e)))" "to_tile i call = Some ev"
    using assms by (auto simp: map_filter_def)
  with respond show ?thesis by (cases call) auto
qed

lemma tile_up_step: "tile_up t \<Longrightarrow> says_what ev \<Longrightarrow> tile_up (fst (tile_step fmt fin t ev))"
  by (cases ev) (auto simp: tile_up_def tile_defs Let_def notification_createForError_def notification_createForSuccess_def
      split: option.splits sum.splits execution_purpose.splits)

lemma tile_up_run: "tile_up t \<Longrightarrow> \<forall>ev \<in> set evs. says_what ev \<Longrightarrow> tile_up (final_state (tile_step fmt fin) t evs)"
  by (induction evs arbitrary: t) (simp_all add: tile_up_step del: tile_step.simps)

lemma says_what_environment: "from_environment (Inl ev) \<Longrightarrow> says_what ev"
  by (cases ev) auto

lemma tile_up_field:
  assumes "tile_up t" "from_environment ev"
  shows "tile_up (fst (tile_with_field nfmt fmt fin t ev))"
proof (cases ev)
  case (Inl e)
  with assms tile_up_step [OF assms(1), of e fmt fin] says_what_environment [of e] show ?thesis
    by (cases e) (simp_all del: tile_step.simps)
next
  case (Inr i)
  have "\<forall>e \<in> set (notional_events r). says_what e" for r
    by (auto simp: notional_events_def map_filter_def split: sum.splits input_call.splits)
  with tile_up_run [OF assms(1)] Inr show ?thesis by simp
qed

interpretation tile_up: guarded_handler "trading_step nfmt fmt fin parse_date" "\<lambda>s. tile_up (tg_tile s)" "\<lambda>call. True"
  for nfmt fmt fin parse_date
proof unfold_locales
  fix s :: trading and ev assume up: "tile_up (tg_tile s)"
  show "tile_up (tg_tile (fst (trading_step nfmt fmt fin parse_date s ev)))"
  proof (cases ev)
    case (TileEvent e)
    with tile_up_field [OF up] up show ?thesis by (simp add: split_beta Let_def del: tile_with_field.simps from_environment.simps)
  next
    case (ExecutionEvent i lookup e)
    have "\<forall>ev \<in> set (List.map_filter (to_tile i) (snd (execution_step request parse_date x (lookup, e)))). says_what ev" for request x
      using execution_says_what by blast
    with tile_up_run [OF up] up ExecutionEvent show ?thesis by (simp add: split_beta Let_def)
  qed
qed simp

text \<open>What can be done to a rendered tile.\<close>

lemma tile_actions:
  assumes "spotTileView vf fin canPopout t = Inr h"
  shows "set (actions h) =
    {PublishEvent (stl_modelId t) ''displayCurrencyChart'', PublishEvent (stl_modelId t) ''popOutTile'', PublishEvent (stl_modelId t) ''undockTile''}
    \<union> (case stl_notification t of
         None \<Rightarrow> FieldInput ` {''onClick'', ''onChange'', ''onBlur'', ''onKeyPress''}
           \<union> (case stl_currentSpotPrice t of None \<Rightarrow> {} | Some price \<Rightarrow> {TradeOn Sell, TradeOn Buy})
       | Some (TextNotification m) \<Rightarrow> {}
       | Some (TradeExecutionNotification trade err) \<Rightarrow> {PublishEvent (stl_modelId t) ''tradeNotificationDismissed''})"
  using assms
  by (auto simp: spotTileView_def tryCreateNotification_def TradeNotification_def detail_items_def createPriceComponents_def
      PriceButton_def PriceMovementIndicator_def NotionalInput_def Let_def bind_result_def
      split: option.splits notification.splits)

lemma tile_renders: "tile_up t \<Longrightarrow> \<exists>h. spotTileView vf fin canPopout t = Inr h"
  by (auto simp: tile_up_def spotTileView_def tryCreateNotification_def TradeNotification_def Let_def bind_result_def
      split: option.splits notification.splits)

text \<open>C9: the screen of a tile cannot go wrong. Whatever the user, the prices, the container and the backend do, a tile that
  has been started renders; every element of it that publishes an event names the tile's own model and an event the model
  observes; no click on it makes the model throw, though asking for a trade without a price would; and the two price
  buttons are there exactly when there is a price and no notification covers it.\<close>

theorem tile_screen_is_safe:
  assumes "s = final_state (trading_step nfmt fmt fin parse_date) (new_trading modelId pair) (TileEvent (Inl TileInit) # evs)"
  shows "\<exists>h. spotTileView vf fin canPopout (tg_tile s) = Inr h
    \<and> (\<forall>a \<in> set (actions h). (\<exists>k. a = FieldInput k) \<or>
         (\<exists>clicked. tile_clicked (tg_tile s) a = Some clicked \<and>
            (\<forall>e. Throw e \<notin> set (outputs (tile_step fmt fin) (tg_tile s) clicked))))
    \<and> (\<forall>d. TradeOn d \<in> set (actions h) \<longleftrightarrow> stl_notification (tg_tile s) = None \<and> stl_currentSpotPrice (tg_tile s) \<noteq> None)"
proof -
  let ?start = "fst (trading_step nfmt fmt fin parse_date (new_trading modelId pair) (TileEvent (Inl TileInit)))"
  have "tile_up (tg_tile ?start)"
    by (simp add: new_trading_def new_spot_tile_def tile_up_def split_beta Let_def)
  then have up: "tile_up (tg_tile s)" unfolding assms run_Cons by (rule tile_up.run_inv)
  then obtain h where h: "spotTileView vf fin canPopout (tg_tile s) = Inr h" using tile_renders by blast
  have trade: "Throw e \<notin> set (outputs (tile_step fmt fin) (tg_tile s) (onExecuteTrade (tg_tile s) d))"
    if "stl_currentSpotPrice (tg_tile s) \<noteq> None" for d e
    using that by (auto simp: onExecuteTrade_def tile_defs split: option.splits)
  have "\<exists>clicked. tile_clicked (tg_tile s) a = Some clicked \<and> (\<forall>e. Throw e \<notin> set (outputs (tile_step fmt fin) (tg_tile s) clicked))"
    if "a \<in> set (actions h)" "\<nexists>k. a = FieldInput k" for a
    using that up trade unfolding tile_actions [OF h]
    by (auto simp: tile_observes_def tile_up_def updatePricingDownStatusNotification_def split: option.splits notification.splits)
  moreover have "TradeOn d \<in> set (actions h) \<longleftrightarrow> stl_notification (tg_tile s) = None \<and> stl_currentSpotPrice (tg_tile s) \<noteq> None" for d
    unfolding tile_actions [OF h] by (cases d) (auto split: option.splits notification.splits)
  ultimately show ?thesis using h by blast
qed

definition example_view_formats :: view_formats where
  "example_view_formats = \<lparr>vf_numeral = (\<lambda>f n. f), vf_numeral_text = (\<lambda>s. ''0''), vf_time = (\<lambda>f d. f), vf_moment = (\<lambda>f s. f)\<rparr>"

lemma tile_screen_is_safe_witness:
  "\<exists>h. spotTileView example_view_formats (new_openfin False) True
     (tg_tile (final_state (trading_step (\<lambda>n dot. []) example_formats (new_openfin False) (\<lambda>d. None))
       (new_trading ''tile'' (new_currency_pair ''EURUSD'' 5 4)) [TileEvent (Inl TileInit), TileEvent (Inl (ServicesConnected True True))])) = Inr h"
  using tile_screen_is_safe [OF refl, of example_view_formats "new_openfin False" True "\<lambda>n dot. []" example_formats "\<lambda>d. None"
      "''tile''" "new_currency_pair ''EURUSD'' 5 4" "[TileEvent (Inl (ServicesConnected True True))]"]
  by blast

section \<open>The blotter's table\<close>

text \<open>The texts of a row as the table's columns give them for the widths it chose, and the texts a trade should have.\<close>

definition table_row :: "data_table \<Rightarrow> (string \<Rightarrow> nat) \<Rightarrow> nat \<Rightarrow> string result list" where
  "table_row table widths i = map (\<lambda>c. bind_result (tc_cell c i (widths (tc_key c))) (\<lambda>h. Inr (says h))) (dt_columns table)"

definition trade_texts :: "view_formats \<Rightarrow> trade \<Rightarrow> string list" where
  "trade_texts vf t =
     [js_String (Num (of_int (tr_tradeId t))), vf_time vf ''%e-%b %H:%M:%S'' (tr_tradeDate t),
      (case tr_direction t of Buy \<Rightarrow> ''BUY'' | Sell \<Rightarrow> ''SELL''), cp_symbol (tr_currencyPair t),
      vf_numeral vf ''0,000,000[.]00'' (tr_notional t) @ '' '' @ cp_base (tr_currencyPair t), js_String (Num (tr_spotRate t)),
      (case tr_status t of Pending \<Rightarrow> ''Pending'' | Done \<Rightarrow> ''Done'' | Rejected \<Rightarrow> ''Rejected''),
      ''SP. '' @ vf_time vf ''%d %b'' (tr_valueDate t), tr_traderName t]"

lemma upper_names: "map to_upper (direction_name d) = (case d of Buy \<Rightarrow> ''BUY'' | Sell \<Rightarrow> ''SELL'')"
proof -
  have "map to_upper (direction_name Buy) = ''BUY''" "map to_upper (direction_name Sell) = ''SELL''" by code_simp+
  then show ?thesis by (cases d) (simp_all only: direction.case)
qed

lemma status_name: "trade_status_name s = (case s of Pending \<Rightarrow> ''Pending'' | Done \<Rightarrow> ''Done'' | Rejected \<Rightarrow> ''Rejected'')"
  by (cases s) simp_all

lemma lower_status:
  "map to_lower (trade_status_name s) = (case s of Pending \<Rightarrow> ''pending'' | Done \<Rightarrow> ''done'' | Rejected \<Rightarrow> ''rejected'')"
proof -
  have "map to_lower (trade_status_name Pending) = ''pending''" "map to_lower (trade_status_name Done) = ''done''"
    "map to_lower (trade_status_name Rejected) = ''rejected''" by code_simp+
  then show ?thesis by (cases s) (simp_all only: trade_status.case)
qed

lemma table_row_texts:
  assumes "i < length (bl_trades b)"
  shows "table_row (bp_table (blotterView vf canPopout sz modelId b)) widths i = map Inr (trade_texts vf (row_trade (bl_trades b ! i)))"
  using assms
  by (simp add: table_row_def blotterView_def createGridColumns_def cell_of_def DateCell_def NotionalCell_def trade_texts_def
      bind_result_def upper_names status_name Let_def)

lemma row_class:
  assumes "i < length (bl_trades b)" "row = bl_trades b ! i"
  shows "dt_rowClassNameGetter (bp_table (blotterView vf canPopout sz modelId b)) i =
    Inr [(''blotter__trade'', True), (''blotter__trade--new'', row_isNew row), (''blotter__trade--highlighted'', row_isInFocus row),
      (''blotter__trade--rejected'', tr_status (row_trade row) = Rejected), (''blotter__trade--processing'', False)]"
  using assms by (simp add: blotterView_def getRowClass_def lower_status Let_def split: trade_status.split)

text \<open>C10: what the user reads in the blotter. After any sequence of updates, states of the world, highlights and changes of
  the connection the table has a row for each of the last trades received under their identifiers and no other row; the
  nine cells of a row read the fields of its trade, none fails to render, and the row is marked rejected exactly for a
  rejected trade (and processing for none: no status has that name).\<close>

theorem blotter_table_shows_trades:
  assumes "sorts_by_key sortBy" "\<forall>ev \<in> set evs. distinct_world ev"
    and "b = final_state (blotter_step sortBy fin fmt) new_blotter evs"
    and "table = bp_table (blotterView vf canPopout sz modelId b)"
  shows "\<exists>ts. distinct (map tr_tradeId ts) \<and> set ts = ran (foldl trade_map_step Map.empty evs)
    \<and> dt_rowsCount table = length ts
    \<and> (\<forall>i < length ts. table_row table widths i = map Inr (trade_texts vf (ts ! i))
        \<and> (\<exists>cs. dt_rowClassNameGetter table i = Inr cs
            \<and> ((''blotter__trade--rejected'', True) \<in> set cs \<longleftrightarrow> tr_status (ts ! i) = Rejected)
            \<and> (''blotter__trade--processing'', True) \<notin> set cs))"
proof -
  let ?ts = "map row_trade (bl_trades b)"
  have "distinct_rows new_blotter" "trade_map (bl_trades new_blotter) = Map.empty"
    by (simp_all add: distinct_rows_def new_blotter_def trade_map_def)
  then have rows: "distinct (row_ids (bl_trades b))" "trade_map (bl_trades b) = foldl trade_map_step Map.empty evs"
    using distinct_rows_run [OF assms(1) _ assms(2)] blotter_run_map [OF assms(1), of fin fmt new_blotter evs]
    by (simp_all add: assms(3) distinct_rows_def)
  have "distinct (map tr_tradeId ?ts)" "set ?ts = ran (foldl trade_map_step Map.empty evs)"
    using rows distinct_rows_ran [OF rows(1)] by (simp_all add: o_def)
  moreover have "dt_rowsCount table = length ?ts" by (simp add: assms(4) blotterView_def)
  moreover have "table_row table widths i = map Inr (trade_texts vf (?ts ! i))" if "i < length ?ts" for i
    using that table_row_texts by (simp add: assms(4))
  moreover have "\<exists>cs. dt_rowClassNameGetter table i = Inr cs
      \<and> ((''blotter__trade--rejected'', True) \<in> set cs \<longleftrightarrow> tr_status (?ts ! i) = Rejected)
      \<and> (''blotter__trade--processing'', True) \<notin> set cs" if "i < length ?ts" for i
    using that row_class [OF _ refl, of i b] by (simp add: assms(4))
  ultimately show ?thesis by blast
qed

lemma blotter_table_shows_trades_witness:
  "\<exists>ts. set ts = {example_trade 7 Rejected}
     \<and> dt_rowsCount (bp_table (blotterView example_view_formats True (0, 0) ''blotterModelId''
         (final_state (blotter_step sort_key (new_openfin False) example_formats) new_blotter
           [BlotterTrades \<lparr>tu_isStateOfTheWorld = True, tu_isStale = False, tu_trades = [example_trade 7 Pending]\<rparr>,
            BlotterTrades \<lparr>tu_isStateOfTheWorld = False, tu_isStale = False, tu_trades = [example_trade 7 Rejected]\<rparr>]))) = length ts"
proof -
  let ?evs = "[BlotterTrades \<lparr>tu_isStateOfTheWorld = True, tu_isStale = False, tu_trades = [example_trade 7 Pending]\<rparr>,
      BlotterTrades \<lparr>tu_isStateOfTheWorld = False, tu_isStale = False, tu_trades = [example_trade 7 Rejected]\<rparr>]"
  have "\<forall>ev \<in> set ?evs. distinct_world ev" by simp
  from blotter_table_shows_trades [OF sort_key_sorts this refl refl, where fin = "new_openfin False" and fmt = example_formats
      and vf = example_view_formats and canPopout = True and sz = "(0, 0)" and modelId = "''blotterModelId''" and widths = "\<lambda>k. 50"]
  obtain ts where "set ts = ran (foldl trade_map_step Map.empty ?evs)"
    "dt_rowsCount (bp_table (blotterView example_view_formats True (0, 0) ''blotterModelId''
       (final_state (blotter_step sort_key (new_openfin False) example_formats) new_blotter ?evs))) = length ts" by blast
  moreover have "foldl trade_map_step Map.empty ?evs = [7 \<mapsto> example_trade 7 Rejected]"
    by (simp add: example_trade_def fun_eq_iff)
  moreover have "ran [7 \<mapsto> example_trade 7 Rejected] = {example_trade 7 Rejected}" by (auto simp: ran_def)
  ultimately have "set ts = {example_trade 7 Rejected}" by simp
  then show ?thesis using \<open>dt_rowsCount _ = length ts\<close> by blast
qed

section \<open>Every event a view publishes is observed\<close>

text \<open>The names the handlers of the other models observe, for the models the views publish to.\<close>

definition shell_observes :: "string \<Rightarrow> shell_event option" where
  "shell_observes eventType = map_of [(''init'', ShellInit), (''reconnectClicked'', ReconnectClicked)] eventType"

definition chrome_observes :: "string \<Rightarrow> string \<Rightarrow> chrome_event option" where
  "chrome_observes window_state eventType =
     map_of [(''init'', ChromeInit), (''minimizeClicked'', MinimizeClicked), (''maximizeClicked'', MaximizeClicked window_state),
       (''closeClicked'', CloseClicked)] eventType"

definition footer_observes :: "openfin \<Rightarrow> string \<Rightarrow> status_event option" where
  "footer_observes fin eventType =
     map_of [(''init'', FooterInit (of_running fin)), (''toggleServiceStatus'', ToggleServiceStatus)] eventType"

definition sidebar_observes :: "string \<Rightarrow> region_event option" where
  "sidebar_observes eventType = map_of [(''toggleIsCollapsed'', ToggleIsCollapsed RegionNames_sidebar)] eventType"

definition blotter_observes :: "string \<Rightarrow> blotter_event option" where
  "blotter_observes eventType =
     map_of [(''init'', BlotterInit), (''referenceDataLoaded'', BlotterReferenceDataLoaded), (''tearOffBlotter'', TearOffBlotter)] eventType"

definition analytics_observes :: "string \<Rightarrow> analytics_event option" where
  "analytics_observes eventType =
     map_of [(''init'', AnalyticsInit), (''referenceDataLoaded'', AnalyticsReferenceDataLoaded), (''popOutAnalytics'', PopOutAnalytics)] eventType"

lemma shell_events_observed:
  "PublishEvent m e \<in> set (actions (shellView v modelId s)) \<Longrightarrow> m = modelId \<and> shell_observes e = Some ReconnectClicked"
  by (auto simp: shellView_def Modal_def reconnect_dialog_def option_elements_def shell_observes_def split: if_splits)

lemma chrome_events_observed:
  "PublishEvent m e \<in> set (actions (chromeView modelId c [])) \<Longrightarrow>
     m = modelId \<and> chrome_observes window_state e \<in> {Some MinimizeClicked, Some (MaximizeClicked window_state), Some CloseClicked}"
  by (auto simp: chromeView_def OpenFinChrome_def BrowserChrome_def header_control_def chrome_observes_def split: if_splits)

lemma no_item_actions: "actions (service_item online label) = []"
  by (simp add: service_item_def)

lemma footer_events_observed:
  "PublishEvent m e \<in> set (actions (footerView modelId f)) \<Longrightarrow> m = modelId \<and> footer_observes fin e = Some ToggleServiceStatus"
  by (auto simp: footerView_def StatusIndicator_def renderServiceItems_def renderBrokerStatus_def renderServiceItem_def map_filter_def
      no_item_actions footer_observes_def)

lemma sidebar_events_observed:
  "sidebarRegionView cs modelId r = Some h \<Longrightarrow> PublishEvent m e \<in> set (actions h) \<Longrightarrow>
     m = modelId \<and> sidebar_observes e = Some (ToggleIsCollapsed RegionNames_sidebar)"
  by (auto simp: sidebarRegionView_def smart_item_def sidebar_observes_def split: if_splits)

lemma blotter_events_observed:
  "PublishEvent m e \<in> set (actions (bp_controls (blotterView vf canPopout sz modelId b))) \<Longrightarrow>
     m = modelId \<and> blotter_observes e = Some TearOffBlotter"
  by (auto simp: blotterView_def blotter_observes_def)

lemma no_bar_actions: "actions (bar_html (pnlBarView vf bounds widths pos maxVal)) = []"
  by (simp add: pnlBarView_def renderedLabel_def Let_def split_beta)

lemma analytics_events_observed:
  "PublishEvent m e \<in> set (actions (analyticsView vf bounds widths canPopout modelId a)) \<Longrightarrow>
     m = modelId \<and> analytics_observes e = Some PopOutAnalytics"
  by (auto simp: analyticsView_def createPnlComponents_def createPositionsChart_def createPnlSliders_def no_bar_actions
      analytics_observes_def split_beta Let_def split: if_splits option.splits)

end
