(* ===== verification/Workspace.thy ===== *)
theory Workspace imports Pages TileLoader begin

text \<open>
  The tiles on the screen: the loader of \<open>spotTileLoader.js\<close> with the regions its tiles live in. The loader publishes
  \<open>init\<close> and \<open>tileClosed\<close> to a tile's model; \<open>_onInit\<close> of \<open>spotTileModel.js\<close> puts the tile into the workspace, or
  into the window it was last popped out to, and \<open>_onTileClosed\<close> takes it out of the workspace. A click on the page
  pops a tile out, closing its window puts it back.
\<close>

section \<open>State and steps\<close>

record workspace =
  wk_loader :: tile_loader
  wk_regions :: region_manager

datatype workspace_event =
    PairUpdate currency_pair_update
  | PopOut string
  | CloseWindow string

definition new_workspace :: "bool \<Rightarrow> string object option \<Rightarrow> workspace" where
  "new_workspace isRunningInOpenFin storage =
     \<lparr>wk_loader = new_tile_loader, wk_regions = application_regions isRunningInOpenFin storage\<rparr>"

text \<open>The region helper a tile makes for itself.\<close>

definition tile_helper :: "string \<Rightarrow> region_helper" where
  "tile_helper symbol =
     \<lparr>hp_regionName = RegionNames_workspace, hp_model = createSpotTileModelId symbol,
      hp_regionSettings = \<lparr>rs_title = symbol @ '' Spot'', rs_width = 370, rs_height = 155, rs_dockable = True\<rparr>\<rparr>"

text \<open>What an event published to the tile of a symbol does to the regions.\<close>

fun tile_regions :: "string \<Rightarrow> loader_call \<Rightarrow> region_event option" where
  "tile_regions symbol (CreateTile modelId pair) = None"
| "tile_regions symbol (PublishInit modelId) = Some (HelperInit (tile_helper symbol))"
| "tile_regions symbol (PublishTileClosed modelId) = Some (HelperRemove (tile_helper symbol))"

fun workspace_step :: "model_router \<Rightarrow> (workspace, workspace_event, region_call) handler" where
  "workspace_step addModel w (PairUpdate u) =
     (let (loader, calls) = loader_update addModel (wk_loader w) u;
          (rm, os) = run regions_step (wk_regions w) (List.map_filter (tile_regions (cp_symbol (cpu_currencyPair u))) calls)
      in (\<lparr>wk_loader = loader, wk_regions = rm\<rparr>, os))"
| "workspace_step addModel w (PopOut symbol) =
     (let (rm, os) = regions_step (wk_regions w) (HelperPopout (tile_helper symbol)) in (w\<lparr>wk_regions := rm\<rparr>, os))"
| "workspace_step addModel w (CloseWindow symbol) =
     (let (rm, os) = regions_step (wk_regions w) (PopoutClosed (createSpotTileModelId symbol)) in (w\<lparr>wk_regions := rm\<rparr>, os))"

text \<open>The user clicks what is there. The second predicate excludes the removal of a pair whose tile is in a window.\<close>

definition possible :: "workspace \<Rightarrow> workspace_event \<Rightarrow> bool" where
  "possible w ev \<longleftrightarrow>
     (case ev of
        PairUpdate u \<Rightarrow> True
      | PopOut symbol \<Rightarrow> createSpotTileModelId symbol \<in> set (hosted (page_regions (wk_regions w)))
      | CloseWindow symbol \<Rightarrow> createSpotTileModelId symbol \<in> set (hosted (popout_windows (wk_regions w))))"

definition removes_from_page :: "workspace \<Rightarrow> workspace_event \<Rightarrow> bool" where
  "removes_from_page w ev \<longleftrightarrow>
     (case ev of
        PairUpdate u \<Rightarrow> cpu_updateType u = Removed \<longrightarrow>
          createSpotTileModelId (cp_symbol (cpu_currencyPair u)) \<notin> set (hosted (popout_windows (wk_regions w)))
      | _ \<Rightarrow> True)"

fun tame :: "model_router \<Rightarrow> workspace \<Rightarrow> workspace_event list \<Rightarrow> bool" where
  "tame addModel w [] = True"
| "tame addModel w (ev # evs) =
     (possible w ev \<and> removes_from_page w ev \<and> tame addModel (fst (workspace_step addModel w ev)) evs)"

fun pair_updates :: "workspace_event list \<Rightarrow> currency_pair_update list" where
  "pair_updates [] = []"
| "pair_updates (PairUpdate u # evs) = u # pair_updates evs"
| "pair_updates (ev # evs) = pair_updates evs"

section \<open>Lemmas\<close>

lemma tile_helper_simps [simp]:
  "hp_regionName (tile_helper s) = RegionNames_workspace" "hp_model (tile_helper s) = createSpotTileModelId s"
  "tile_helper s = tile_helper s' \<longleftrightarrow> s = s'"
  by (auto simp: tile_helper_def)

lemma tiles_layout: "distinct symbols \<Longrightarrow> layout (map tile_helper symbols)"
  by (auto simp: layout_def distinct_map o_def inj_on_def)

text \<open>Taking a model out of its own region does nothing to one that is popped out.\<close>

lemma placed_remove:
  assumes "layout hs" "h \<in> set hs" "placed hs started popped rm"
  shows "\<exists>popped'. placed hs (if popped h then started else started - {h}) popped' (fst (helper_removeFromRegion h rm))
    \<and> (popped h \<longrightarrow> popped' = popped)"
proof -
  have home: "hp_regionName h \<in> home_regions" using assms(1,2) by (auto simp: layout_def)
  then have name: "hp_regionName h \<in> insert RegionNames_popout home_regions" "hp_regionName h \<noteq> RegionNames_popout"
    by (auto simp: region_names)
  obtain rm1 c1 o1 where rm1: "manager_removeFromRegion (hp_regionName h) (hp_model h) None False rm = (rm1, c1, o1)"
    by (metis prod_cases3)
  have inv: "regions_inv hs rm" using assms(3) by (simp add: placed_def)
  note one = remove_from [OF inv name(1) rm1]
  have same: "shouldPopoutFromRegion rm1 = shouldPopoutFromRegion rm" by (rule should_popout_cong) (rule one(3))
  have others: "hp_model h' \<noteq> hp_model h" if "h' \<in> set hs" "h' \<noteq> h" for h'
    using distinct_helpers [OF assms(1) that(1) assms(2)] that(2) by blast
  define popped' where "popped' = (if popped h then popped else popped(h := shouldPopoutFromRegion rm (hp_regionName h) (hp_model h)))"
  have "placed hs (if popped h then started else started - {h}) popped' rm1"
    unfolding placed_def
  proof (intro conjI ballI)
    show "regions_inv hs rm1" by (rule one(1))
    fix h' assume h': "h' \<in> set hs"
    have popout: "hp_regionName h' \<noteq> RegionNames_popout" using assms(1) h' by (auto simp: layout_def region_names)
    note p = assms(3) [unfolded placed_def, THEN conjunct2, rule_format, OF h']
    show "hp_model h' \<in> models_in rm1 RegionNames_popout \<longleftrightarrow> h' \<in> (if popped h then started else started - {h}) \<and> popped' h'"
      using p name(2) by (cases "h' = h") (auto simp: one(2) popped'_def)
    show "hp_model h' \<in> models_in rm1 (hp_regionName h') \<longleftrightarrow> h' \<in> (if popped h then started else started - {h}) \<and> \<not> popped' h'"
      using p others [OF h'] by (cases "h' = h") (auto simp: one(2) popped'_def)
    show "rm_persistRegionConfiguration rm1 \<or> h' \<notin> (if popped h then started else started - {h}) \<longrightarrow>
        shouldPopoutFromRegion rm1 (hp_regionName h') (hp_model h') = popped' h'"
      using p by (cases "h' = h") (auto simp: same one(4) popped'_def)
  qed
  moreover have "popped h \<longrightarrow> popped' = popped" by (simp add: popped'_def)
  ultimately show ?thesis by (auto simp: helper_removeFromRegion_def rm1)
qed

lemma neat_helper_remove:
  assumes "neat rm"
  shows "neat (fst (helper_removeFromRegion h rm))"
proof -
  obtain rm1 c1 o1 where rm1: "manager_removeFromRegion (hp_regionName h) (hp_model h) None False rm = (rm1, c1, o1)"
    by (metis prod_cases3)
  with neat_remove [OF assms this] show ?thesis by (simp add: helper_removeFromRegion_def)
qed

lemma popout_helper:
  assumes "regions_inv hs rm" "m \<in> models_in rm RegionNames_popout"
  shows "m \<in> hp_model ` set hs"
proof -
  obtain r where r: "obj_get (rm_regionsByName rm) RegionNames_popout = Some r"
    "\<forall>reg \<in> set (rg_modelRegistrations r). registration_ok hs RegionNames_popout reg"
    by (rule regions_invD [OF assms(1) insertI1]) (use that in simp)
  obtain reg where "reg \<in> set (rg_modelRegistrations r)" "m = reg_model reg" using assms(2) r(1) by (auto simp: models_in_def)
  with r(2) show ?thesis by (force simp: registration_ok_def)
qed

abbreviation has_tile :: "workspace \<Rightarrow> string \<Rightarrow> bool" where
  "has_tile w symbol \<equiv> obj_has (tl_tiles (wk_loader w)) symbol"

definition workspace_ok :: "string list \<Rightarrow> (region_helper \<Rightarrow> bool) \<Rightarrow> workspace \<Rightarrow> bool" where
  "workspace_ok symbols popped w \<longleftrightarrow> loader_ok (wk_loader w) \<and> {s. has_tile w s} \<subseteq> set symbols
     \<and> placed (map tile_helper symbols) (tile_helper ` {s. has_tile w s}) popped (wk_regions w)
     \<and> neat (wk_regions w)"

text \<open>A tile with a window is in the registry and popped out, one on the page is in the registry and is not.\<close>

lemma shown_tile:
  assumes "distinct symbols" "workspace_ok symbols popped w"
  shows "m \<in> set (hosted (popout_windows (wk_regions w))) \<longleftrightarrow>
      (\<exists>s. m = createSpotTileModelId s \<and> has_tile w s \<and> popped (tile_helper s))"
    and "m \<in> set (hosted (page_regions (wk_regions w))) \<longleftrightarrow>
      (\<exists>s. m = createSpotTileModelId s \<and> has_tile w s \<and> \<not> popped (tile_helper s))"
proof -
  let ?rm = "wk_regions w" and ?hs = "map tile_helper symbols" and ?has = "{s. has_tile w s}"
  note layout = tiles_layout [OF assms(1)]
  have ok: "?has \<subseteq> set symbols" "placed ?hs (tile_helper ` ?has) popped ?rm" "neat ?rm"
    using assms(2) by (auto simp: workspace_ok_def)
  have inv: "regions_inv ?hs ?rm" using ok(2) by (simp add: placed_def)
  note page = hosted_page [OF layout inv ok(3)]
  have popout: "createSpotTileModelId s \<in> models_in ?rm RegionNames_popout \<longleftrightarrow> has_tile w s \<and> popped (tile_helper s)"
    if "s \<in> set symbols" for s using placed_at(1) [OF ok(2), of "tile_helper s"] that by auto
  have home: "createSpotTileModelId s \<in> models_in ?rm RegionNames_workspace \<longleftrightarrow> has_tile w s \<and> \<not> popped (tile_helper s)"
    if "s \<in> set symbols" for s using placed_at(2) [OF ok(2), of "tile_helper s"] that by auto
  show "m \<in> set (hosted (popout_windows ?rm)) \<longleftrightarrow> (\<exists>s. m = createSpotTileModelId s \<and> has_tile w s \<and> popped (tile_helper s))"
    unfolding page(2) models_of_in using popout popout_helper [OF inv, of m] ok(1) by auto
  have at_home: "\<exists>s \<in> set symbols. m = createSpotTileModelId s \<and> name = RegionNames_workspace"
    if m: "m \<in> models_in ?rm name" "name \<in> home_regions" for name
  proof -
    obtain h where "h \<in> set ?hs" "hp_model h = m" "hp_regionName h = name" by (rule home_helper [OF inv m(2) m(1)])
    then show ?thesis by auto
  qed
  have "m \<in> set (hosted (page_regions ?rm)) \<longleftrightarrow> m \<in> models_in ?rm RegionNames_workspace"
    using at_home [of RegionNames_blotter] at_home [of RegionNames_sidebar] by (auto simp: page(1) models_of_in region_names)
  then show "m \<in> set (hosted (page_regions ?rm)) \<longleftrightarrow> (\<exists>s. m = createSpotTileModelId s \<and> has_tile w s \<and> \<not> popped (tile_helper s))"
    using home at_home [of RegionNames_workspace] ok(1) by auto
qed

text \<open>The loader of the workspace is the loader on the updates of the pairs.\<close>

lemma workspace_loader: "wk_loader (fst (workspace_step addModel w (PairUpdate u))) = fst (loader_update addModel (wk_loader w) u)"
  by (simp add: split_beta Let_def)

lemma workspace_regions: "wk_regions (fst (workspace_step addModel w (PairUpdate u))) =
    final_state regions_step (wk_regions w)
      (List.map_filter (tile_regions (cp_symbol (cpu_currencyPair u))) (snd (loader_update addModel (wk_loader w) u)))"
  by (simp add: split_beta Let_def)

text \<open>An update that makes no tile and closes none.\<close>

lemma workspace_idle:
  assumes "workspace_ok symbols popped w"
    and "snd (loader_update addModel (wk_loader w) u) = []"
    and "tl_tiles (fst (loader_update addModel (wk_loader w) u)) = tl_tiles (wk_loader w)"
  shows "workspace_ok symbols popped (fst (workspace_step addModel w (PairUpdate u)))"
proof -
  have "loader_ok (fst (loader_update addModel (wk_loader w) u))"
    using assms(1) by (intro loader_ok_update) (simp add: workspace_ok_def)
  moreover have "wk_regions (fst (workspace_step addModel w (PairUpdate u))) = wk_regions w"
    unfolding workspace_regions assms(2) by (simp add: map_filter_def)
  ultimately show ?thesis
    using assms(1) unfolding workspace_ok_def workspace_loader assms(3) by simp
qed

lemma workspace_added:
  assumes "distinct symbols" "workspace_ok symbols popped w" "cp_symbol (cpu_currencyPair u) \<in> set symbols"
    and "cpu_updateType u = Added" "\<not> has_tile w (cp_symbol (cpu_currencyPair u))" "tl_failed (wk_loader w) = None"
    and "addModel (tl_added (wk_loader w)) (createSpotTileModelId (cp_symbol (cpu_currencyPair u))) = None"
  shows "workspace_ok symbols popped (fst (workspace_step addModel w (PairUpdate u)))"
proof -
  let ?s = "cp_symbol (cpu_currencyPair u)" and ?hs = "map tile_helper symbols"
  define w' where "w' = fst (workspace_step addModel w (PairUpdate u))"
  note layout = tiles_layout [OF assms(1)]
  have ok: "placed ?hs (tile_helper ` {s. has_tile w s}) popped (wk_regions w)" "neat (wk_regions w)"
    using assms(2) by (auto simp: workspace_ok_def)
  have calls: "snd (loader_update addModel (wk_loader w) u) = [CreateTile (createSpotTileModelId ?s) (cpu_currencyPair u), PublishInit (createSpotTileModelId ?s)]"
    using assms(4-7) by (simp add: loader_update.simps createTileModel_cases Let_def)
  have regions: "wk_regions w' = fst (helper_init (tile_helper ?s) (wk_regions w))"
    unfolding w'_def workspace_regions calls by (simp add: map_filter_def)
  have working: "tl_failed (fst (loader_update addModel (wk_loader w) u)) = None"
    using assms(4-7) by (simp add: loader_update.simps createTileModel_cases Let_def)
  have has: "{s. has_tile w' s} = insert ?s {s. has_tile w s}"
    unfolding w'_def workspace_loader loader_symbols [OF working] using assms(4) by auto
  have new: "tile_helper ?s \<in> set ?hs" "tile_helper ?s \<notin> tile_helper ` {s. has_tile w s}" using assms(3,5) by auto
  have placed: "placed ?hs (tile_helper ` {s. has_tile w' s}) popped (wk_regions w')"
    unfolding regions has image_insert by (rule placed_init [OF layout new(1) ok(1) new(2)])
  have neat: "neat (wk_regions w')" unfolding regions by (rule neat_init [OF layout new(1) ok(1) new(2) ok(2)])
  have loader: "loader_ok (wk_loader w')"
    unfolding w'_def workspace_loader using assms(2) by (intro loader_ok_update) (simp add: workspace_ok_def)
  have "{s. has_tile w' s} \<subseteq> set symbols" using assms(2,3) unfolding has by (simp add: workspace_ok_def)
  with loader placed neat show ?thesis unfolding workspace_ok_def w'_def [symmetric] by blast
qed

lemma workspace_removed:
  assumes "distinct symbols" "workspace_ok symbols popped w" "cpu_updateType u = Removed"
    and "has_tile w (cp_symbol (cpu_currencyPair u))" "tl_failed (wk_loader w) = None"
    and "w' = fst (workspace_step addModel w (PairUpdate u))"
  shows "loader_ok (wk_loader w')"
    and "{s. has_tile w' s} = {s. has_tile w s} - {cp_symbol (cpu_currencyPair u)}"
    and "neat (wk_regions w')"
    and "\<exists>popped'. placed (map tile_helper symbols)
      (if popped (tile_helper (cp_symbol (cpu_currencyPair u))) then tile_helper ` {s. has_tile w s}
       else tile_helper ` {s. has_tile w s} - {tile_helper (cp_symbol (cpu_currencyPair u))}) popped' (wk_regions w')
      \<and> (popped (tile_helper (cp_symbol (cpu_currencyPair u))) \<longrightarrow> popped' = popped)"
proof -
  let ?s = "cp_symbol (cpu_currencyPair u)" and ?hs = "map tile_helper symbols"
  note layout = tiles_layout [OF assms(1)]
  have ok: "placed ?hs (tile_helper ` {s. has_tile w s}) popped (wk_regions w)" "neat (wk_regions w)" "?s \<in> set symbols"
    using assms(2,4) by (auto simp: workspace_ok_def)
  obtain tile where tile: "obj_get (tl_tiles (wk_loader w)) ?s = Some tile" using assms(4) by (auto simp: obj_has_def)
  have step: "loader_update addModel (wk_loader w) u =
      ((wk_loader w)\<lparr>tl_tiles := obj_delete ?s (tl_tiles (wk_loader w))\<rparr>, [PublishTileClosed (ot_modelId tile)])"
    using assms(3-5) tile by (simp add: loader_update.simps Let_def)
  have regions: "wk_regions w' = fst (helper_removeFromRegion (tile_helper ?s) (wk_regions w))"
    unfolding assms(6) workspace_regions step by (simp add: map_filter_def)
  show "loader_ok (wk_loader w')"
    unfolding assms(6) workspace_loader using assms(2) by (intro loader_ok_update) (simp add: workspace_ok_def)
  show "{s. has_tile w' s} = {s. has_tile w s} - {?s}"
    unfolding assms(6) workspace_loader step by (auto simp: obj_has_def obj_get_delete split: if_splits)
  show "neat (wk_regions w')" unfolding regions by (rule neat_helper_remove [OF ok(2)])
  show "\<exists>popped'. placed ?hs (if popped (tile_helper ?s) then tile_helper ` {s. has_tile w s}
      else tile_helper ` {s. has_tile w s} - {tile_helper ?s}) popped' (wk_regions w') \<and> (popped (tile_helper ?s) \<longrightarrow> popped' = popped)"
    unfolding regions by (rule placed_remove [OF layout _ ok(1)]) (use ok(3) in simp)
qed

lemma possible_on_page:
  assumes "distinct symbols" "workspace_ok symbols popped w" "possible w (PopOut s)"
  shows "has_tile w s \<and> \<not> popped (tile_helper s)"
proof -
  have "createSpotTileModelId s \<in> set (hosted (page_regions (wk_regions w)))" using assms(3) by (simp only: possible_def workspace_event.case)
  then obtain s' where "createSpotTileModelId s = createSpotTileModelId s'" "has_tile w s'" "\<not> popped (tile_helper s')"
    by (metis shown_tile(2) [OF assms(1,2)])
  then show ?thesis by (simp only: tile_id_inject not_False_eq_True simp_thms)
qed

lemma possible_in_window:
  assumes "distinct symbols" "workspace_ok symbols popped w" "possible w (CloseWindow s)"
  shows "has_tile w s \<and> popped (tile_helper s)"
proof -
  have "createSpotTileModelId s \<in> set (hosted (popout_windows (wk_regions w)))" using assms(3) by (simp only: possible_def workspace_event.case)
  then obtain s' where "createSpotTileModelId s = createSpotTileModelId s'" "has_tile w s'" "popped (tile_helper s')"
    by (metis shown_tile(1) [OF assms(1,2)])
  then show ?thesis by (simp only: tile_id_inject simp_thms)
qed

lemma workspace_step_ok:
  assumes "distinct symbols" "workspace_ok symbols popped w" "possible w ev" "removes_from_page w ev"
    and "\<And>u. ev = PairUpdate u \<Longrightarrow> cp_symbol (cpu_currencyPair u) \<in> set symbols"
  shows "\<exists>popped. workspace_ok symbols popped (fst (workspace_step addModel w ev))"
proof (cases ev)
  case (PairUpdate u)
  let ?s = "cp_symbol (cpu_currencyPair u)"
  let ?step = "loader_update addModel (wk_loader w) u"
  consider (idle) "snd ?step = []" "tl_tiles (fst ?step) = tl_tiles (wk_loader w)"
    | (added) "cpu_updateType u = Added" "\<not> has_tile w ?s" "tl_failed (wk_loader w) = None"
        "addModel (tl_added (wk_loader w)) (createSpotTileModelId ?s) = None"
    | (removed) "cpu_updateType u = Removed" "has_tile w ?s" "tl_failed (wk_loader w) = None"
    by (cases "tl_failed (wk_loader w)"; cases "cpu_updateType u"; cases "has_tile w ?s";
        cases "addModel (tl_added (wk_loader w)) (createSpotTileModelId ?s)")
      (simp_all add: loader_update.simps createTileModel_cases Let_def)
  then show ?thesis
  proof cases
    case idle
    from workspace_idle [OF assms(2) this] PairUpdate show ?thesis by blast
  next
    case added
    from workspace_added [where addModel = addModel, OF assms(1,2) assms(5) [OF PairUpdate] this] PairUpdate show ?thesis by blast
  next
    case removed
    define w' where "w' = fst (workspace_step addModel w (PairUpdate u))"
    note gone = workspace_removed [OF assms(1,2) removed w'_def]
    have "\<not> popped (tile_helper ?s)"
      using assms(4) PairUpdate removed shown_tile(1) [OF assms(1,2)] by (auto simp: removes_from_page_def)
    then obtain popped' where "placed (map tile_helper symbols) (tile_helper ` {s. has_tile w s} - {tile_helper ?s}) popped' (wk_regions w')"
      using gone(4) by auto
    moreover have "tile_helper ` {s. has_tile w s} - {tile_helper ?s} = tile_helper ` {s. has_tile w' s}" unfolding gone(2) by auto
    ultimately have placed: "placed (map tile_helper symbols) (tile_helper ` {s. has_tile w' s}) popped' (wk_regions w')" by simp
    have subset: "{s. has_tile w' s} \<subseteq> set symbols" using assms(2) unfolding gone(2) workspace_ok_def by blast
    have "workspace_ok symbols popped' w'" unfolding workspace_ok_def by (intro conjI gone(1,3) subset placed)
    then show ?thesis unfolding PairUpdate w'_def by blast
  qed
next
  case (PopOut s)
  let ?h = "tile_helper s" and ?hs = "map tile_helper symbols" and ?has = "{s. has_tile w s}"
  note layout = tiles_layout [OF assms(1)]
  have ok: "placed ?hs (tile_helper ` ?has) popped (wk_regions w)" "neat (wk_regions w)" "?has \<subseteq> set symbols"
    using assms(2) by (auto simp: workspace_ok_def)
  have s: "has_tile w s" "\<not> popped ?h"
    using possible_on_page [OF assms(1,2)] assms(3) unfolding PopOut by blast+
  then have h: "?h \<in> set ?hs" "?h \<in> tile_helper ` ?has" using ok(3) by auto
  have inv: "regions_inv ?hs (wk_regions w)" using ok(1) by (simp add: placed_def)
  note p = ok(1) [unfolded placed_def, THEN conjunct2, rule_format]
  have "placed ?hs (insert ?h (tile_helper ` ?has)) (popped(?h := True)) (fst (helper_popout ?h (wk_regions w)))"
    by (rule placed_popout [OF layout h(1) inv]) (rule p)
  moreover have "neat (fst (helper_popout ?h (wk_regions w)))"
    by (rule neat_popout [OF layout h(1) inv ok(2)]) (simp add: placed_at(1) [OF ok(1) h(1)] s(2) del: tile_helper_simps)
  ultimately have "workspace_ok symbols (popped(?h := True)) (fst (workspace_step addModel w ev))"
    using assms(2) PopOut h(2) by (simp add: workspace_ok_def insert_absorb split_beta Let_def)
  then show ?thesis by blast
next
  case (CloseWindow s)
  let ?h = "tile_helper s" and ?hs = "map tile_helper symbols" and ?has = "{s. has_tile w s}"
  note layout = tiles_layout [OF assms(1)]
  have ok: "placed ?hs (tile_helper ` ?has) popped (wk_regions w)" "neat (wk_regions w)" "?has \<subseteq> set symbols"
    using assms(2) by (auto simp: workspace_ok_def)
  have "has_tile w s"
    using possible_in_window [OF assms(1,2)] assms(3) unfolding CloseWindow by blast
  then have h: "?h \<in> set ?hs" "?h \<in> tile_helper ` ?has" using ok(3) by auto
  have "placed ?hs (tile_helper ` ?has) (popped(?h := False)) (fst (popoutClosed (hp_model ?h) (wk_regions w)))"
    by (rule placed_closed [OF layout h(1) ok(1) h(2)])
  moreover have "neat (fst (popoutClosed (hp_model ?h) (wk_regions w)))" by (rule neat_closed [OF layout h(1) ok(1,2)])
  ultimately have "workspace_ok symbols (popped(?h := False)) (fst (workspace_step addModel w ev))"
    using assms(2) CloseWindow by (simp add: workspace_ok_def split_beta Let_def)
  then show ?thesis by blast
qed

lemma workspace_run_ok:
  assumes "distinct symbols" "workspace_ok symbols popped w" "tame addModel w evs"
    and "(\<lambda>u. cp_symbol (cpu_currencyPair u)) ` set (pair_updates evs) \<subseteq> set symbols"
  shows "\<exists>popped. workspace_ok symbols popped (final_state (workspace_step addModel) w evs)"
  using assms(2-4)
proof (induction evs arbitrary: popped w)
  case (Cons ev evs)
  have "cp_symbol (cpu_currencyPair u) \<in> set symbols" if "ev = PairUpdate u" for u using Cons.prems(3) that by simp
  then obtain popped' where "workspace_ok symbols popped' (fst (workspace_step addModel w ev))"
    using workspace_step_ok [OF assms(1) Cons.prems(1), of ev addModel] Cons.prems(2) by auto
  moreover have "(\<lambda>u. cp_symbol (cpu_currencyPair u)) ` set (pair_updates evs) \<subseteq> set symbols"
    using Cons.prems(3) by (cases ev) auto
  ultimately show ?case using Cons.IH Cons.prems(2) by simp
qed auto

lemma workspace_start_ok:
  assumes "distinct symbols"
  shows "\<exists>popped. workspace_ok symbols popped (new_workspace container storage)"
proof -
  let ?popped = "\<lambda>h. \<exists>saved. storage = Some saved \<and> (\<exists>name. obj_get saved (hp_model h) = Some name \<and> name \<noteq> hp_regionName h)"
  have "neat (application_regions container storage)"
    by (simp add: neat_def application_regions_def new_region_manager_def obj_get_set new_region_def)
  with placed_start [OF tiles_layout [OF assms], of ?popped storage container] have "workspace_ok symbols ?popped (new_workspace container storage)"
    by (simp add: workspace_ok_def new_workspace_def)
  then show ?thesis by blast
qed

text \<open>The loader does not depend on what the user does with the tiles.\<close>

lemma workspace_loader_run:
  "wk_loader (final_state (workspace_step addModel) w evs) = final_state (loader_update addModel) (wk_loader w) (pair_updates evs)"
proof (induction evs arbitrary: w)
  case (Cons ev evs)
  then show ?case by (cases ev) (simp_all add: split_beta Let_def)
qed simp

lemma workspace_reached:
  assumes "tame addModel (new_workspace container storage) evs"
    and "w = final_state (workspace_step addModel) (new_workspace container storage) evs"
  obtains symbols popped where "distinct symbols" "workspace_ok symbols popped w"
proof -
  let ?symbols = "remdups (map (\<lambda>u. cp_symbol (cpu_currencyPair u)) (pair_updates evs))"
  obtain popped0 where "workspace_ok ?symbols popped0 (new_workspace container storage)"
    using workspace_start_ok [of ?symbols container storage] by auto
  then obtain popped where "workspace_ok ?symbols popped w"
    using workspace_run_ok [of ?symbols popped0 "new_workspace container storage" addModel evs] assms by auto
  then show thesis using that [of ?symbols popped] by simp
qed

lemma workspace_tiles:
  assumes "registers_once addModel" "\<not> comes_back (pair_updates evs)"
    and "w = final_state (workspace_step addModel) (new_workspace container storage) evs"
  shows "{s. has_tile w s} = dom (fold spec_update (pair_updates evs) Map.empty)"
proof -
  have "tl_failed (final_state (loader_update addModel) new_tile_loader (pair_updates evs)) = None"
    using loader_fails_on_comeback [OF assms(1)] assms(2) by simp
  with loader_follows [of Map.empty new_tile_loader addModel "pair_updates evs"] show ?thesis
    by (simp add: assms(3) workspace_loader_run new_workspace_def)
qed

section \<open>Properties\<close>

text \<open>C12: the screen shows a tile for every pair of the reference data and nothing else: as long as no pair comes back after
  it was removed (the loader stops then) and none is removed while its tile is in a window, after any updates of the pairs,
  pop outs and closed windows, in the container or in a browser and whatever is stored at the start, the tiles rendered on
  the page and in the windows are those of the pairs added and not removed, each once.\<close>

theorem screen_shows_every_pair:
  assumes "registers_once addModel" "\<not> comes_back (pair_updates evs)"
    and "tame addModel (new_workspace container storage) evs"
    and "w = final_state (workspace_step addModel) (new_workspace container storage) evs"
    and "shown = hosted (page_regions (wk_regions w) @ popout_windows (wk_regions w))"
  shows "set shown = createSpotTileModelId ` dom (fold spec_update (pair_updates evs) Map.empty) \<and> distinct shown"
proof -
  obtain symbols popped where w: "distinct symbols" "workspace_ok symbols popped w"
    by (rule workspace_reached [OF assms(3,4)])
  have parts: "shown = hosted (page_regions (wk_regions w)) @ hosted (popout_windows (wk_regions w))"
    by (simp add: assms(5) hosted_def)
  note tiles = shown_tile [OF w(1,2)]
  have "set shown = createSpotTileModelId ` {s. has_tile w s}"
    by (auto simp: parts tiles)
  moreover have "distinct shown"
  proof -
    have inv: "regions_inv (map tile_helper symbols) (wk_regions w)" and neat: "neat (wk_regions w)"
      using w(2) by (auto simp: workspace_ok_def placed_def)
    note page = hosted_page [OF tiles_layout [OF w(1)] inv neat]
    have "models_in (wk_regions w) name = {}" if "name \<in> home_regions" "name \<noteq> RegionNames_workspace" for name
    proof -
      have False if m: "m \<in> models_in (wk_regions w) name" for m
      proof -
        obtain h where "h \<in> set (map tile_helper symbols)" "hp_regionName h = name"
          by (rule home_helper [OF inv \<open>name \<in> home_regions\<close> m]) blast
        with \<open>name \<noteq> RegionNames_workspace\<close> show False by auto
      qed
      then show ?thesis by blast
    qed
    then have "set (models_of (wk_regions w) RegionNames_blotter) = {}" "set (models_of (wk_regions w) RegionNames_sidebar) = {}"
      by (simp_all add: models_of_in region_names)
    then have "distinct (hosted (page_regions (wk_regions w)))" "distinct (hosted (popout_windows (wk_regions w)))"
      using models_of_distinct [OF neat] by (simp_all add: page region_names)
    then show ?thesis using tiles by (auto simp: parts)
  qed
  ultimately show ?thesis by (simp add: workspace_tiles [OF assms(1,2,4)])
qed

definition pair_update :: "update_type \<Rightarrow> string \<Rightarrow> workspace_event" where
  "pair_update t symbol = PairUpdate \<lparr>cpu_updateType = t, cpu_currencyPair = new_currency_pair symbol 5 4\<rparr>"

text \<open>An earlier session stored the tile of EURUSD in a window; GBPUSD comes and goes, USDJPY is popped out.\<close>

definition example_session :: "workspace_event list" where
  "example_session = [pair_update Added ''EURUSD'', pair_update Added ''GBPUSD'', pair_update Added ''USDJPY'',
     CloseWindow ''EURUSD'', PopOut ''USDJPY'', pair_update Removed ''GBPUSD'']"

definition example_storage :: "string object option" where
  "example_storage = Some [(createSpotTileModelId ''EURUSD'', RegionNames_popout)]"

lemma example_session_tame:
  "tame example_router (new_workspace True example_storage) example_session" "\<not> comes_back (pair_updates example_session)"
  by code_simp+

lemma screen_shows_every_pair_witness:
  "let w = final_state (workspace_step example_router) (new_workspace True example_storage) example_session in
     set (hosted (page_regions (wk_regions w) @ popout_windows (wk_regions w))) = {''spotTile-EURUSD'', ''spotTile-USDJPY''}"
proof -
  have "dom (fold spec_update (pair_updates example_session) Map.empty) = {''EURUSD'', ''USDJPY''}"
    by (simp add: example_session_def pair_update_def spec_update_def new_currency_pair_def Let_def insert_commute)
  then show ?thesis
    using screen_shows_every_pair [OF example_router_ok example_session_tame(2,1) refl refl] by (simp add: createSpotTileModelId_def Let_def)
qed

text \<open>C32: the exception: a pair is removed while its tile is in a window. The window stays, and when the user closes it
  the tile goes back to the page although the reference data and the loader, which is still at work, do not have the pair
  any more.\<close>

theorem removed_pair_returns:
  assumes "tame addModel (new_workspace container storage) evs"
    and "w = final_state (workspace_step addModel) (new_workspace container storage) evs" "tl_failed (wk_loader w) = None"
    and "createSpotTileModelId symbol \<in> set (hosted (popout_windows (wk_regions w)))"
    and "cpu_updateType u = Removed" "cp_symbol (cpu_currencyPair u) = symbol"
    and "w1 = fst (workspace_step addModel w (PairUpdate u))" "w2 = fst (workspace_step addModel w1 (CloseWindow symbol))"
  shows "\<not> obj_has (tl_tiles (wk_loader w1)) symbol
    \<and> createSpotTileModelId symbol \<in> set (hosted (popout_windows (wk_regions w1)))
    \<and> \<not> obj_has (tl_tiles (wk_loader w2)) symbol
    \<and> createSpotTileModelId symbol \<in> set (hosted (page_regions (wk_regions w2)))"
proof -
  obtain symbols popped where w: "distinct symbols" "workspace_ok symbols popped w"
    by (rule workspace_reached [OF assms(1,2)])
  let ?h = "tile_helper symbol" and ?hs = "map tile_helper symbols" and ?has = "tile_helper ` {s. has_tile w s}"
  note layout = tiles_layout [OF w(1)]
  have s: "has_tile w symbol" "popped ?h" using assms(4) shown_tile(1) [OF w] by auto
  then have h: "?h \<in> set ?hs" "?h \<in> ?has" using w(2) by (auto simp: workspace_ok_def)
  have has: "has_tile w (cp_symbol (cpu_currencyPair u))" using s(1) assms(6) by simp
  note gone = workspace_removed [OF w assms(5) has assms(3,7), unfolded assms(6)]
  have placed1: "placed ?hs ?has popped (wk_regions w1)" using gone(4) s(2) by auto
  have w2: "wk_regions w2 = fst (popoutClosed (hp_model ?h) (wk_regions w1))" "wk_loader w2 = wk_loader w1"
    by (simp_all add: assms(8) split_beta Let_def)
  have placed2: "placed ?hs ?has (popped(?h := False)) (wk_regions w2)"
    unfolding w2(1) by (rule placed_closed [OF layout h(1) placed1 h(2)])
  have neat2: "neat (wk_regions w2)" unfolding w2(1) by (rule neat_closed [OF layout h(1) placed1 gone(3)])
  have inv: "regions_inv ?hs (wk_regions w1)" "regions_inv ?hs (wk_regions w2)" using placed1 placed2 by (simp_all add: placed_def)
  have "createSpotTileModelId symbol \<in> set (hosted (popout_windows (wk_regions w1)))"
    using placed_at(1) [OF placed1 h(1)] h(2) s(2) by (simp add: hosted_page(2) [OF layout inv(1) gone(3)] models_of_in)
  moreover have "createSpotTileModelId symbol \<in> set (hosted (page_regions (wk_regions w2)))"
    using placed_at(2) [OF placed2 h(1)] h(2) by (simp add: hosted_page(1) [OF layout inv(2) neat2] models_of_in)
  moreover have "\<not> has_tile w1 symbol" using gone(2) by blast
  ultimately show ?thesis by (simp add: w2(2))
qed

lemma removed_pair_returns_witness:
  "let w = final_state (workspace_step example_router) (new_workspace True None) [pair_update Added ''EURUSD'', PopOut ''EURUSD'',
       pair_update Removed ''EURUSD'', CloseWindow ''EURUSD'']
   in \<not> obj_has (tl_tiles (wk_loader w)) ''EURUSD'' \<and> ''spotTile-EURUSD'' \<in> set (hosted (page_regions (wk_regions w)))"
proof -
  let ?evs = "[pair_update Added ''EURUSD'', PopOut ''EURUSD'']"
  let ?w = "final_state (workspace_step example_router) (new_workspace True None) ?evs"
  have "tame example_router (new_workspace True None) ?evs" by code_simp
  moreover have "tl_failed (wk_loader ?w) = None" by code_simp
  moreover have "createSpotTileModelId ''EURUSD'' \<in> set (hosted (popout_windows (wk_regions ?w)))" by code_simp
  ultimately show ?thesis
    using removed_pair_returns [where addModel = example_router and evs = ?evs and container = True and storage = None and symbol = "''EURUSD''"
        and u = "\<lparr>cpu_updateType = Removed, cpu_currencyPair = new_currency_pair ''EURUSD'' 5 4\<rparr>", OF _ refl _ _ _ _ refl refl]
    by (simp add: createSpotTileModelId_def new_currency_pair_def pair_update_def Let_def del: workspace_step.simps)
qed

end
