(* ===== verification/Spec2Isabelle.thy ===== *)
theory Spec2Isabelle
  imports ServiceStreams ServiceFlow TradeFlow Execution SpotTile Blotter Analytics TileLoader Regions StatusBar Popouts Charts BubbleChart AppStart Screens Pages Workspace
begin

text \<open>
  A verification development of the web client of Reactive Trader Cloud, the JavaScript under
  \<open>src/src/client\<close> (file names below are relative to its \<open>src\<close> directory, \<open>lib\<close> apart).

  \<^bold>\<open>The program.\<close> The client keeps a WAMP connection to the backend (\<open>system/service/connection.js\<close>) and on it
  one service client per backend service (\<open>serviceClient.js\<close>), which follows the heartbeats of the service's
  instances in a dictionary and sends each request to the connected instance with the least load. Five services
  (\<open>services\<close>) turn backend messages into the value objects of \<open>services/model\<close> through the mappers; the reference
  data service caches the currency pairs the mappers look up. The models under \<open>ui\<close> hold the state of what is on
  the screen: one tile per pair, the blotter, the analytics panel, the regions the views live in, the footer. Views
  render the models and send events back; popped out views live in windows that a docking manager snaps together.

  \<^bold>\<open>How it is modelled.\<close> A JavaScript number is a rational and every operation rounds with \<open>fl\<close> (nearest double,
  ties to even); \<open>NaN\<close> is a constructor of its own. Objects used as dictionaries are association lists in
  insertion order. Exceptions are the left side of a sum. A stateful class is a record and a handler: a function
  of the state and one incoming call that returns the new state and the calls the object makes on the outside, in
  order. Rx, autobahn, the OpenFin container, timers and the clock are the environment: what they do comes in as
  events in any order, so that a property of all runs of a handler covers every interleaving. An observable's
  operator chain is the handler of one subscription to it, with its subscriptions and timers as state. Objects that
  are shared by reference (windows and their docking groups) live in a store.

  \<^bold>\<open>The theories.\<close>
  \<^item> \<open>Prelude\<close>: exceptions, search by index, runs of handlers, and two contracts as locales: \<open>guarded_handler\<close>
    (an invariant and what is allowed out) and \<open>total_handler\<close> (steps that return). \<open>JsNumber\<close>: doubles, decimal
    text, \<open>toFixed\<close>, \<open>Number\<close>, the order of numbers, rounding errors and monotonicity. \<open>JsObject\<close>: dictionaries, with
    the locale \<open>dictionary\<close> interpreted on association lists.
  \<^item> \<open>Domain\<close>: the classes of \<open>services/model\<close>. \<open>ReferenceData\<close>: \<open>referenceDataService.js\<close> and its mapper; the cache
    refines a map from symbols (locale \<open>pair_source\<close>, on which \<open>Mappers\<close> rests). \<open>Mappers\<close>: \<open>services/mappers\<close>, the digits
    of rates and the exactness of spreads.
  \<^item> \<open>Retry\<close>: \<open>retryPolicy.js\<close>, \<open>retryPolicyExt.js\<close>; a policy that never gives up is the locale \<open>persistent_policy\<close>,
    interpreted on the three shipped policies. \<open>ServiceStreams\<close>: the price, trade and analytics streams as a source,
    a mapper and the retry operator.
  \<^item> \<open>Connections\<close>: \<open>connection.js\<close> with its automatic disconnection, topics and remote calls. \<open>Heartbeats\<close>: the
    dictionary of instances, its clock, \<open>getServiceWithMinLoad\<close> and the status summary. \<open>ServiceOps\<close>: request response
    and stream operations of \<open>serviceClient.js\<close> over the dictionary. \<open>ServiceFlow\<close>: a service client at work, the
    heartbeats and the operations on one clock, each operation with its own debounced subscription to the status.
  \<^item> \<open>OpenFinContainer\<close>: \<open>system/openFin/openFin.js\<close>, the limit checks among them. \<open>Execution\<close>: one \<open>executeTrade\<close> with
    its limit check and both timeouts. \<open>TradeFlow\<close>: a tile behind its notional field with the executions it starts.
  \<^item> \<open>SpotTile\<close>: \<open>ui/spotTile/model\<close>. \<open>TileLoader\<close>: \<open>spotTileLoader.js\<close>, \<open>spotTileFactory.js\<close> on the reference data
    stream. \<open>Views\<close>: what the tile's views compute (the notional field, the price button, the classes) and the
    pop-up of a trade.
  \<^item> \<open>Blotter\<close>: \<open>ui/blotter/model\<close>. \<open>Analytics\<close>: \<open>ui/analytics/model\<close> and the circles of the position chart. \<open>Charts\<close>:
    gradients, bars and header of \<open>ui/analytics/views\<close>. \<open>BubbleChart\<close>: the component of the positions chart, its state,
    its redrawing and the collision of its circles.
  \<^item> \<open>Regions\<close>: \<open>ui/regions\<close>. \<open>Docking\<close>: \<open>lib/dockingManager.js\<close>. \<open>Popouts\<close>: \<open>ui/common/popout\<close> with the docking
    manager behind it.
  \<^item> \<open>StatusBar\<close>: \<open>compositeStatusService.js\<close>, the footer, the shell and the window buttons. \<open>Runtime\<close>: \<open>guard.js\<close>,
    \<open>logger.js\<close>, \<open>utils.js\<close>. \<open>AppStart\<close>: the pieces that start the application and the order in which
    \<open>appBootstrapper.js\<close> starts them.
  \<^item> \<open>Screens\<close>: what every React view renders, as a function from its model to a tree of elements with their class
    lists, texts and the events their handlers publish. \<open>Pages\<close>: the screens over the models in motion: the page with
    its regions and popout windows, the dialog of an expired session over the connection, a tile's elements over
    \<open>TradeFlow\<close>, the table of the blotter, and for each model the events its handlers observe. \<open>Workspace\<close>: the
    loader with the regions its tiles live in.

  \<^bold>\<open>What is shown.\<close> Trading: a trade starts only when it may, is asked for once, only after its limit check, at
  the price on the tile, for a notional within bounds, and what the user is told of it is the backend's answer, a
  failure or a timeout, once; the tile and its executions together send what was asked and show what was answered.
  Prices: digits, spreads, movements and staleness are those of the quotes, on the button too, except for the quotes its
  property leaves out. Services: an instance counts as connected exactly while its heartbeats are fresh; an operation
  asks one connected instance with the least load, once, and ends once; over the heartbeats a request reaches a live
  instance, and an operation ends when its instance falls silent; retries of a source that answers later keep exactly one
  source or timer alive. An expired session is offered again and can be renewed. State of the screen: tiles, blotter rows,
  circles and regions agree with the data they were sent; views come back where they were after a restart, and each is
  rendered once; as long as no pair comes back after its removal the screen has a tile for each pair of the reference
  data (when one does, the loader stops); a started tile always renders, and no click on it fails; the blotter's rows read
  the latest trades; the colours of the profit chart change at its zero line. Windows: groups stay consistent, docking
  operations return, snapping moves a window little. Several properties state what the code does where that is
  not what it means to do: the manifest lists them as findings.

  \<^bold>\<open>Termination and bounds.\<close> All functions are total but \<open>window_leaveGroup\<close>, whose recursion ends only when
  windows and groups agree; it is a partial function, and \<open>docking_consistent\<close> shows that it returns in every state
  the program reaches. The synchronous callbacks of \<open>ServiceStreams\<close> recurse over the number of callbacks left.
  No fuel is used. The conversion of a number to text in \<open>Views\<close> tries up to twenty decimals, enough for
  rates, which have at most twelve digits (\<open>decimals_of_decimal\<close>).

  \<^bold>\<open>Parameters.\<close> What the router of \<open>esp-js\<close> throws when a model is added (its contract: an id is registered once); \<open>sortBy\<close> and \<open>sample\<close> of lodash, the formats of \<open>numeral\<close>, \<open>moment\<close> and \<open>d3\<close>, the scales, the quadtree
  and the force layout of \<open>d3\<close>, the square root, the sizes the browser measures, the reading of date strings by
  \<open>new Date\<close>, and the random topic of a stream operation. React, \<open>SmartComponent\<close>, \<open>classnames\<close>, the table of
  \<open>fixed-data-table\<close> and the chart of \<open>react-nvd3\<close> are leaves of the rendered trees: the trees hold what they are handed.

  \<^bold>\<open>Not modelled.\<close> Style sheets and the drawing inside the leaves; \<open>Logger._logError\<close>, which nothing calls; how a
  window looks while it opens; the creation of delegates and the unused inheritance helper of the docking manager;
  classes that only hand their calls on (\<open>autobahnSessionProxy.js\<close>, \<open>schedulerService.js\<close>, \<open>disposableBase.js\<close>); the
  infinities and negative zero, which the client's data do not reach but in the collision of two circles in one place,
  where the result is \<open>NaN\<close>; build scripts, test configuration and the tests.
\<close>

end
